(* ===== verification/Prelude.thy ===== *)
theory Prelude
  imports Complex_Main "HOL-Library.Word" "HOL-Library.Char_ord" "HOL-Library.List_Lexorder"
    "HOL-Library.Code_Target_Nat"
begin

text \<open>
  Shared vocabulary of the development: machine integers at their Rust width, results and
  state-passing actions with errors as values, Rust's string operations on UTF-8 bytes, and the
  two container models (an ordered map for \<open>BTreeMap\<close>, an association list for \<open>HashMap\<close>).
  The named collections below gather the facts the component proofs use most.
\<close>

named_theorems mach \<open>machine arithmetic: saturating, checked and rounding-up operations\<close>
named_theorems res_simps \<open>evaluation rules of results and actions\<close>
named_theorems str_simps \<open>evaluation rules of the string operations\<close>

section \<open>Machine integers\<close>

type_synonym u8 = "8 word"
type_synonym u16 = "16 word"
type_synonym u32 = "32 word"
type_synonym u64 = "64 word"

definition sat_add :: "'a::len word \<Rightarrow> 'a word \<Rightarrow> 'a word" where
  "sat_add a b = (if unat a + unat b < 2 ^ LENGTH('a) then a + b else - 1)"

definition sat_sub :: "'a::len word \<Rightarrow> 'a word \<Rightarrow> 'a word" where
  "sat_sub a b = (if b \<le> a then a - b else 0)"

definition sat_mul :: "'a::len word \<Rightarrow> 'a word \<Rightarrow> 'a word" where
  "sat_mul a b = (if unat a * unat b < 2 ^ LENGTH('a) then a * b else - 1)"

definition checked_add :: "'a::len word \<Rightarrow> 'a word \<Rightarrow> 'a word option" where
  "checked_add a b = (if unat a + unat b < 2 ^ LENGTH('a) then Some (a + b) else None)"

definition div_ceil :: "'a::len word \<Rightarrow> 'a word \<Rightarrow> 'a word" where
  \<comment> \<open>\<open>u64::div_ceil\<close>: quotient, plus one when there is a remainder.\<close>
  "div_ceil a b = (if a mod b = 0 then a div b else a div b + 1)"

lemma unat_max_word_eq [mach]: "unat (- 1 :: 'a::len word) = 2 ^ LENGTH('a) - 1"
  by (simp add: unsigned_minus_1_eq_mask mask_eq_exp_minus_1)

lemma unat_sat_add [mach]: "unat (sat_add a b) = min (unat a + unat b) (2 ^ LENGTH('a) - 1)"
  for a b :: "'a::len word"
  by (auto simp: sat_add_def unat_max_word_eq unat_word_ariths min_def)

lemma unat_sat_sub [mach]: "unat (sat_sub a b) = unat a - unat b"
  by (auto simp: sat_sub_def unat_sub word_le_nat_alt)

lemma unat_sat_mul [mach]: "unat (sat_mul a b) = min (unat a * unat b) (2 ^ LENGTH('a) - 1)"
  for a b :: "'a::len word"
proof (cases "unat a * unat b < 2 ^ LENGTH('a)")
  case True
  then show ?thesis by (auto simp: sat_mul_def unat_word_ariths)
next
  case False
  then have "2 ^ LENGTH('a) - 1 \<le> unat a * unat b" by linarith
  with False show ?thesis by (simp add: sat_mul_def unat_max_word_eq min_absorb2)
qed

lemma checked_add_Some [mach]:
  "checked_add a b = Some c \<longleftrightarrow> unat a + unat b < 2 ^ LENGTH('a) \<and> c = a + b"
  for a b c :: "'a::len word"
  by (auto simp: checked_add_def)

lemma unat_div_ceil [mach]:
  assumes "b \<noteq> 0"
  shows "unat (div_ceil a b) = (unat a + unat b - 1) div unat b"
proof -
  let ?a = "unat a" and ?b = "unat b"
  have b: "0 < ?b" using assms by (simp add: unat_gt_0)
  show ?thesis
  proof (cases "?a mod ?b = 0")
    case True
    then have "a mod b = 0" by (metis unat_eq_zero unat_mod)
    moreover have "(?a + ?b - 1) div ?b = ?a div ?b"
    proof -
      from True obtain q where "?a = ?b * q" by (auto elim: dvdE)
      moreover have "?b * q + ?b - 1 = (?b - 1) + ?b * q" using b by linarith
      moreover have "((?b - 1) + ?b * q) div ?b = q"
        by (subst div_mult_self2) (use b in auto)
      ultimately show ?thesis using b by simp
    qed
    ultimately show ?thesis by (simp add: div_ceil_def unat_div)
  next
    case False
    then have "a mod b \<noteq> 0" by (metis unat_0 unat_mod)
    define q r where "q = ?a div ?b" and "r = ?a mod ?b"
    have ar: "?a = ?b * q + r" and r: "0 < r" "r < ?b"
      using False b by (auto simp: q_def r_def)
    have "?a + ?b - 1 = (r - 1) + ?b * (q + 1)"
      using r ar by (simp add: algebra_simps)
    moreover have "((r - 1) + ?b * (q + 1)) div ?b = q + 1"
      by (subst div_mult_self2) (use r in auto)
    ultimately have eq: "(?a + ?b - 1) div ?b = q + 1" by simp
    have "?b \<noteq> 1" using r by auto
    then have "2 \<le> ?b" using b by simp
    then have "2 * q \<le> ?b * q" by simp
    with ar r have "2 * q + 1 \<le> ?a" by linarith
    then have "q + 1 < 2 ^ LENGTH('a)"
      using unsigned_less[of a, where ?'a = nat] by linarith
    then have "unat (a div b + 1) = q + 1"
      by (simp add: q_def unat_word_ariths unat_div)
    then show ?thesis using \<open>a mod b \<noteq> 0\<close> eq by (simp add: div_ceil_def)
  qed
qed

section \<open>Results\<close>

text \<open>\<open>Result<T, E>\<close> is \<open>'e + 'a\<close>: \<open>Inl\<close> is \<open>Err\<close>, \<open>Inr\<close> is \<open>Ok\<close>.\<close>

definition res_bind :: "'e + 'a \<Rightarrow> ('a \<Rightarrow> 'e + 'b) \<Rightarrow> 'e + 'b" where
  "res_bind r f = (case r of Inl e \<Rightarrow> Inl e | Inr x \<Rightarrow> f x)"

definition map_err :: "('e \<Rightarrow> 'f) \<Rightarrow> 'e + 'a \<Rightarrow> 'f + 'a" where
  "map_err g r = (case r of Inl e \<Rightarrow> Inl (g e) | Inr x \<Rightarrow> Inr x)"

definition ok_or :: "'e \<Rightarrow> 'a option \<Rightarrow> 'e + 'a" where
  "ok_or e v = (case v of None \<Rightarrow> Inl e | Some x \<Rightarrow> Inr x)"

definition guard_err :: "bool \<Rightarrow> 'e \<Rightarrow> 'e + unit" where
  \<comment> \<open>\<open>if b { return Err(e) }\<close>\<close>
  "guard_err b e = (if b then Inl e else Inr ())"

definition is_ok :: "'e + 'a \<Rightarrow> bool" where
  "is_ok r = (case r of Inl _ \<Rightarrow> False | Inr _ \<Rightarrow> True)"

fun map_res :: "('a \<Rightarrow> 'e + 'b) \<Rightarrow> 'a list \<Rightarrow> 'e + 'b list" where
  \<comment> \<open>\<open>iter().map(f).collect::<Result<Vec<_>, _>>()\<close>: stops at the first error.\<close>
  "map_res f [] = Inr []"
| "map_res f (x # xs) = res_bind (f x) (\<lambda>y. res_bind (map_res f xs) (\<lambda>ys. Inr (y # ys)))"

lemma res_bind_simps [simp, res_simps]:
  "res_bind (Inl e) f = Inl e" "res_bind (Inr x) f = f x"
  by (simp_all add: res_bind_def)

lemma map_err_simps [simp, res_simps]:
  "map_err g (Inl e) = Inl (g e)" "map_err g (Inr x) = Inr x"
  by (simp_all add: map_err_def)

lemma ok_or_simps [simp, res_simps]:
  "ok_or e None = Inl e" "ok_or e (Some x) = Inr x"
  by (simp_all add: ok_or_def)

lemma is_ok_simps [simp, res_simps]: "is_ok (Inl e) = False" "is_ok (Inr x) = True"
  by (simp_all add: is_ok_def)

lemma res_bind_Inr [res_simps]: "res_bind r f = Inr y \<longleftrightarrow> (\<exists>x. r = Inr x \<and> f x = Inr y)"
  by (cases r) auto

lemma res_bind_Inl [res_simps]:
  "res_bind r f = Inl e \<longleftrightarrow> r = Inl e \<or> (\<exists>x. r = Inr x \<and> f x = Inl e)"
  by (cases r) auto

lemma map_err_Inr [res_simps]: "map_err g r = Inr x \<longleftrightarrow> r = Inr x"
  by (cases r) auto

lemma map_err_Inl [res_simps]: "map_err g r = Inl e \<longleftrightarrow> (\<exists>e'. r = Inl e' \<and> e = g e')"
  by (cases r) auto

lemma ok_or_Inr [res_simps]: "ok_or e v = Inr x \<longleftrightarrow> v = Some x"
  by (cases v) auto

lemma ok_or_Inl [res_simps]: "ok_or e v = Inl e' \<longleftrightarrow> v = None \<and> e' = e"
  by (cases v) auto

lemma guard_err_Inr [res_simps]: "guard_err b e = Inr u \<longleftrightarrow> \<not> b"
  by (simp add: guard_err_def)

lemma guard_err_Inl [res_simps]: "guard_err b e = Inl e' \<longleftrightarrow> b \<and> e' = e"
  by (auto simp: guard_err_def)

lemma res_bind_guard [res_simps]:
  "res_bind (guard_err b e) f = (if b then Inl e else f ())"
  by (simp add: guard_err_def)

lemma map_res_Inr: "map_res f xs = Inr ys \<longleftrightarrow> list_all2 (\<lambda>x y. f x = Inr y) xs ys"
  by (induction xs arbitrary: ys) (auto simp: res_simps list_all2_Cons1)

lemma map_res_length: "map_res f xs = Inr ys \<Longrightarrow> length ys = length xs"
  by (auto simp: map_res_Inr dest: list_all2_lengthD)

lemma map_res_total: "(\<And>x. x \<in> set xs \<Longrightarrow> f x = Inr (g x)) \<Longrightarrow> map_res f xs = Inr (map g xs)"
  by (induction xs) auto

lemma map_res_map: "map_res f (map g xs) = map_res (\<lambda>x. f (g x)) xs"
  by (induction xs) auto

text \<open>
  Code that can panic returns \<open>Panics\<close> where it does, and \<open>Fails\<close> for an \<open>Err\<close>.
\<close>

datatype 'e failure = Fails 'e | Panics

abbreviation fail :: "'e \<Rightarrow> 'e failure + 'a" where
  "fail e \<equiv> Inl (Fails e)"

section \<open>State-passing actions that can fail\<close>

text \<open>
  A Rust method on \<open>&mut self\<close> returning \<open>Result\<close> keeps the mutations made before an early
  return, so an action gives back the state on the error path too.
\<close>

type_synonym ('s, 'e, 'a) act = "'s \<Rightarrow> ('e + 'a) \<times> 's"

definition a_ret :: "'a \<Rightarrow> ('s, 'e, 'a) act" where
  "a_ret x = (\<lambda>s. (Inr x, s))"

definition a_fail :: "'e \<Rightarrow> ('s, 'e, 'a) act" where
  "a_fail e = (\<lambda>s. (Inl e, s))"

definition a_bind :: "('s, 'e, 'a) act \<Rightarrow> ('a \<Rightarrow> ('s, 'e, 'b) act) \<Rightarrow> ('s, 'e, 'b) act" where
  "a_bind m f = (\<lambda>s. case m s of (Inl e, t) \<Rightarrow> (Inl e, t) | (Inr x, t) \<Rightarrow> f x t)"

definition a_lift :: "'e + 'a \<Rightarrow> ('s, 'e, 'a) act" where
  "a_lift r = (\<lambda>s. (r, s))"

definition a_get :: "('s \<Rightarrow> 'a) \<Rightarrow> ('s, 'e, 'a) act" where
  "a_get f = (\<lambda>s. (Inr (f s), s))"

definition a_mod :: "('s \<Rightarrow> 's) \<Rightarrow> ('s, 'e, unit) act" where
  "a_mod f = (\<lambda>s. (Inr (), f s))"

definition a_map_err :: "('e \<Rightarrow> 'f) \<Rightarrow> ('s, 'e, 'a) act \<Rightarrow> ('s, 'f, 'a) act" where
  "a_map_err g m = (\<lambda>s. case m s of (r, t) \<Rightarrow> (map_err g r, t))"

fun a_for :: "'x list \<Rightarrow> ('x \<Rightarrow> ('s, 'e, unit) act) \<Rightarrow> ('s, 'e, unit) act" where
  \<comment> \<open>\<open>for x in xs { body(x)?; }\<close>\<close>
  "a_for [] body = a_ret ()"
| "a_for (x # xs) body = a_bind (body x) (\<lambda>_. a_for xs body)"

fun a_mapM :: "'x list \<Rightarrow> ('x \<Rightarrow> ('s, 'e, 'y) act) \<Rightarrow> ('s, 'e, 'y list) act" where
  \<comment> \<open>\<open>for x in xs { out.push(body(x)?); }\<close>\<close>
  "a_mapM [] body = a_ret []"
| "a_mapM (x # xs) body = a_bind (body x) (\<lambda>y. a_bind (a_mapM xs body) (\<lambda>ys. a_ret (y # ys)))"

lemma act_simps [simp, res_simps]:
  "a_ret x s = (Inr x, s)" "a_fail e s = (Inl e, s)" "a_lift r s = (r, s)"
  "a_get f s = (Inr (f s), s)" "a_mod g s = (Inr (), g s)"
  by (simp_all add: a_ret_def a_fail_def a_lift_def a_get_def a_mod_def)

lemma a_bind_eval [res_simps]:
  "m s = (Inl e, t) \<Longrightarrow> a_bind m f s = (Inl e, t)"
  "m s = (Inr x, t) \<Longrightarrow> a_bind m f s = f x t"
  by (simp_all add: a_bind_def)

lemma a_bind_prim [simp]:
  "a_bind (a_ret x) f s = f x s" "a_bind (a_fail e) f s = (Inl e, s)"
  "a_bind (a_get g) f s = f (g s) s" "a_bind (a_mod h) k s = k () (h s)"
  "a_bind (a_lift (Inr x)) f s = f x s" "a_bind (a_lift (Inl e)) f s = (Inl e, s)"
  by (simp_all add: a_bind_def)

lemma a_bind_Inr [res_simps]:
  "a_bind m f s = (Inr y, u) \<longleftrightarrow> (\<exists>x t. m s = (Inr x, t) \<and> f x t = (Inr y, u))"
  by (auto simp: a_bind_def split: prod.splits sum.splits)

lemma a_bind_cases:
  "a_bind m f s = (r, u) \<longleftrightarrow>
     (\<exists>e. m s = (Inl e, u) \<and> r = Inl e) \<or> (\<exists>x t. m s = (Inr x, t) \<and> f x t = (r, u))"
  by (auto simp: a_bind_def split: prod.splits sum.splits)

lemma a_map_err_simps [simp]:
  "a_map_err g (a_ret x) s = (Inr x, s)" "a_map_err g (a_fail e) s = (Inl (g e), s)"
  by (simp_all add: a_map_err_def)

lemma a_map_err_Inr [res_simps]: "a_map_err g m s = (Inr y, u) \<longleftrightarrow> m s = (Inr y, u)"
  by (auto simp: a_map_err_def map_err_Inr split: prod.splits)

lemma a_lift_bind [res_simps]: "a_bind (a_lift r) f s = (case r of Inl e \<Rightarrow> (Inl e, s) | Inr x \<Rightarrow> f x s)"
  by (cases r) simp_all

text \<open>
  An invariant that every step of a loop keeps, on success and on failure, is kept by the loop.
\<close>

definition a_keeps :: "('s \<Rightarrow> bool) \<Rightarrow> ('s, 'e, 'a) act \<Rightarrow> bool" where
  "a_keeps P m \<longleftrightarrow> (\<forall>s. P s \<longrightarrow> P (snd (m s)))"

named_theorems keeps \<open>actions that keep an invariant\<close>

lemma a_keepsI [intro]: "(\<And>s. P s \<Longrightarrow> P (snd (m s))) \<Longrightarrow> a_keeps P m"
  by (simp add: a_keeps_def)

lemma a_keepsD: "a_keeps P m \<Longrightarrow> P s \<Longrightarrow> P (snd (m s))"
  by (simp add: a_keeps_def)

lemma a_keeps_prim [keeps]:
  "a_keeps P (a_ret x)" "a_keeps P (a_fail e)" "a_keeps P (a_lift r)" "a_keeps P (a_get f)"
  by (auto simp: a_keeps_def)

lemma a_keeps_bind [keeps]:
  assumes "a_keeps P m" and "\<And>x. a_keeps P (f x)"
  shows "a_keeps P (a_bind m f)"
  using assms by (fastforce simp: a_keeps_def a_bind_def split: prod.splits sum.splits)

lemma a_keeps_map_err [keeps]: "a_keeps P m \<Longrightarrow> a_keeps P (a_map_err g m)"
  by (auto simp: a_keeps_def a_map_err_def split: prod.splits)

lemma a_keeps_for [keeps]: "(\<And>x. a_keeps P (body x)) \<Longrightarrow> a_keeps P (a_for xs body)"
  by (induction xs) (auto intro: keeps)

lemma a_keeps_mapM [keeps]: "(\<And>x. a_keeps P (body x)) \<Longrightarrow> a_keeps P (a_mapM xs body)"
  by (induction xs) (auto intro!: keeps)

end
