(* ===== verification/Containers.thy ===== *)
theory Containers
  imports Prelude "HOL-Library.AList"
begin

text \<open>
  The two map types of the code. \<open>BTreeMap\<close> iterates in key order, so it is a list of pairs sorted
  by key (\<open>bt_insert\<close>, \<open>bt_get\<close>, \<open>bt_remove\<close>, \<open>bt_update\<close> for \<open>get_mut\<close>). \<open>HashMap\<close> iterates
  in an unspecified order, so it is an association list in an arbitrary order (\<open>hm_insert\<close>,
  \<open>hm_get\<close>, \<open>hm_remove\<close>); every theorem about it holds for all orders of its list.
  The locale \<open>keyed_map\<close> is the interface both provide; \<open>ordered_map\<close> adds the key order.
\<close>

section \<open>The interface\<close>

locale keyed_map =
  fixes inv :: "'m \<Rightarrow> bool"
    and empty :: "'m"
    and entries :: "'m \<Rightarrow> ('k \<times> 'v) list"
    and get :: "'m \<Rightarrow> 'k \<Rightarrow> 'v option"
    and insert :: "'k \<Rightarrow> 'v \<Rightarrow> 'm \<Rightarrow> 'm"
    and remove :: "'k \<Rightarrow> 'm \<Rightarrow> 'm"
  assumes inv_empty: "inv empty"
    and get_empty: "get empty k = None"
    and entries_distinct: "inv m \<Longrightarrow> distinct (map fst (entries m))"
    and entries_get: "inv m \<Longrightarrow> map_of (entries m) = get m"
    and inv_insert: "inv m \<Longrightarrow> inv (insert k v m)"
    and get_insert: "inv m \<Longrightarrow> get (insert k v m) k' = (if k' = k then Some v else get m k')"
    and inv_remove: "inv m \<Longrightarrow> inv (remove k m)"
    and get_remove: "inv m \<Longrightarrow> get (remove k m) k' = (if k' = k then None else get m k')"
begin

fun insert_all :: "('k \<times> 'v) list \<Rightarrow> 'm \<Rightarrow> 'm" where
  "insert_all [] m = m"
| "insert_all ((k, v) # kvs) m = insert_all kvs (insert k v m)"

lemma inv_insert_all: "inv m \<Longrightarrow> inv (insert_all kvs m)"
  by (induction kvs m rule: insert_all.induct) (auto intro: inv_insert)

lemma get_insert_all:
  "inv m \<Longrightarrow> get (insert_all kvs m) = get m ++ map_of (rev kvs)"
proof (induction kvs m rule: insert_all.induct)
  case (1 m)
  then show ?case by simp
next
  case (2 k v kvs m)
  then have "get (insert_all kvs (insert k v m)) = get (insert k v m) ++ map_of (rev kvs)"
    by (simp add: inv_insert)
  also have "get (insert k v m) = (get m)(k \<mapsto> v)"
    using 2 by (auto simp: get_insert)
  finally show ?case by (simp add: map_add_def fun_eq_iff split: option.splits)
qed

lemma get_in_entries: "inv m \<Longrightarrow> get m k = Some v \<longleftrightarrow> (k, v) \<in> set (entries m)"
  using entries_distinct[of m] entries_get[of m, symmetric] by simp

lemma get_insert_same: "inv m \<Longrightarrow> get (insert k v m) k = Some v"
  by (simp add: get_insert)

lemma get_insert_other: "inv m \<Longrightarrow> k' \<noteq> k \<Longrightarrow> get (insert k v m) k' = get m k'"
  by (simp add: get_insert)

end

locale ordered_map = keyed_map inv empty entries get insert remove
  for inv :: "'m \<Rightarrow> bool" and empty :: "'m"
    and entries :: "'m \<Rightarrow> ('k::linorder \<times> 'v) list" and get :: "'m \<Rightarrow> 'k \<Rightarrow> 'v option"
    and insert :: "'k \<Rightarrow> 'v \<Rightarrow> 'm \<Rightarrow> 'm" and remove :: "'k \<Rightarrow> 'm \<Rightarrow> 'm" +
  assumes entries_sorted: "inv m \<Longrightarrow> sorted (map fst (entries m))"
begin

text \<open>Two ordered maps with the same lookups iterate alike, whatever built them.\<close>

lemma entries_by_key: "inv m \<Longrightarrow> entries m = map (\<lambda>k. (k, the (get m k))) (map fst (entries m))"
proof -
  assume m: "inv m"
  have "(fst x, the (get m (fst x))) = x" if "x \<in> set (entries m)" for x
    using that get_in_entries[OF m, of "fst x" "snd x"] by simp
  then show ?thesis by (simp add: map_idI comp_def)
qed

lemma entries_unique:
  assumes m: "inv m" and n: "inv n" and eq: "get m = get n"
  shows "entries m = entries n"
proof -
  have "set (map fst (entries m)) = dom (get m)" and "set (map fst (entries n)) = dom (get n)"
    using m n by (simp_all add: dom_map_of_conv_image_fst flip: entries_get)
  with eq have "map fst (entries m) = map fst (entries n)"
    using m n by (intro sorted_distinct_set_unique) (simp_all add: entries_sorted entries_distinct)
  with entries_by_key[OF m] entries_by_key[OF n] eq show ?thesis by metis
qed

end

section \<open>The ordered map\<close>

type_synonym ('k, 'v) btree = "('k \<times> 'v) list"

definition bt_inv :: "('k::linorder, 'v) btree \<Rightarrow> bool" where
  "bt_inv m = (sorted (map fst m) \<and> distinct (map fst m))"

abbreviation bt_get :: "('k, 'v) btree \<Rightarrow> 'k \<Rightarrow> 'v option" where
  "bt_get \<equiv> map_of"

fun bt_insert :: "'k::linorder \<Rightarrow> 'v \<Rightarrow> ('k, 'v) btree \<Rightarrow> ('k, 'v) btree" where
  "bt_insert k v [] = [(k, v)]"
| "bt_insert k v ((k', v') # m) =
     (if k < k' then (k, v) # (k', v') # m
      else if k = k' then (k, v) # m
      else (k', v') # bt_insert k v m)"

definition bt_remove :: "'k \<Rightarrow> ('k, 'v) btree \<Rightarrow> ('k, 'v) btree" where
  "bt_remove k m = filter (\<lambda>(k', _). k' \<noteq> k) m"

definition bt_update :: "'k \<Rightarrow> ('v \<Rightarrow> 'v) \<Rightarrow> ('k, 'v) btree \<Rightarrow> ('k, 'v) btree" where
  \<comment> \<open>\<open>if let Some(v) = m.get_mut(k) { *v = f(v) }\<close>\<close>
  "bt_update k f m = map (\<lambda>(k', v). (k', if k' = k then f v else v)) m"

definition bt_map_values :: "('v \<Rightarrow> 'w) \<Rightarrow> ('k, 'v) btree \<Rightarrow> ('k, 'w) btree" where
  "bt_map_values f m = map (\<lambda>(k, v). (k, f v)) m"

lemma bt_insert_keys: "set (map fst (bt_insert k v m)) = insert k (set (map fst m))"
  by (induction k v m rule: bt_insert.induct) auto

lemma bt_inv_insert: "bt_inv m \<Longrightarrow> bt_inv (bt_insert k v m)"
proof (induction k v m rule: bt_insert.induct)
  case (1 k v)
  then show ?case by (simp add: bt_inv_def)
next
  case (2 k v k' v' m)
  then show ?case
    using bt_insert_keys[of k v m] by (auto simp: bt_inv_def)
qed

lemma bt_get_insert:
  "bt_inv m \<Longrightarrow> bt_get (bt_insert k v m) k' = (if k' = k then Some v else bt_get m k')"
  by (induction k v m rule: bt_insert.induct) (auto simp: bt_inv_def)

lemma bt_keys_remove: "map fst (bt_remove k m) = filter (\<lambda>k'. k' \<noteq> k) (map fst m)"
  by (induction m) (auto simp: bt_remove_def)

lemma bt_inv_remove: "bt_inv m \<Longrightarrow> bt_inv (bt_remove k m)"
  by (simp add: bt_inv_def bt_keys_remove sorted_filter[where f = id, simplified])

lemma bt_get_remove: "bt_get (bt_remove k m) k' = (if k' = k then None else bt_get m k')"
  by (induction m) (auto simp: bt_remove_def)

lemma bt_keys_update [simp]: "map fst (bt_update k f m) = map fst m"
  by (induction m) (auto simp: bt_update_def)

lemma bt_inv_update: "bt_inv (bt_update k f m) = bt_inv m"
  by (simp add: bt_inv_def)

lemma bt_get_update:
  "bt_get (bt_update k f m) k' = (if k' = k then map_option f (bt_get m k) else bt_get m k')"
  by (induction m) (auto simp: bt_update_def)

lemma bt_keys_map_values [simp]: "map fst (bt_map_values f m) = map fst m"
  by (induction m) (auto simp: bt_map_values_def)

lemma bt_get_map_values: "bt_get (bt_map_values f m) k = map_option f (bt_get m k)"
  by (induction m) (auto simp: bt_map_values_def)

lemma bt_inv_map_values: "bt_inv (bt_map_values f m) = bt_inv m"
  by (simp add: bt_inv_def)

interpretation bt: ordered_map bt_inv "[]" "\<lambda>m. m" bt_get bt_insert bt_remove
  by unfold_locales
    (auto simp: bt_inv_def[of "[]"] bt_inv_insert bt_get_insert bt_inv_remove bt_get_remove
       bt_inv_def[THEN iffD1])

section \<open>The hash map\<close>

type_synonym ('k, 'v) hmap = "('k \<times> 'v) list"

definition hm_inv :: "('k, 'v) hmap \<Rightarrow> bool" where
  "hm_inv m = distinct (map fst m)"

abbreviation hm_get :: "('k, 'v) hmap \<Rightarrow> 'k \<Rightarrow> 'v option" where
  "hm_get \<equiv> map_of"

definition hm_insert :: "'k \<Rightarrow> 'v \<Rightarrow> ('k, 'v) hmap \<Rightarrow> ('k, 'v) hmap" where
  "hm_insert k v m = AList.update k v m"

definition hm_remove :: "'k \<Rightarrow> ('k, 'v) hmap \<Rightarrow> ('k, 'v) hmap" where
  "hm_remove k m = AList.delete k m"

interpretation hm: keyed_map hm_inv "[]" "\<lambda>m. m" hm_get hm_insert hm_remove
  by unfold_locales
    (auto simp: hm_inv_def hm_insert_def hm_remove_def distinct_update distinct_delete
       update_conv' delete_conv')

definition hm_collect :: "('k \<times> 'v) list \<Rightarrow> ('k, 'v) hmap" where
  \<comment> \<open>\<open>collect::<HashMap<_, _>>()\<close>: inserted in order, a later pair replaces an earlier one.\<close>
  "hm_collect kvs = foldl (\<lambda>m (k, v). hm_insert k v m) [] kvs"

lemma hm_collect_insert_all: "hm_collect kvs = hm.insert_all kvs []"
proof -
  have "foldl (\<lambda>m (k, v). hm_insert k v m) m kvs = hm.insert_all kvs m" for m
    by (induction kvs arbitrary: m) auto
  then show ?thesis by (simp add: hm_collect_def)
qed

lemma hm_inv_collect: "hm_inv (hm_collect kvs)"
  unfolding hm_collect_insert_all by (rule hm.inv_insert_all) (simp add: hm_inv_def)

lemma hm_get_collect: "hm_get (hm_collect kvs) = map_of (rev kvs)"
  unfolding hm_collect_insert_all by (subst hm.get_insert_all) (simp_all add: hm_inv_def)

lemma hm_get_collect_distinct: "distinct (map fst kvs) \<Longrightarrow> hm_get (hm_collect kvs) = map_of kvs"
  unfolding hm_get_collect by (subst map_of_inject_set) (simp_all add: rev_map[symmetric])

lemmas map_laws = bt_inv_insert bt_get_insert bt_inv_remove bt_get_remove bt_inv_update
  bt_get_update bt_inv_map_values bt_get_map_values hm.inv_insert hm.get_insert
  hm.inv_remove hm.get_remove

end
