(* ===== verification/Rust_Strings.thy ===== *)
theory Rust_Strings
  imports Prelude
begin

text \<open>
  Rust's \<open>&str\<close> as the list of its UTF-8 bytes (\<open>string\<close>), with the standard-library operations the
  code uses: prefix and suffix stripping, \<open>split_once\<close>, \<open>trim\<close> (the Unicode \<open>White_Space\<close> property,
  matched on the UTF-8 encoding), \<open>lines\<close>, integer parsing by \<open>from_str_radix\<close> (which accepts a
  leading \<open>+\<close>), decimal and hexadecimal printing. Lengths and indices count bytes, as in Rust.
\<close>

section \<open>Bytes\<close>

abbreviation byte :: "char \<Rightarrow> nat" where
  "byte c \<equiv> of_char c"

definition is_ascii_digit :: "char \<Rightarrow> bool" where
  "is_ascii_digit c = (48 \<le> byte c \<and> byte c \<le> 57)"

definition is_ascii_alphanumeric :: "char \<Rightarrow> bool" where
  "is_ascii_alphanumeric c =
     (is_ascii_digit c \<or> (65 \<le> byte c \<and> byte c \<le> 90) \<or> (97 \<le> byte c \<and> byte c \<le> 122))"

definition to_ascii_lower :: "string \<Rightarrow> string" where
  "to_ascii_lower s = map (\<lambda>c. if 65 \<le> byte c \<and> byte c \<le> 90 then char_of (byte c + 32) else c) s"

definition is_char_boundary :: "nat \<Rightarrow> string \<Rightarrow> bool" where
  \<comment> \<open>A byte index where a slice may start or end: not inside an encoded character.\<close>
  "is_char_boundary i s =
     (i = length s \<or> (i < length s \<and> \<not> (128 \<le> byte (s ! i) \<and> byte (s ! i) < 192)))"

section \<open>Prefixes, suffixes, splitting\<close>

definition starts_with :: "string \<Rightarrow> string \<Rightarrow> bool" where
  "starts_with p s = (take (length p) s = p)"

definition strip_prefix :: "string \<Rightarrow> string \<Rightarrow> string option" where
  "strip_prefix p s = (if starts_with p s then Some (drop (length p) s) else None)"

definition strip_suffix :: "string \<Rightarrow> string \<Rightarrow> string option" where
  "strip_suffix p s =
     (if length p \<le> length s \<and> drop (length s - length p) s = p
      then Some (take (length s - length p) s) else None)"

fun split_once :: "char \<Rightarrow> string \<Rightarrow> (string \<times> string) option" where
  "split_once c [] = None"
| "split_once c (x # xs) =
     (if x = c then Some ([], xs) else map_option (\<lambda>(a, b). (x # a, b)) (split_once c xs))"

definition rsplit_once :: "char \<Rightarrow> string \<Rightarrow> (string \<times> string) option" where
  "rsplit_once c s = map_option (\<lambda>(a, b). (rev b, rev a)) (split_once c (rev s))"

lemma starts_with_append [simp]: "starts_with p (p @ s)"
  by (simp add: starts_with_def)

lemma strip_prefix_append [simp]: "strip_prefix p (p @ s) = Some s"
  by (simp add: strip_prefix_def)

lemma strip_prefix_Some: "strip_prefix p s = Some r \<longleftrightarrow> s = p @ r"
  using append_eq_conv_conj[of p r s] by (auto simp: strip_prefix_def starts_with_def)

lemma strip_suffix_append [simp]: "strip_suffix p (s @ p) = Some s"
  by (simp add: strip_suffix_def)

lemma strip_suffix_Some: "strip_suffix p s = Some r \<longleftrightarrow> s = r @ p"
proof
  assume "strip_suffix p s = Some r"
  then have "drop (length s - length p) s = p" and "r = take (length s - length p) s"
    by (auto simp: strip_suffix_def split: if_splits)
  then show "s = r @ p" using append_take_drop_id[of "length s - length p" s] by simp
next
  assume "s = r @ p"
  then show "strip_suffix p s = Some r" by simp
qed

lemma split_once_None: "split_once c s = None \<longleftrightarrow> c \<notin> set s"
  by (induction s) auto

lemma split_once_Some: "split_once c s = Some (a, b) \<longleftrightarrow> s = a @ c # b \<and> c \<notin> set a"
proof (induction s arbitrary: a)
  case Nil
  then show ?case by simp
next
  case (Cons x s)
  show ?case
  proof (cases "x = c")
    case True
    then show ?thesis by (cases a) auto
  next
    case False
    then have "split_once c (x # s) = Some (a, b) \<longleftrightarrow>
        (\<exists>a'. a = x # a' \<and> split_once c s = Some (a', b))"
      by (cases "split_once c s") auto
    with False Cons.IH show ?thesis by (cases a) auto
  qed
qed

lemma split_once_app [simp]: "c \<notin> set a \<Longrightarrow> split_once c (a @ c # b) = Some (a, b)"
  by (simp add: split_once_Some)

lemma rsplit_once_Some: "rsplit_once c s = Some (a, b) \<longleftrightarrow> s = a @ c # b \<and> c \<notin> set b"
proof -
  have "rsplit_once c s = Some (a, b) \<longleftrightarrow> split_once c (rev s) = Some (rev b, rev a)"
    by (cases "split_once c (rev s)") (auto simp: rsplit_once_def)
  also have "\<dots> \<longleftrightarrow> rev s = rev b @ c # rev a \<and> c \<notin> set b"
    by (simp add: split_once_Some)
  also have "rev s = rev b @ c # rev a \<longleftrightarrow> s = a @ c # b"
    using rev_is_rev_conv[of s "a @ c # b"] by simp
  finally show ?thesis .
qed

section \<open>Trimming\<close>

definition ws_len :: "string \<Rightarrow> nat" where
  \<comment> \<open>How many bytes the white-space character at the front takes; 0 when there is none.\<close>
  "ws_len s = (case map byte (take 3 s) of
     [] \<Rightarrow> 0
   | a # r \<Rightarrow>
       if 9 \<le> a \<and> a \<le> 13 \<or> a = 32 then 1
       else (case r of
          [] \<Rightarrow> 0
        | b # q \<Rightarrow>
            if a = 0xC2 \<and> (b = 0x85 \<or> b = 0xA0) then 2
            else (case q of
               [] \<Rightarrow> 0
             | c # _ \<Rightarrow>
                 if (a = 0xE1 \<and> b = 0x9A \<and> c = 0x80)
                   \<or> (a = 0xE2 \<and> b = 0x80 \<and> (0x80 \<le> c \<and> c \<le> 0x8A \<or> c = 0xA8 \<or> c = 0xA9 \<or> c = 0xAF))
                   \<or> (a = 0xE2 \<and> b = 0x81 \<and> c = 0x9F)
                   \<or> (a = 0xE3 \<and> b = 0x80 \<and> c = 0x80)
                 then 3 else 0)))"

lemma ws_len_Nil [simp]: "ws_len [] = 0"
  by (simp add: ws_len_def)

lemma ws_len_le [simp]: "ws_len s \<le> length s"
  by (cases s rule: list.exhaust; cases "tl s"; cases "tl (tl s)")
    (auto simp: ws_len_def)

lemma ws_len_pos: "0 < ws_len s \<Longrightarrow> length s - ws_len s < length s"
  using ws_len_le[of s] by linarith

function trim_start :: "string \<Rightarrow> string" where
  "trim_start s = (if ws_len s = 0 then s else trim_start (drop (ws_len s) s))"
  by pat_completeness auto
termination
  by (relation "measure length") (auto simp: ws_len_pos)

definition ws_end_len :: "string \<Rightarrow> nat" where
  "ws_end_len s =
     (let n = length s in
      if ws_len (drop (n - 1) s) = 1 then 1
      else if ws_len (drop (n - 2) s) = 2 then 2
      else if ws_len (drop (n - 3) s) = 3 then 3 else 0)"

lemma ws_end_len_le [simp]: "ws_end_len s \<le> length s"
proof -
  have "k \<le> length s" if "ws_len (drop (length s - k) s) = k" for k
    using ws_len_le[of "drop (length s - k) s"] that by simp
  then show ?thesis by (fastforce simp: ws_end_len_def Let_def)
qed

lemma ws_end_len_pos: "0 < ws_end_len s \<Longrightarrow> length s - ws_end_len s < length s"
  using ws_end_len_le[of s] by linarith

function trim_end :: "string \<Rightarrow> string" where
  "trim_end s = (if ws_end_len s = 0 then s else trim_end (take (length s - ws_end_len s) s))"
  by pat_completeness auto
termination
  by (relation "measure length") (auto simp: ws_end_len_pos)

declare trim_start.simps [simp del] trim_end.simps [simp del]

definition trim :: "string \<Rightarrow> string" where
  "trim s = trim_end (trim_start s)"

definition ascii_ws :: "char \<Rightarrow> bool" where
  "ascii_ws c = (9 \<le> byte c \<and> byte c \<le> 13 \<or> byte c = 32)"

definition plain_char :: "char \<Rightarrow> bool" where
  \<comment> \<open>An ASCII character that is not white space.\<close>
  "plain_char c = (byte c < 128 \<and> \<not> ascii_ws c)"

lemma ws_len_plain: "plain_char c \<Longrightarrow> ws_len (c # s) = 0"
  by (auto simp: ws_len_def plain_char_def ascii_ws_def split: list.splits)

lemma ws_len_ascii_ws: "ascii_ws c \<Longrightarrow> ws_len (c # s) = 1"
  by (auto simp: ws_len_def ascii_ws_def)

lemma trim_start_plain [simp]: "plain_char c \<Longrightarrow> trim_start (c # s) = c # s"
  by (subst trim_start.simps) (simp add: ws_len_plain)

lemma trim_start_Nil [simp]: "trim_start [] = []"
  by (subst trim_start.simps) simp

lemma trim_start_ws [simp]: "ascii_ws c \<Longrightarrow> trim_start (c # s) = trim_start s"
  by (subst trim_start.simps) (simp add: ws_len_ascii_ws)

lemma ws_len_last_plain:
  assumes "plain_char c" and "k \<le> length s"
  shows "ws_len (drop (length s - k) s @ [c]) \<noteq> Suc k"
proof -
  let ?t = "drop (length s - k) s"
  have k: "length ?t = k" using assms(2) by simp
  have b: "byte c < 128" "\<not> ascii_ws c" using assms(1) by (auto simp: plain_char_def)
  consider "k = 0" | "k = 1" | "k = 2" | "3 \<le> k" by linarith
  then show ?thesis
  proof cases
    case 1
    then show ?thesis using b by (simp add: ws_len_def ascii_ws_def)
  next
    case 2
    then obtain x where "?t = [x]" using k by (metis length_0_conv length_Suc_conv One_nat_def)
    then show ?thesis using b 2 by (auto simp: ws_len_def)
  next
    case 3
    then obtain x y where "?t = [x, y]"
      using k by (metis length_0_conv length_Suc_conv numeral_2_eq_2)
    then show ?thesis using b 3 by (auto simp: ws_len_def)
  next
    case 4
    have "ws_len u \<le> 3" for u by (auto simp: ws_len_def split: list.splits)
    then show ?thesis using 4 by (metis Suc_n_not_le_n le_trans not_less_eq_eq)
  qed
qed

lemma ws_end_len_plain: "plain_char c \<Longrightarrow> ws_end_len (s @ [c]) = 0"
proof -
  assume c: "plain_char c"
  have short: "ws_len t \<le> length t" for t by (rule ws_len_le)
  have 1: "ws_len (drop (length (s @ [c]) - 1) (s @ [c])) \<noteq> 1"
    using ws_len_last_plain[OF c, of 0 s] by simp
  have 2: "ws_len (drop (length (s @ [c]) - 2) (s @ [c])) \<noteq> 2"
  proof (cases "1 \<le> length s")
    case True
    then show ?thesis using ws_len_last_plain[OF c, of 1 s] by (simp add: numeral_2_eq_2)
  next
    case False
    then show ?thesis using short[of "s @ [c]"] by (cases s) auto
  qed
  have 3: "ws_len (drop (length (s @ [c]) - 3) (s @ [c])) \<noteq> 3"
  proof (cases "2 \<le> length s")
    case True
    then show ?thesis
      using ws_len_last_plain[OF c, of 2 s] by (simp add: numeral_3_eq_3 numeral_2_eq_2 Suc_diff_le)
  next
    case False
    then have "length (s @ [c]) - 3 = 0" and "length (s @ [c]) < 3" by auto
    then show ?thesis using short[of "s @ [c]"] by (metis drop0 leD)
  qed
  show ?thesis unfolding ws_end_len_def Let_def using 1 2 3 by (simp only: if_False)
qed

lemma trim_end_Nil [simp]: "trim_end [] = []"
  by (subst trim_end.simps) (simp add: ws_end_len_def)

lemma trim_end_plain: "plain_char c \<Longrightarrow> trim_end (s @ [c]) = s @ [c]"
  by (subst trim_end.simps) (simp add: ws_end_len_plain)

text \<open>A string that neither starts nor ends with white space is unchanged by \<open>trim\<close>.\<close>

lemma trim_plain:
  assumes "s \<noteq> [] \<Longrightarrow> plain_char (hd s) \<and> plain_char (last s)"
  shows "trim s = s"
proof (cases s)
  case Nil
  then show ?thesis by (simp add: trim_def)
next
  case (Cons c t)
  then have "trim_start s = s" using assms by simp
  moreover have "trim_end s = s"
    using trim_end_plain[of "last s" "butlast s"] assms Cons append_butlast_last_id[of s]
    by (simp del: butlast.simps last.simps)
  ultimately show ?thesis by (simp add: trim_def)
qed

section \<open>Lines\<close>

fun split_inclusive :: "char \<Rightarrow> string \<Rightarrow> string list" where
  \<comment> \<open>\<open>split_inclusive(c)\<close>: pieces end after each \<open>c\<close>; no empty last piece.\<close>
  "split_inclusive c [] = []"
| "split_inclusive c (x # xs) =
     (if x = c then [x] # split_inclusive c xs
      else case split_inclusive c xs of [] \<Rightarrow> [[x]] | p # ps \<Rightarrow> (x # p) # ps)"

definition str_lines :: "string \<Rightarrow> string list" where
  "str_lines s = map (\<lambda>line.
     case strip_suffix [CHR 0x0A] line of
       None \<Rightarrow> line
     | Some l \<Rightarrow> (case strip_suffix [CHR 0x0D] l of None \<Rightarrow> l | Some l' \<Rightarrow> l'))
     (split_inclusive (CHR 0x0A) s)"

lemma concat_split_inclusive: "concat (split_inclusive c s) = s"
  by (induction s) (auto split: list.splits)

lemma split_inclusive_line:
  "c \<notin> set l \<Longrightarrow> split_inclusive c (l @ c # s) = (l @ [c]) # split_inclusive c s"
  by (induction l) auto

lemma str_lines_Nil [simp]: "str_lines [] = []"
  by (simp add: str_lines_def)

lemma str_lines_line:
  assumes "CHR 0x0A \<notin> set l" and "l = [] \<or> last l \<noteq> CHR 0x0D"
  shows "str_lines (l @ CHR 0x0A # s) = l # str_lines s"
proof -
  have "strip_suffix [CHR 0x0D] l = None"
    using assms(2) by (cases "strip_suffix [CHR 0x0D] l") (auto simp: strip_suffix_Some)
  then show ?thesis using assms(1) by (simp add: str_lines_def split_inclusive_line)
qed

section \<open>UTF-8\<close>

definition utf8_cont :: "string \<Rightarrow> nat \<Rightarrow> nat \<Rightarrow> nat \<Rightarrow> bool" where
  "utf8_cont s i lo hi = (i < length s \<and> lo \<le> byte (s ! i) \<and> byte (s ! i) \<le> hi)"

definition utf8_step :: "string \<Rightarrow> bool \<times> nat" where
  \<comment> \<open>Whether the bytes start with an encoded character, and its length; otherwise the length of the
    longest prefix that is the start of none or only of an incomplete one.\<close>
  "utf8_step s = (case s of [] \<Rightarrow> (True, 0) | c # _ \<Rightarrow>
     let b = byte c in
     if b < 0x80 then (True, 1)
     else if 0xC2 \<le> b \<and> b \<le> 0xDF then (if utf8_cont s 1 0x80 0xBF then (True, 2) else (False, 1))
     else if 0xE0 \<le> b \<and> b \<le> 0xEF then
       (if \<not> utf8_cont s 1 (if b = 0xE0 then 0xA0 else 0x80) (if b = 0xED then 0x9F else 0xBF)
        then (False, 1)
        else if utf8_cont s 2 0x80 0xBF then (True, 3) else (False, 2))
     else if 0xF0 \<le> b \<and> b \<le> 0xF4 then
       (if \<not> utf8_cont s 1 (if b = 0xF0 then 0x90 else 0x80) (if b = 0xF4 then 0x8F else 0xBF)
        then (False, 1)
        else if \<not> utf8_cont s 2 0x80 0xBF then (False, 2)
        else if utf8_cont s 3 0x80 0xBF then (True, 4) else (False, 3))
     else (False, 1))"

lemma utf8_step_pos: "s \<noteq> [] \<Longrightarrow> 0 < snd (utf8_step s)"
  by (auto simp: utf8_step_def Let_def split: list.splits)

lemma utf8_step_drop: "s \<noteq> [] \<Longrightarrow> (g, n) = utf8_step s \<Longrightarrow> length s - n < length s"
  using utf8_step_pos[of s] by (cases "utf8_step s") simp

function utf8_lossy :: "string \<Rightarrow> string" where
  \<comment> \<open>\<open>to_string_lossy\<close>: an ill-formed part becomes U+FFFD.\<close>
  "utf8_lossy s =
     (if s = [] then []
      else case utf8_step s of (good, n) \<Rightarrow>
        (if good then take n s else [CHR 0xEF, CHR 0xBF, CHR 0xBD]) @ utf8_lossy (drop n s))"
  by pat_completeness auto
termination
  by (relation "measure length") (auto intro: utf8_step_drop)

function utf8_valid :: "string \<Rightarrow> bool" where
  "utf8_valid s =
     (if s = [] then True
      else case utf8_step s of (good, n) \<Rightarrow> if good then utf8_valid (drop n s) else False)"
  by pat_completeness auto
termination
  by (relation "measure length") (auto intro: utf8_step_drop)

declare utf8_lossy.simps [simp del] utf8_valid.simps [simp del]

lemma utf8_lossy_valid: "utf8_valid s \<Longrightarrow> utf8_lossy s = s"
proof (induction s rule: utf8_lossy.induct)
  case (1 s)
  obtain g n where gn: "utf8_step s = (g, n)" by fastforce
  show ?case
  proof (cases "s = []")
    case True
    then show ?thesis by (subst utf8_lossy.simps) simp
  next
    case False
    have "g \<and> utf8_valid (drop n s)"
      using "1.prems" False gn utf8_valid.simps[of s] by (simp split: if_splits)
    then have "utf8_lossy (drop n s) = drop n s" and g
      using "1.IH"[OF False gn[symmetric]] by simp_all
    then show ?thesis
      using False gn by (subst utf8_lossy.simps) simp
  qed
qed

lemma utf8_valid_ascii: "list_all (\<lambda>c. byte c < 128) s \<Longrightarrow> utf8_valid s"
proof (induction s)
  case Nil
  then show ?case by (subst utf8_valid.simps) simp
next
  case (Cons c s)
  then show ?case by (subst utf8_valid.simps) (simp add: utf8_step_def)
qed

section \<open>Integers from text\<close>

definition digit_val :: "nat \<Rightarrow> char \<Rightarrow> nat option" where
  \<comment> \<open>\<open>char::to_digit(radix)\<close>\<close>
  "digit_val radix c =
     (let b = byte c;
          d = (if 48 \<le> b \<and> b \<le> 57 then Some (b - 48)
               else if 97 \<le> b \<and> b \<le> 122 then Some (b - 87)
               else if 65 \<le> b \<and> b \<le> 90 then Some (b - 55) else None)
      in case d of None \<Rightarrow> None | Some v \<Rightarrow> if v < radix then Some v else None)"

fun digits_acc :: "nat \<Rightarrow> nat \<Rightarrow> nat \<Rightarrow> string \<Rightarrow> nat option" where
  \<comment> \<open>The digit loop of \<open>from_str_radix\<close>, each step checked against the type's bound.\<close>
  "digits_acc radix bnd acc [] = Some acc"
| "digits_acc radix bnd acc (c # cs) =
     (case digit_val radix c of
        None \<Rightarrow> None
      | Some d \<Rightarrow> if acc * radix + d < bnd then digits_acc radix bnd (acc * radix + d) cs else None)"

definition parse_unsigned :: "nat \<Rightarrow> nat \<Rightarrow> string \<Rightarrow> nat option" where
  \<comment> \<open>\<open>uN::from_str_radix(s, radix)\<close> with \<open>bnd = 2 ^ N\<close>: one leading \<open>+\<close> is accepted.\<close>
  "parse_unsigned radix bnd s =
     (case s of
        [] \<Rightarrow> None
      | c # cs \<Rightarrow>
          if cs = [] \<and> (c = CHR ''+'' \<or> c = CHR ''-'') then None
          else if c = CHR ''+'' then digits_acc radix bnd 0 cs
          else digits_acc radix bnd 0 s)"

definition parse_signed :: "nat \<Rightarrow> nat \<Rightarrow> string \<Rightarrow> int option" where
  \<comment> \<open>\<open>iN::from_str_radix(s, radix)\<close> with \<open>half = 2 ^ (N - 1)\<close>.\<close>
  "parse_signed radix half s =
     (case s of
        [] \<Rightarrow> None
      | c # cs \<Rightarrow>
          if cs = [] \<and> (c = CHR ''+'' \<or> c = CHR ''-'') then None
          else if c = CHR ''-'' then map_option (\<lambda>n. - int n) (digits_acc radix (half + 1) 0 cs)
          else if c = CHR ''+'' then map_option int (digits_acc radix half 0 cs)
          else map_option int (digits_acc radix half 0 s))"

definition parse_u32 :: "string \<Rightarrow> u32 option" where
  "parse_u32 s = map_option of_nat (parse_unsigned 10 (2 ^ 32) s)"

definition parse_u32_hex :: "string \<Rightarrow> u32 option" where
  "parse_u32_hex s = map_option of_nat (parse_unsigned 16 (2 ^ 32) s)"

definition parse_i32 :: "string \<Rightarrow> u32 option" where
  \<comment> \<open>An \<open>i32\<close> is the 32-bit word read as two's complement.\<close>
  "parse_i32 s = map_option of_int (parse_signed 10 (2 ^ 31) s)"

definition parse_u8_hex :: "string \<Rightarrow> u8 option" where
  "parse_u8_hex s = map_option of_nat (parse_unsigned 16 (2 ^ 8) s)"

lemma digits_acc_bound: "digits_acc radix bnd acc s = Some n \<Longrightarrow> acc < bnd \<Longrightarrow> n < bnd"
  by (induction radix bnd acc s rule: digits_acc.induct) (auto split: option.splits if_splits)

lemma parse_unsigned_bound: "0 < bnd \<Longrightarrow> parse_unsigned radix bnd s = Some n \<Longrightarrow> n < bnd"
  by (auto simp: parse_unsigned_def simp del: digits_acc.simps
      dest: digits_acc_bound split: list.splits if_splits)

section \<open>Integers to text\<close>

definition digit_char :: "nat \<Rightarrow> char" where
  "digit_char d = char_of (48 + d)"

fun show_nat :: "nat \<Rightarrow> string" where
  \<comment> \<open>\<open>Display\<close> of an unsigned integer.\<close>
  "show_nat n = (if n < 10 then [digit_char n] else show_nat (n div 10) @ [digit_char (n mod 10)])"

declare show_nat.simps [simp del]

definition show_int :: "int \<Rightarrow> string" where
  "show_int i = (if i < 0 then CHR ''-'' # show_nat (nat (- i)) else show_nat (nat i))"

definition hex_digit :: "nat \<Rightarrow> char" where
  "hex_digit d = (if d < 10 then char_of (48 + d) else char_of (55 + d))"

definition show_hex_byte :: "u8 \<Rightarrow> string" where
  \<comment> \<open>\<open>format!("{byte:02X}")\<close>\<close>
  "show_hex_byte b = [hex_digit (unat b div 16), hex_digit (unat b mod 16)]"

lemma byte_char_of [simp]: "n < 256 \<Longrightarrow> byte (char_of n) = n"
  by (simp add: of_char_of)

lemma digit_val_digit_char [simp]: "d < 10 \<Longrightarrow> 10 \<le> r \<Longrightarrow> digit_val r (digit_char d) = Some d"
  by (simp add: digit_val_def digit_char_def)

lemma digit_char_plain [simp]: "d < 10 \<Longrightarrow> plain_char (digit_char d)"
  by (simp add: plain_char_def ascii_ws_def digit_char_def)

lemma digit_val_hex_digit [simp]: "d < 16 \<Longrightarrow> digit_val 16 (hex_digit d) = Some d"
  by (simp add: digit_val_def hex_digit_def)

lemma digits_acc_append:
  "digits_acc r b acc (s @ t) =
     (case digits_acc r b acc s of None \<Rightarrow> None | Some n \<Rightarrow> digits_acc r b n t)"
  by (induction r b acc s rule: digits_acc.induct) (auto split: option.splits)

lemma digits_acc_show_nat: "n < bnd \<Longrightarrow> digits_acc 10 bnd 0 (show_nat n) = Some n"
proof (induction n rule: show_nat.induct)
  case (1 n)
  show ?case
  proof (cases "n < 10")
    case True
    with 1 show ?thesis by (subst show_nat.simps) simp
  next
    case False
    with 1 have "digits_acc 10 bnd 0 (show_nat (n div 10)) = Some (n div 10)" by simp
    with False 1(2) show ?thesis by (subst show_nat.simps) (simp add: digits_acc_append)
  qed
qed

lemma show_nat_chars: "c \<in> set (show_nat n) \<Longrightarrow> \<exists>d < 10. c = digit_char d"
proof (induction n rule: show_nat.induct)
  case (1 n)
  have m: "n mod 10 < 10" by simp
  from 1 show ?case
    by (cases "n < 10") (auto simp: show_nat.simps[of n] intro: m)
qed

lemma show_nat_nonempty [simp]: "show_nat n \<noteq> []"
  by (subst show_nat.simps) simp

lemma digit_char_not_sign: "d < 10 \<Longrightarrow> digit_char d \<noteq> CHR ''+'' \<and> digit_char d \<noteq> CHR ''-''"
proof -
  assume "d < 10"
  then have "byte (digit_char d) = 48 + d" by (simp add: digit_char_def)
  then show ?thesis by auto
qed

lemma parse_unsigned_show_nat: "n < bnd \<Longrightarrow> parse_unsigned 10 bnd (show_nat n) = Some n"
proof -
  assume n: "n < bnd"
  obtain c cs where s: "show_nat n = c # cs" by (cases "show_nat n") auto
  then obtain d where "d < 10" "c = digit_char d" using show_nat_chars[of c n] by auto
  then show ?thesis
    using digits_acc_show_nat[OF n] s digit_char_not_sign[of d] by (simp add: parse_unsigned_def)
qed

lemma trim_show_nat [simp]: "trim (show_nat n) = show_nat n"
proof (rule trim_plain)
  show "plain_char (hd (show_nat n)) \<and> plain_char (last (show_nat n))"
    using show_nat_chars[of _ n] hd_in_set[of "show_nat n"] last_in_set[of "show_nat n"]
    by (metis digit_char_plain show_nat_nonempty)
qed

section \<open>Hexadecimal bytes\<close>

definition hex_text :: "u8 list \<Rightarrow> string" where
  "hex_text bs = concat (map show_hex_byte bs)"

lemma hex_text_Cons: "hex_text (b # bs) = show_hex_byte b @ hex_text bs"
  by (simp add: hex_text_def)

lemma length_hex_text [simp]: "length (hex_text bs) = 2 * length bs"
  by (induction bs) (simp_all add: hex_text_def show_hex_byte_def)

lemma hex_digit_byte: "d < 16 \<Longrightarrow> 48 \<le> byte (hex_digit d) \<and> byte (hex_digit d) < 71"
  by (simp add: hex_digit_def)

lemma hex_text_chars: "c \<in> set (hex_text bs) \<Longrightarrow> 48 \<le> byte c \<and> byte c < 71"
proof -
  assume "c \<in> set (hex_text bs)"
  then obtain b where "c = hex_digit (unat b div 16) \<or> c = hex_digit (unat (b :: u8) mod 16)"
    by (auto simp: hex_text_def show_hex_byte_def)
  moreover have "unat b div 16 < 16" using unsigned_less[of b, where ?'a = nat] by simp
  ultimately show ?thesis using hex_digit_byte by auto
qed

lemma parse_show_hex_byte: "parse_u8_hex (show_hex_byte b) = Some b"
proof -
  let ?h = "unat b div 16" and ?l = "unat b mod 16"
  have h: "?h < 16" using unsigned_less[of b, where ?'a = nat] by simp
  have plus: "hex_digit ?h \<noteq> CHR ''+''"
    using hex_digit_byte[OF h] by auto
  have "?h * 16 + ?l = unat b" by simp
  then show ?thesis
    using h plus unsigned_less[of b, where ?'a = nat]
    by (simp add: parse_u8_hex_def parse_unsigned_def show_hex_byte_def)
qed

lemma plain_hex: "c \<in> set (hex_text bs) \<Longrightarrow> plain_char c"
  using hex_text_chars[of c bs] by (auto simp: plain_char_def ascii_ws_def)

end
