(* ===== verification/Flash.thy ===== *)
theory Flash
  imports Containers Rust_Strings
begin

text \<open>
  Flash images: \<open>load/mod.rs\<close>. Addresses, the Intel HEX and S-record readers, the byte memory they
  fill (\<open>FlashMemory\<close>, an ordered map from address to byte), its compaction into regions and the
  little-endian inline values. \<open>&raw[idx..idx + 2]\<close> and \<open>&line[2..]\<close> are byte slices, which panic
  inside a multi-byte character: a panic is the failure \<open>Panics\<close>, an \<open>Err\<close> is \<open>Fails\<close>.
  Reading a file is the parameter \<open>read\<close> of \<open>resolve_flash_file\<close>; JSON is not modelled.
\<close>

section \<open>Regions and errors\<close>

record flash_region =
  base_addr :: u32
  region_data :: "u8 list"

datatype flash_format = IntelHex | Srec | Binary

datatype record_error =
  RecordStart
| RecordHexLength
| OddDigits
| InvalidHexByte string
| RecordLength nat nat
| ChecksumMismatch
| SegmentData
| LinearData
| UnsupportedRecord nat
| MissingByteCount
| TooShortForAddress

datatype flash_parse_error =
  UnsupportedFormat string
| InvalidAddress string
| MissingBinaryBase
| AddressOverflow u32 nat
| InvalidIntelHex nat record_error
| InvalidSrec nat record_error
| FileRead string

section \<open>Format and address\<close>

definition flash_format_parse :: "string \<Rightarrow> flash_parse_error + flash_format" where
  "flash_format_parse raw =
     (let s = to_ascii_lower (trim raw) in
      if s \<in> {''hex'', ''ihex'', ''intel-hex'', ''intel_hex''} then Inr IntelHex
      else if s \<in> {''srec'', ''s-record'', ''s_record'', ''s19'', ''s28'', ''s37'', ''mot''} then Inr Srec
      else if s \<in> {''bin'', ''binary''} then Inr Binary
      else Inl (UnsupportedFormat s))"

fun path_components :: "string \<Rightarrow> string list" where
  "path_components p =
     (case split_once CHR ''/'' p of
        None \<Rightarrow> [p]
      | Some (a, b) \<Rightarrow> a # (if length b < length p then path_components b else []))"

definition path_file_name :: "string \<Rightarrow> string option" where
  \<comment> \<open>\<open>Path::file_name\<close>: the last component, unless it is \<open>..\<close>.\<close>
  "path_file_name p =
     (let cs = filter (\<lambda>c. c \<noteq> [] \<and> c \<noteq> ''.'') (path_components p)
      in if cs = [] \<or> last cs = ''..'' then None else Some (last cs))"

definition path_extension :: "string \<Rightarrow> string option" where
  "path_extension p = (case path_file_name p of
      None \<Rightarrow> None
    | Some n \<Rightarrow> (case rsplit_once CHR ''.'' n of
        None \<Rightarrow> None
      | Some (stem, ext) \<Rightarrow> if stem = [] then None else Some ext))"

definition flash_format_infer :: "string \<Rightarrow> string option \<Rightarrow> flash_parse_error + flash_format" where
  "flash_format_infer path explicit = (case explicit of
      Some raw \<Rightarrow> flash_format_parse raw
    | None \<Rightarrow> (case path_extension path of
        None \<Rightarrow> Inl (UnsupportedFormat (utf8_lossy path))
      | Some ext \<Rightarrow> if utf8_valid ext then flash_format_parse ext
                    else Inl (UnsupportedFormat (utf8_lossy path))))"

definition parse_address :: "string \<Rightarrow> flash_parse_error + u32" where
  "parse_address raw =
     (let trimmed = trim raw in
      case (case strip_prefix ''0x'' trimmed of
              Some h \<Rightarrow> Some h | None \<Rightarrow> strip_prefix ''0X'' trimmed) of
        Some hex \<Rightarrow> ok_or (InvalidAddress raw) (parse_u32_hex hex)
      | None \<Rightarrow> ok_or (InvalidAddress raw) (parse_u32 trimmed))"

section \<open>The byte memory\<close>

type_synonym flash_memory = "(u32, u8) btree"

definition ensure_address_range :: "u32 \<Rightarrow> nat \<Rightarrow> flash_parse_error + unit" where
  "ensure_address_range base len =
     (if len = 0 then Inr ()
      else let last_addr = unat base + len - 1 in
        if 2 ^ 32 - 1 < last_addr then Inl (AddressOverflow base len) else Inr ())"

fun memory_insert :: "u32 \<Rightarrow> nat \<Rightarrow> u8 list \<Rightarrow> flash_memory \<Rightarrow> flash_memory" where
  "memory_insert base offset [] bytes = bytes"
| "memory_insert base offset (value # data) bytes =
     memory_insert base (Suc offset) data (bt_insert (base + of_nat offset) value bytes)"

definition memory_write ::
    "u32 \<Rightarrow> u8 list \<Rightarrow> flash_memory \<Rightarrow> flash_parse_error + flash_memory" where
  "memory_write base data bytes =
     res_bind (ensure_address_range base (length data)) (\<lambda>_. Inr (memory_insert base 0 data bytes))"

fun regions_loop ::
    "(u32 \<times> u8) list \<Rightarrow> flash_region list \<Rightarrow> u32 option \<Rightarrow> u32 \<Rightarrow> u8 list \<Rightarrow> flash_region list" where
  "regions_loop [] regions current_base previous_addr current =
     (case current_base of
        None \<Rightarrow> regions
      | Some base \<Rightarrow> regions @ [\<lparr>base_addr = base, region_data = current\<rparr>])"
| "regions_loop ((addr, value) # bytes) regions current_base previous_addr current =
     (case current_base of
        None \<Rightarrow> regions_loop bytes regions (Some addr) addr (current @ [value])
      | Some base \<Rightarrow>
          if addr = sat_add previous_addr 1
          then regions_loop bytes regions (Some base) addr (current @ [value])
          else regions_loop bytes (regions @ [\<lparr>base_addr = base, region_data = current\<rparr>])
                 (Some addr) addr [value])"

definition into_regions :: "flash_memory \<Rightarrow> flash_region list" where
  "into_regions bytes = regions_loop bytes [] None 0 []"

fun merge_loop :: "flash_region list \<Rightarrow> flash_memory \<Rightarrow> flash_parse_error + flash_memory" where
  "merge_loop [] memory = Inr memory"
| "merge_loop (r # rs) memory =
     res_bind (memory_write (base_addr r) (region_data r) memory) (merge_loop rs)"

definition merge_regions :: "flash_region list \<Rightarrow> flash_parse_error + flash_region list" where
  "merge_regions regions = res_bind (merge_loop regions []) (\<lambda>m. Inr (into_regions m))"

definition parse_raw_binary :: "u8 list \<Rightarrow> u32 \<Rightarrow> flash_parse_error + flash_region" where
  "parse_raw_binary bytes base =
     res_bind (ensure_address_range base (length bytes))
       (\<lambda>_. Inr \<lparr>base_addr = base, region_data = bytes\<rparr>)"

section \<open>Hexadecimal text\<close>

definition is_slice :: "nat \<Rightarrow> nat \<Rightarrow> string \<Rightarrow> bool" where
  \<comment> \<open>\<open>&s[i..j]\<close> does not panic.\<close>
  "is_slice i j s = (i \<le> j \<and> is_char_boundary i s \<and> is_char_boundary j s)"

function decode_hex_loop :: "string \<Rightarrow> nat \<Rightarrow> record_error failure + u8 list" where
  "decode_hex_loop raw idx =
     (if length raw \<le> idx then Inr []
      else if \<not> is_slice idx (idx + 2) raw then Inl Panics
      else let pair = take 2 (drop idx raw) in
        res_bind (ok_or (Fails (InvalidHexByte pair)) (parse_u8_hex pair)) (\<lambda>value.
        res_bind (decode_hex_loop raw (idx + 2)) (\<lambda>out. Inr (value # out))))"
  by pat_completeness auto
termination by (relation "measure (\<lambda>(raw, idx). length raw - idx)") auto

declare decode_hex_loop.simps [simp del]

definition decode_hex_bytes :: "string \<Rightarrow> record_error failure + u8 list" where
  "decode_hex_bytes raw = (if odd (length raw) then fail OddDigits else decode_hex_loop raw 0)"

definition wrapping_sum :: "u8 list \<Rightarrow> u8" where
  "wrapping_sum bytes = foldl (+) 0 bytes"

section \<open>Intel HEX\<close>

definition ihex_bytes :: "string \<Rightarrow> record_error failure + u8 list" where
  \<comment> \<open>The checks of one trimmed, non-empty line: the decoded record with its five framing bytes.\<close>
  "ihex_bytes line =
     res_bind (ok_or (Fails RecordStart) (strip_prefix '':'' line)) (\<lambda>payload.
     if length payload < 10 \<or> odd (length payload) then fail RecordHexLength
     else res_bind (decode_hex_bytes payload) (\<lambda>bytes.
       let byte_count = unat (bytes ! 0) in
       if length bytes \<noteq> byte_count + 5 then fail (RecordLength byte_count (length bytes - 5))
       else if wrapping_sum bytes \<noteq> 0 then fail ChecksumMismatch
       else Inr bytes))"

record ihex_state =
  upper_addr :: u32
  ihex_memory :: flash_memory

datatype ihex_step = IhexContinue ihex_state | IhexBreak

definition be16 :: "u8 \<Rightarrow> u8 \<Rightarrow> u32" where
  \<comment> \<open>\<open>(a << 8) | b\<close>\<close>
  "be16 a b = or (push_bit 8 (ucast a)) (ucast b)"

definition ihex_record :: "nat \<Rightarrow> u8 list \<Rightarrow> ihex_state \<Rightarrow> flash_parse_error + ihex_step" where
  "ihex_record line_no bytes s =
     (let byte_count = unat (bytes ! 0);
          address = be16 (bytes ! 1) (bytes ! 2);
          record_type = bytes ! 3;
          data = take byte_count (drop 4 bytes)
      in if record_type = 0 then
           res_bind (ok_or (AddressOverflow (upper_addr s) (unat address))
               (checked_add (upper_addr s) address)) (\<lambda>base.
           res_bind (memory_write base data (ihex_memory s)) (\<lambda>m.
           Inr (IhexContinue (s\<lparr>ihex_memory := m\<rparr>))))
         else if record_type = 1 then Inr IhexBreak
         else if record_type = 2 then
           (if length data \<noteq> 2 then Inl (InvalidIntelHex line_no SegmentData)
            else Inr (IhexContinue (s\<lparr>upper_addr := push_bit 4 (be16 (data ! 0) (data ! 1))\<rparr>)))
         else if record_type = 4 then
           (if length data \<noteq> 2 then Inl (InvalidIntelHex line_no LinearData)
            else Inr (IhexContinue (s\<lparr>upper_addr := push_bit 16 (be16 (data ! 0) (data ! 1))\<rparr>)))
         else if record_type = 3 \<or> record_type = 5 then Inr (IhexContinue s)
         else Inl (InvalidIntelHex line_no (UnsupportedRecord (unat record_type))))"

definition at_line :: "(record_error \<Rightarrow> 'e) \<Rightarrow> record_error failure + 'a \<Rightarrow> 'e failure + 'a" where
  "at_line f r = map_err (\<lambda>e. case e of Panics \<Rightarrow> Panics | Fails m \<Rightarrow> Fails (f m)) r"

fun ihex_loop ::
    "nat \<Rightarrow> string list \<Rightarrow> ihex_state \<Rightarrow> flash_parse_error failure + ihex_state" where
  "ihex_loop idx [] s = Inr s"
| "ihex_loop idx (raw_line # rest) s =
     (let line_no = idx + 1; line = trim raw_line in
      if line = [] then ihex_loop (idx + 1) rest s
      else res_bind (at_line (InvalidIntelHex line_no) (ihex_bytes line)) (\<lambda>bytes.
        res_bind (map_err Fails (ihex_record line_no bytes s)) (\<lambda>step.
          case step of IhexBreak \<Rightarrow> Inr s | IhexContinue s' \<Rightarrow> ihex_loop (idx + 1) rest s')))"

definition parse_intel_hex :: "string \<Rightarrow> flash_parse_error failure + flash_region list" where
  "parse_intel_hex content =
     res_bind (ihex_loop 0 (str_lines content) \<lparr>upper_addr = 0, ihex_memory = []\<rparr>)
       (\<lambda>s. Inr (into_regions (ihex_memory s)))"

section \<open>S-records\<close>

definition srec_bytes :: "string \<Rightarrow> record_error failure + u8 list" where
  \<comment> \<open>The checks of one trimmed, non-empty line up to the checksum.\<close>
  "srec_bytes line =
     (if \<not> starts_with ''S'' line \<or> length line < 4 then fail RecordStart
      else if \<not> is_char_boundary 2 line then Inl Panics
      else let rest = drop 2 line in
        if odd (length rest) then fail OddDigits
        else res_bind (decode_hex_bytes rest) (\<lambda>bytes.
          if bytes = [] then fail MissingByteCount
          else let declared_count = unat (bytes ! 0) in
            if declared_count \<noteq> length bytes - 1
            then fail (RecordLength declared_count (length bytes - 1))
            else if wrapping_sum bytes \<noteq> 0xFF then fail ChecksumMismatch
            else Inr bytes))"

definition srec_addr_len :: "char \<Rightarrow> nat option" where
  "srec_addr_len t =
     (if t \<in> {CHR ''0'', CHR ''1'', CHR ''5'', CHR ''9''} then Some 2
      else if t \<in> {CHR ''2'', CHR ''6'', CHR ''8''} then Some 3
      else if t \<in> {CHR ''3'', CHR ''7''} then Some 4 else None)"

definition be_addr :: "u8 list \<Rightarrow> u32" where
  "be_addr bs = foldl (\<lambda>acc value. or (push_bit 8 acc) (ucast value)) 0 bs"

definition srec_record ::
    "nat \<Rightarrow> char \<Rightarrow> u8 list \<Rightarrow> flash_memory \<Rightarrow> flash_parse_error + flash_memory" where
  "srec_record line_no record_type bytes memory =
     (case srec_addr_len record_type of
        None \<Rightarrow> Inl (InvalidSrec line_no (UnsupportedRecord (byte record_type)))
      | Some addr_len \<Rightarrow>
          if length bytes < addr_len + 2 then Inl (InvalidSrec line_no TooShortForAddress)
          else if record_type \<in> {CHR ''1'', CHR ''2'', CHR ''3''}
          then memory_write (be_addr (take addr_len (drop 1 bytes)))
                 (take (length bytes - 1 - (1 + addr_len)) (drop (1 + addr_len) bytes)) memory
          else Inr memory)"

fun srec_loop ::
    "nat \<Rightarrow> string list \<Rightarrow> flash_memory \<Rightarrow> flash_parse_error failure + flash_memory" where
  "srec_loop idx [] memory = Inr memory"
| "srec_loop idx (raw_line # rest) memory =
     (let line_no = idx + 1; line = trim raw_line in
      if line = [] then srec_loop (idx + 1) rest memory
      else res_bind (at_line (InvalidSrec line_no) (srec_bytes line)) (\<lambda>bytes.
        res_bind (map_err Fails (srec_record line_no (line ! 1) bytes memory))
          (srec_loop (idx + 1) rest)))"

definition parse_srec :: "string \<Rightarrow> flash_parse_error failure + flash_region list" where
  "parse_srec content =
     res_bind (srec_loop 0 (str_lines content) []) (\<lambda>m. Inr (into_regions m))"

section \<open>Files and inline values\<close>

definition resolve_flash_file ::
    "(string \<Rightarrow> string option) \<Rightarrow> string \<Rightarrow> string option \<Rightarrow> u32 option \<Rightarrow>
     flash_parse_error failure + flash_region list" where
  \<comment> \<open>\<open>read path\<close> is the content of the file, \<open>None\<close> when it cannot be read; \<open>read_to_string\<close> also
    fails on ill-formed UTF-8.\<close>
  "resolve_flash_file read path format base =
     res_bind (map_err Fails (flash_format_infer path format)) (\<lambda>flash_format.
       let text = (case read path of None \<Rightarrow> None | Some c \<Rightarrow> if utf8_valid c then Some c else None)
       in case flash_format of
         IntelHex \<Rightarrow> res_bind (ok_or (Fails (FileRead path)) text) parse_intel_hex
       | Srec \<Rightarrow> res_bind (ok_or (Fails (FileRead path)) text) parse_srec
       | Binary \<Rightarrow>
           res_bind (ok_or (Fails (FileRead path)) (read path)) (\<lambda>bytes.
           res_bind (ok_or (Fails MissingBinaryBase) base) (\<lambda>b.
           res_bind (map_err Fails (parse_raw_binary (map (\<lambda>c. of_nat (byte c)) bytes) b)) (\<lambda>region.
           Inr [region]))))"

definition le_bytes4 :: "u32 \<Rightarrow> u8 list" where
  \<comment> \<open>\<open>u32::to_le_bytes\<close>\<close>
  "le_bytes4 v = map (\<lambda>i. ucast (drop_bit (8 * i) v)) [0..<4]"

definition encode_inline_u32 :: "u32 \<Rightarrow> u8 list" where
  "encode_inline_u32 value = le_bytes4 value"

definition encode_inline_i32 :: "u32 \<Rightarrow> u8 list" where
  "encode_inline_i32 value = le_bytes4 value"

definition encode_inline_f32 :: "u32 \<Rightarrow> u8 list" where
  "encode_inline_f32 bits = le_bytes4 bits"

definition encode_inline_bool :: "bool \<Rightarrow> u8 list" where
  "encode_inline_bool value = [if value then 1 else 0]"

section \<open>Regions are the compaction of the memory\<close>

definition region_end :: "flash_region \<Rightarrow> nat" where
  "region_end r = unat (base_addr r) + length (region_data r)"

definition region_bytes :: "flash_region \<Rightarrow> (u32 \<times> u8) list" where
  \<comment> \<open>The address and value of every byte, in order.\<close>
  "region_bytes r = map (\<lambda>i. (base_addr r + of_nat i, region_data r ! i)) [0..<length (region_data r)]"

definition regions_bytes :: "flash_region list \<Rightarrow> (u32 \<times> u8) list" where
  "regions_bytes rs = concat (map region_bytes rs)"

definition canonical :: "flash_region list \<Rightarrow> bool" where
  \<comment> \<open>Non-empty regions inside the address space, in increasing order, a gap between any two.\<close>
  "canonical rs =
     ((\<forall>r \<in> set rs. region_data r \<noteq> [] \<and> region_end r \<le> 2 ^ 32) \<and>
      sorted_wrt (\<lambda>r s. region_end r < unat (base_addr s)) rs)"

lemma regions_bytes_append [simp]: "regions_bytes (rs @ ss) = regions_bytes rs @ regions_bytes ss"
  by (simp add: regions_bytes_def)

lemma regions_bytes_single [simp]: "regions_bytes [r] = region_bytes r"
  by (simp add: regions_bytes_def)

lemma regions_bytes_Nil [simp]: "regions_bytes [] = []"
  by (simp add: regions_bytes_def)

lemma regions_bytes_Cons: "regions_bytes (r # rs) = region_bytes r @ regions_bytes rs"
  by (simp add: regions_bytes_def)

lemma region_bytes_snoc:
  "region_bytes \<lparr>base_addr = b, region_data = c @ [v]\<rparr> =
   region_bytes \<lparr>base_addr = b, region_data = c\<rparr> @ [(b + of_nat (length c), v)]"
  by (simp add: region_bytes_def nth_append)

lemma unat_plus_of_nat:
  "unat b + i < 2 ^ 32 \<Longrightarrow> unat ((b :: u32) + of_nat i) = unat b + i"
  by (simp add: unat_word_ariths unat_of_nat)

lemma next_address:
  assumes "a < (c :: u32)"
  shows "sat_add a 1 = a + 1" and "unat (a + 1) = unat a + 1"
proof -
  have "unat a + 1 < 2 ^ 32"
    using assms unsigned_less[of c, where ?'a = nat] by (simp add: word_less_nat_alt)
  then show "sat_add a 1 = a + 1" "unat (a + 1) = unat a + 1"
    using unat_plus_of_nat[of a 1] by (simp_all add: sat_add_def)
qed

text \<open>The loop with an open region: base, address of its last byte, bytes collected so far.\<close>

lemma regions_loop_open:
  assumes "sorted (prev # map fst kvs)" "distinct (prev # map fst kvs)"
    and "cur \<noteq> []" "unat b + length cur = unat prev + 1"
    and "canonical regs" "\<forall>r \<in> set regs. region_end r < unat b"
  shows "canonical (regions_loop kvs regs (Some b) prev cur) \<and>
    regions_bytes (regions_loop kvs regs (Some b) prev cur) =
    regions_bytes regs @ region_bytes \<lparr>base_addr = b, region_data = cur\<rparr> @ kvs"
  using assms
proof (induction kvs arbitrary: regs b prev cur)
  case Nil
  then show ?case
    using unsigned_less[of prev, where ?'a = nat]
    by (auto simp: canonical_def sorted_wrt_append region_end_def)
next
  case (Cons kv kvs)
  obtain addr v where kv: "kv = (addr, v)" by fastforce
  have lt: "prev < addr" using Cons.prems(1,2) kv by (simp add: order.strict_iff_order)
  show ?case
  proof (cases "addr = sat_add prev 1")
    case True
    then have a: "addr = prev + 1" and ua: "unat addr = unat prev + 1"
      using next_address[OF lt] by simp_all
    have "unat b + length cur < 2 ^ 32"
      using Cons.prems(4) ua unsigned_less[of addr, where ?'a = nat] by simp
    then have "unat (b + of_nat (length cur)) = unat addr"
      using Cons.prems(4) ua by (simp add: unat_plus_of_nat)
    then have pos: "b + of_nat (length cur) = addr" by (simp add: word_unat_eq_iff)
    have "canonical (regions_loop kvs regs (Some b) addr (cur @ [v])) \<and>
      regions_bytes (regions_loop kvs regs (Some b) addr (cur @ [v])) =
      regions_bytes regs @ region_bytes \<lparr>base_addr = b, region_data = cur @ [v]\<rparr> @ kvs"
      using Cons.prems kv ua by (intro Cons.IH) auto
    then show ?thesis using True kv pos by (simp add: region_bytes_snoc)
  next
    case False
    then have gap: "unat b + length cur < unat addr"
      using lt Cons.prems(4) next_address[OF lt] by (simp add: word_less_nat_alt word_unat_eq_iff)
    let ?r = "\<lparr>base_addr = b, region_data = cur\<rparr>"
    have "canonical (regs @ [?r])"
      using Cons.prems(3-6) unsigned_less[of prev, where ?'a = nat]
      by (auto simp: canonical_def sorted_wrt_append region_end_def)
    moreover have "\<forall>r \<in> set (regs @ [?r]). region_end r < unat addr"
      using Cons.prems(6) gap by (auto simp: region_end_def)
    ultimately have "canonical (regions_loop kvs (regs @ [?r]) (Some addr) addr [v]) \<and>
      regions_bytes (regions_loop kvs (regs @ [?r]) (Some addr) addr [v]) =
      regions_bytes (regs @ [?r]) @ region_bytes \<lparr>base_addr = addr, region_data = [v]\<rparr> @ kvs"
      using Cons.prems(1,2) kv by (intro Cons.IH) auto
    then show ?thesis using False kv by (simp add: region_bytes_def[of "\<lparr>base_addr = addr, region_data = [v]\<rparr>"])
  qed
qed

lemma into_regions_spec:
  assumes "bt_inv m"
  shows "canonical (into_regions m)" and "regions_bytes (into_regions m) = m"
proof -
  have "canonical (into_regions m) \<and> regions_bytes (into_regions m) = m"
  proof (cases m)
    case Nil
    then show ?thesis by (simp add: into_regions_def canonical_def)
  next
    case (Cons kv kvs)
    obtain addr v where kv: "kv = (addr, v)" by fastforce
    have "canonical (regions_loop kvs [] (Some addr) addr [v]) \<and>
      regions_bytes (regions_loop kvs [] (Some addr) addr [v]) =
      regions_bytes [] @ region_bytes \<lparr>base_addr = addr, region_data = [v]\<rparr> @ kvs"
      using assms Cons kv by (intro regions_loop_open) (auto simp: bt_inv_def canonical_def)
    then show ?thesis using Cons kv
      by (simp add: into_regions_def region_bytes_def[of "\<lparr>base_addr = addr, region_data = [v]\<rparr>"])
  qed
  then show "canonical (into_regions m)" and "regions_bytes (into_regions m) = m" by simp_all
qed

section \<open>Writing and merging\<close>

lemma length_region_bytes [simp]: "length (region_bytes r) = length (region_data r)"
  by (simp add: region_bytes_def)

lemma memory_insert_all:
  "memory_insert b k data m =
   bt.insert_all (map (\<lambda>i. (b + of_nat (k + i), data ! i)) [0..<length data]) m"
proof (induction b k data m rule: memory_insert.induct)
  case (1 b k m)
  then show ?case by simp
next
  case (2 b k v data m)
  have "[0..<length (v # data)] = 0 # map Suc [0..<length data]"
    by (simp add: upt_conv_Cons map_Suc_upt del: upt_Suc)
  then show ?case using 2 by (simp add: comp_def add.left_commute del: upt_Suc)
qed

lemma memory_insert_region:
  "memory_insert (base_addr r) 0 (region_data r) m = bt.insert_all (region_bytes r) m"
  by (simp add: memory_insert_all region_bytes_def)

lemma insert_all_append:
  "bt.insert_all (xs @ ys) m = bt.insert_all ys (bt.insert_all xs m)"
  by (induction xs arbitrary: m) auto

definition in_range :: "flash_region \<Rightarrow> bool" where
  "in_range r = (region_data r = [] \<or> region_end r \<le> 2 ^ 32)"

lemma ensure_address_range_ok:
  "ensure_address_range b n = Inr u \<longleftrightarrow> n = 0 \<or> unat b + n \<le> 2 ^ 32"
  by (auto simp: ensure_address_range_def Let_def)

lemma ensure_address_range_err:
  "ensure_address_range b n = Inl e \<longleftrightarrow> 2 ^ 32 < unat b + n \<and> n \<noteq> 0 \<and> e = AddressOverflow b n"
  by (auto simp: ensure_address_range_def Let_def)

lemma memory_write_ok:
  "memory_write (base_addr r) (region_data r) m = Inr m' \<longleftrightarrow>
     in_range r \<and> m' = bt.insert_all (region_bytes r) m"
  by (auto simp: memory_write_def res_bind_Inr ensure_address_range_ok in_range_def region_end_def
      memory_insert_region)

lemma merge_loop_ok:
  "merge_loop rs m = Inr m' \<longleftrightarrow>
     (\<forall>r \<in> set rs. in_range r) \<and> m' = bt.insert_all (regions_bytes rs) m"
  by (induction rs arbitrary: m)
    (auto simp: res_bind_Inr memory_write_ok regions_bytes_Cons insert_all_append)

lemma merge_regions_ok:
  "merge_regions rs = Inr out \<longleftrightarrow>
     (\<forall>r \<in> set rs. in_range r) \<and> out = into_regions (bt.insert_all (regions_bytes rs) [])"
  by (auto simp: merge_regions_def res_bind_Inr merge_loop_ok)

lemma bt_inv_Nil [simp]: "bt_inv []"
  by (simp add: bt_inv_def)

lemma canonical_Cons:
  "canonical (r # rs) \<longleftrightarrow> region_data r \<noteq> [] \<and> region_end r \<le> 2 ^ 32 \<and>
     (\<forall>s \<in> set rs. region_end r < unat (base_addr s)) \<and> canonical rs"
  by (auto simp: canonical_def)

lemma region_address:
  assumes "a \<in> fst ` set (region_bytes r)" and "region_end r \<le> 2 ^ 32"
  shows "unat (base_addr r) \<le> unat a" and "unat a < region_end r"
proof -
  from assms(1) obtain i where i: "i < length (region_data r)" "a = base_addr r + of_nat i"
    by (auto simp: region_bytes_def)
  then show "unat (base_addr r) \<le> unat a" and "unat a < region_end r"
    using assms(2) by (simp_all add: region_end_def unat_plus_of_nat)
qed

lemma region_bytes_sorted:
  assumes "region_end r \<le> 2 ^ 32"
  shows "sorted_wrt (<) (map fst (region_bytes r))"
proof -
  have "base_addr r + of_nat i < base_addr r + of_nat j"
    if "i < j" "j < length (region_data r)" for i j
    using that assms by (simp add: word_less_nat_alt unat_plus_of_nat region_end_def)
  then show ?thesis
    by (auto simp: region_bytes_def sorted_wrt_iff_nth_less)
qed

lemma canonical_sorted: "canonical rs \<Longrightarrow> sorted_wrt (<) (map fst (regions_bytes rs))"
proof (induction rs)
  case Nil
  then show ?case by simp
next
  case (Cons r rs)
  have "a < c" if a: "a \<in> fst ` set (region_bytes r)" and c: "c \<in> fst ` set (regions_bytes rs)" for a c
  proof -
    from c obtain s where s: "s \<in> set rs" "c \<in> fst ` set (region_bytes s)"
      by (auto simp: regions_bytes_def)
    then have "region_end s \<le> 2 ^ 32" using Cons.prems by (auto simp: canonical_def)
    then have "unat (base_addr s) \<le> unat c" using s region_address by simp
    moreover have "unat a < region_end r" using a Cons.prems region_address
      by (simp add: canonical_Cons)
    moreover have "region_end r < unat (base_addr s)" using s Cons.prems by (simp add: canonical_Cons)
    ultimately show ?thesis by (simp add: word_less_nat_alt)
  qed
  then show ?case
    using Cons region_bytes_sorted[of r]
    by (auto simp: regions_bytes_Cons sorted_wrt_append canonical_Cons)
qed

lemma canonical_bt_inv: "canonical rs \<Longrightarrow> bt_inv (regions_bytes rs)"
  using canonical_sorted[of rs] by (simp add: bt_inv_def strict_sorted_iff)

lemma longer_region_False:
  assumes "canonical (r # rs)" "base_addr r = base_addr s"
    "length (region_data r) < length (region_data s)"
    "region_bytes r @ regions_bytes rs = region_bytes s @ c" "region_end s \<le> 2 ^ 32"
  shows False
proof -
  let ?n = "length (region_data r)"
  have "(region_bytes r @ regions_bytes rs) ! ?n = (base_addr s + of_nat ?n, region_data s ! ?n)"
    using assms(3,4) by (simp add: nth_append region_bytes_def)
  moreover have ne: "regions_bytes rs \<noteq> []"
    using arg_cong[OF assms(4), of length] assms(3) by auto
  ultimately have hd: "hd (regions_bytes rs) = (base_addr s + of_nat ?n, region_data s ! ?n)"
    by (simp add: nth_append hd_conv_nth)
  obtain q qs where rs: "rs = q # qs" using ne by (cases rs) auto
  then have "region_data q \<noteq> []" "region_end r < unat (base_addr q)"
    using assms(1) by (auto simp: canonical_Cons)
  then have "fst (hd (regions_bytes rs)) = base_addr q"
    by (simp add: rs regions_bytes_Cons region_bytes_def hd_append upt_conv_Cons hd_map)
  with hd have "base_addr q = base_addr s + of_nat ?n" by simp
  then have "unat (base_addr q) = unat (base_addr s) + ?n"
    using assms(3,5) by (simp add: unat_plus_of_nat region_end_def)
  with \<open>region_end r < unat (base_addr q)\<close> assms(2) show False by (simp add: region_end_def)
qed

lemma region_bytes_inj:
  "region_bytes r = region_bytes s \<Longrightarrow> base_addr r = base_addr s \<Longrightarrow> r = s"
proof -
  assume eq: "region_bytes r = region_bytes s" and b: "base_addr r = base_addr s"
  have "map snd (region_bytes q) = region_data q" for q
    by (simp add: region_bytes_def comp_def map_nth)
  with eq b show "r = s" by (metis flash_region.equality old.unit.exhaust)
qed

lemma canonical_inj:
  "canonical rs \<Longrightarrow> canonical ss \<Longrightarrow> regions_bytes rs = regions_bytes ss \<Longrightarrow> rs = ss"
proof (induction rs ss rule: list_induct2')
  case (4 r rs s ss)
  have hd: "fst (hd (regions_bytes (q # qs))) = base_addr q" if "region_data q \<noteq> []" for q qs
    using that by (simp add: regions_bytes_Cons region_bytes_def hd_append upt_conv_Cons hd_map)
  have b: "base_addr r = base_addr s"
    using "4.prems" hd[of r rs] hd[of s ss] by (simp add: canonical_Cons)
  have eq: "region_bytes r @ regions_bytes rs = region_bytes s @ regions_bytes ss"
    using "4.prems"(3) by (simp add: regions_bytes_Cons)
  have "length (region_data r) = length (region_data s)"
    using longer_region_False[of r rs s "regions_bytes ss"]
      longer_region_False[of s ss r "regions_bytes rs"] "4.prems" b eq
    by (auto simp: canonical_Cons intro: linorder_cases)
  then have "region_bytes r = region_bytes s \<and> regions_bytes rs = regions_bytes ss"
    using eq by simp
  then show ?case using "4.IH" "4.prems" b region_bytes_inj by (auto simp: canonical_Cons)
qed (auto simp: regions_bytes_def canonical_def region_bytes_def)

lemma insert_all_inv [simp]: "bt_inv m \<Longrightarrow> bt_inv (bt.insert_all kvs m)"
  by (rule bt.inv_insert_all)

lemma map_of_rev_distinct: "distinct (map fst kvs) \<Longrightarrow> map_of (rev kvs) = map_of kvs"
  by (subst map_of_inject_set) (simp_all add: rev_map[symmetric])

lemma insert_all_sorted:
  assumes "bt_inv kvs"
  shows "bt.insert_all kvs [] = kvs"
proof (rule bt.entries_unique[OF _ assms])
  show "bt_get (bt.insert_all kvs []) = bt_get kvs"
    using assms by (simp add: bt.get_insert_all map_of_rev_distinct bt_inv_def)
qed simp


text \<open>A compacted image is a fixed point of \<open>merge_regions\<close>.\<close>

lemma merge_canonical: "canonical rs \<Longrightarrow> merge_regions rs = Inr rs"
proof -
  assume rs: "canonical rs"
  then have inv: "bt_inv (regions_bytes rs)" by (rule canonical_bt_inv)
  have "into_regions (regions_bytes rs) = rs"
    using into_regions_spec[OF inv] rs by (intro canonical_inj) simp_all
  moreover have "\<forall>r \<in> set rs. in_range r" using rs by (simp add: canonical_def in_range_def)
  ultimately show ?thesis by (simp add: merge_regions_ok insert_all_sorted[OF inv])
qed

lemma merge_spec:
  assumes "merge_regions rs = Inr out"
  shows "canonical out" and "map_of (regions_bytes out) = map_of (rev (regions_bytes rs))"
  using assms into_regions_spec[of "bt.insert_all (regions_bytes rs) []"]
  by (auto simp: merge_regions_ok bt.get_insert_all)

section \<open>Reading back written images\<close>

lemma is_char_boundary_ascii: "byte c < 128 \<Longrightarrow> is_char_boundary (length p) (p @ c # s)"
  by (simp add: is_char_boundary_def)

lemma decode_hex_loop_text: "decode_hex_loop (p @ hex_text bs) (length p) = Inr bs"
proof (induction bs arbitrary: p)
  case Nil
  then show ?case by (subst decode_hex_loop.simps) (simp add: hex_text_def)
next
  case (Cons b bs)
  let ?h = "hex_digit (unat b div 16)" and ?l = "hex_digit (unat b mod 16)"
  have hb: "byte ?h < 128" 
    using hex_text_chars[of ?h "[b]"] by (simp add: hex_text_def show_hex_byte_def)
  have end_ok: "is_char_boundary (length (p @ show_hex_byte b)) ((p @ show_hex_byte b) @ hex_text bs)"
  proof (cases bs)
    case Nil
    then show ?thesis by (simp add: is_char_boundary_def hex_text_def)
  next
    case (Cons c cs)
    obtain x xs where x: "hex_text bs = x # xs"
      using Cons by (simp add: hex_text_def show_hex_byte_def)
    then have "byte x < 128" using hex_text_chars[of x bs] by simp
    then show ?thesis unfolding x by (rule is_char_boundary_ascii)
  qed
  have start_ok: "is_char_boundary (length p) (p @ show_hex_byte b @ hex_text bs)"
    using is_char_boundary_ascii[OF hb] by (simp add: show_hex_byte_def)
  have len: "length (show_hex_byte b) = 2" by (simp add: show_hex_byte_def)
  have slice: "is_slice (length p) (length p + 2) (p @ hex_text (b # bs))"
    using start_ok end_ok len by (simp add: is_slice_def hex_text_Cons)
  have "decode_hex_loop (p @ hex_text (b # bs)) (length p + 2) = Inr bs"
    using Cons.IH[of "p @ show_hex_byte b"] len by (simp add: hex_text_Cons)
  then show ?case
    using slice len
    by (subst decode_hex_loop.simps)
      (simp add: hex_text_Cons parse_show_hex_byte)
qed

lemma decode_hex_text: "decode_hex_bytes (hex_text bs) = Inr bs"
  using decode_hex_loop_text[of "[]" bs] by (simp add: decode_hex_bytes_def)

lemma trim_record:
  assumes "plain_char k" and "bs \<noteq> []"
  shows "trim (k # q @ hex_text bs) = k # q @ hex_text bs"
proof (rule trim_plain)
  have "hex_text bs \<noteq> []" using assms(2) by (metis length_hex_text length_0_conv mult_is_0 zero_neq_numeral)
  then have "last (k # q @ hex_text bs) \<in> set (hex_text bs)" by simp
  then show "plain_char (hd (k # q @ hex_text bs)) \<and> plain_char (last (k # q @ hex_text bs))"
    using assms(1) plain_hex by simp
qed

lemma lines_record:
  assumes "plain_char k" "list_all plain_char q"
  shows "str_lines ((k # q @ hex_text bs) @ CHR 0x0A # s) = (k # q @ hex_text bs) # str_lines s"
proof (rule str_lines_line)
  have "\<forall>c \<in> set (k # q @ hex_text bs). plain_char c"
    using assms plain_hex by (auto simp: list_all_iff)
  moreover have "\<not> plain_char CHR 0x0A" "\<not> plain_char CHR 0x0D"
    by (simp_all add: plain_char_def ascii_ws_def)
  ultimately show "CHR 0x0A \<notin> set (k # q @ hex_text bs)"
    "k # q @ hex_text bs = [] \<or> last (k # q @ hex_text bs) \<noteq> CHR 0x0D"
    by (metis, metis last_in_set)
qed

lemma wrapping_sum_snoc [simp]: "wrapping_sum (bs @ [b]) = wrapping_sum bs + b"
  by (simp add: wrapping_sum_def)

lemma unat_be16: "unat (be16 a b) = 256 * unat a + unat b"
proof -
  have dis: "and (push_bit 8 (ucast a)) (ucast b :: u32) = 0"
    by (rule bit_word_eqI) (auto simp: bit_simps dest: bit_imp_le_length)
  have "be16 a b = push_bit 8 (ucast a) + ucast b"
    using dis unfolding be16_def by (rule disjunctive_add_eq_or[symmetric])
  moreover have "unat (push_bit 8 (ucast a) :: u32) = 256 * unat a"
    using unsigned_less[of a, where ?'a = nat]
    by (simp add: push_bit_eq_mult unat_word_ariths unsigned_ucast_eq take_bit_nat_eq_self)
  ultimately show ?thesis
    using unsigned_less[of a, where ?'a = nat] unsigned_less[of b, where ?'a = nat]
    by (simp add: unat_word_ariths unsigned_ucast_eq take_bit_nat_eq_self)
qed

definition addr_byte :: "nat \<Rightarrow> u32 \<Rightarrow> u8" where
  "addr_byte k a = ucast (drop_bit (8 * k) a)"

definition ihex_frame :: "u8 \<Rightarrow> u8 \<Rightarrow> u8 \<Rightarrow> u8 list \<Rightarrow> u8 list" where
  \<comment> \<open>Type, address and data of one record, with its count and checksum.\<close>
  "ihex_frame ty a1 a2 data =
     (let body = [of_nat (length data), a1, a2, ty] @ data in body @ [- wrapping_sum body])"

definition ihex_line :: "u8 list \<Rightarrow> string" where
  "ihex_line frame = CHR '':'' # [] @ hex_text frame"

definition ihex_chunk :: "flash_region \<Rightarrow> string list" where
  \<comment> \<open>A linear-address record and a data record.\<close>
  "ihex_chunk r = (let a = base_addr r in
     [ihex_line (ihex_frame 4 0 0 [addr_byte 3 a, addr_byte 2 a]),
      ihex_line (ihex_frame 0 (addr_byte 1 a) (addr_byte 0 a) (region_data r))])"

definition ihex_lines :: "flash_region list \<Rightarrow> string list" where
  "ihex_lines rs = concat (map ihex_chunk rs) @ [ihex_line (ihex_frame 1 0 0 [])]"

definition unlines :: "string list \<Rightarrow> string" where
  "unlines ls = concat (map (\<lambda>l. l @ [CHR 0x0A]) ls)"

definition ihex_text :: "flash_region list \<Rightarrow> string" where
  \<comment> \<open>An Intel HEX file with the bytes of the regions, in their order.\<close>
  "ihex_text rs = unlines (ihex_lines rs)"

definition srec_frame :: "u32 \<Rightarrow> u8 list \<Rightarrow> u8 list" where
  "srec_frame a data =
     (let body = of_nat (length data + 5) # map (\<lambda>k. addr_byte k a) [3, 2, 1, 0] @ data
      in body @ [0xFF - wrapping_sum body])"

definition srec_line :: "char \<Rightarrow> u8 list \<Rightarrow> string" where
  "srec_line ty frame = CHR ''S'' # [ty] @ hex_text frame"

definition srec_lines :: "flash_region list \<Rightarrow> string list" where
  "srec_lines rs = map (\<lambda>r. srec_line CHR ''3'' (srec_frame (base_addr r) (region_data r))) rs
     @ [srec_line CHR ''7'' (srec_frame 0 [])]"

definition srec_text :: "flash_region list \<Rightarrow> string" where
  "srec_text rs = unlines (srec_lines rs)"

lemma unat_addr_byte: "unat (addr_byte k a) = unat a div 2 ^ (8 * k) mod 256"
proof -
  have "unat (drop_bit (8 * k) a) = unat a div 2 ^ (8 * k)"
    using unsigned_less[of a, where ?'a = nat]
    unfolding unsigned_drop_bit_eq by (simp add: drop_bit_eq_div take_bit_nat_eq_self)
  then show ?thesis
    unfolding addr_byte_def unsigned_ucast_eq by (simp add: take_bit_eq_mod)
qed

lemma plain_colon: "plain_char CHR '':''" and plain_S: "plain_char CHR ''S''"
  by (simp_all add: plain_char_def ascii_ws_def)

lemma length_ihex_frame: "length (ihex_frame ty a1 a2 data) = length data + 5"
  by (simp add: ihex_frame_def Let_def)

lemma length_srec_frame: "length (srec_frame a data) = length data + 6"
  by (simp add: srec_frame_def Let_def)

lemma trim_ihex_line: "trim (ihex_line (ihex_frame ty a1 a2 data)) = ihex_line (ihex_frame ty a1 a2 data)"
  unfolding ihex_line_def
  by (rule trim_record[OF plain_colon]) (metis length_ihex_frame list.size(3) add_is_0 zero_neq_numeral)

lemma trim_srec_line: "trim (srec_line ty (srec_frame a data)) = srec_line ty (srec_frame a data)"
  unfolding srec_line_def
  by (rule trim_record[OF plain_S]) (metis length_srec_frame list.size(3) add_is_0 zero_neq_numeral)

lemma str_lines_ihex: "str_lines (ihex_text rs) = ihex_lines rs"
proof -
  have "str_lines (unlines ls) = ls" if "\<forall>l \<in> set ls. \<exists>f. l = ihex_line f" for ls
    using that
  proof (induction ls)
    case (Cons l ls)
    then show ?case
      using lines_record[OF plain_colon, of "[]"] by (auto simp: unlines_def ihex_line_def)
  qed (simp add: unlines_def)
  moreover have "\<forall>l \<in> set (ihex_lines rs). \<exists>f. l = ihex_line f"
    by (auto simp: ihex_lines_def ihex_chunk_def Let_def)
  ultimately show ?thesis by (simp add: ihex_text_def)
qed

lemma str_lines_srec: "str_lines (srec_text rs) = srec_lines rs"
proof -
  have "str_lines (unlines ls) = ls"
    if "\<forall>l \<in> set ls. \<exists>t f. plain_char t \<and> l = srec_line t f" for ls
    using that
  proof (induction ls)
    case (Cons l ls)
    then obtain t f where "plain_char t" "l = srec_line t f" by auto
    then show ?case
      using Cons lines_record[OF plain_S, of "[t]" f "unlines ls"] by (simp add: unlines_def srec_line_def)
  qed (simp add: unlines_def)
  moreover have "\<forall>l \<in> set (srec_lines rs). \<exists>t f. plain_char t \<and> l = srec_line t f"
  proof -
    have "plain_char CHR ''3''" "plain_char CHR ''7''" by (simp_all add: plain_char_def ascii_ws_def)
    then show ?thesis by (auto simp: srec_lines_def)
  qed
  ultimately show ?thesis by (simp add: srec_text_def)
qed

lemma ihex_bytes_line:
  assumes "length data \<le> 255"
  shows "ihex_bytes (ihex_line (ihex_frame ty a1 a2 data)) = Inr (ihex_frame ty a1 a2 data)"
proof -
  have "unat (ihex_frame ty a1 a2 data ! 0) = length data"
    using assms by (simp add: ihex_frame_def Let_def unat_of_nat)
  moreover have "wrapping_sum (ihex_frame ty a1 a2 data) = 0"
    unfolding ihex_frame_def Let_def wrapping_sum_snoc by simp
  ultimately show ?thesis
    by (simp add: ihex_bytes_def ihex_line_def strip_prefix_def starts_with_def decode_hex_text
        length_ihex_frame Let_def)
qed

lemma srec_bytes_line:
  assumes "length data \<le> 250" and "byte t < 128"
  shows "srec_bytes (srec_line t (srec_frame a data)) = Inr (srec_frame a data)"
proof -
  have "unat (srec_frame a data ! 0) = length data + 5"
    using assms by (simp add: srec_frame_def Let_def unat_of_nat del: of_nat_add of_nat_Suc)
  moreover have "wrapping_sum (srec_frame a data) = 0xFF"
    unfolding srec_frame_def Let_def wrapping_sum_snoc by simp
  moreover have "srec_frame a data \<noteq> []"
    by (metis length_srec_frame list.size(3) add_is_0 zero_neq_numeral)
  moreover have "is_char_boundary 2 (srec_line t (srec_frame a data))"
  proof -
    obtain x xs where x: "hex_text (srec_frame a data) = x # xs"
      using length_hex_text[of "srec_frame a data"] length_srec_frame[of a data]
      by (cases "hex_text (srec_frame a data)") auto
    then have "byte x < 128" using hex_text_chars[of x "srec_frame a data"] by simp
    then show ?thesis using is_char_boundary_ascii[of x "[CHR ''S'', t]" xs]
      by (simp add: srec_line_def x numeral_2_eq_2)
  qed
  moreover have "drop 2 (srec_line t (srec_frame a data)) = hex_text (srec_frame a data)"
    by (simp add: srec_line_def)
  moreover have "length (srec_line t (srec_frame a data)) = 2 * length data + 14"
    by (simp add: srec_line_def length_srec_frame)
  moreover have "starts_with ''S'' (srec_line t (srec_frame a data))"
    by (simp add: srec_line_def starts_with_def)
  ultimately show ?thesis
    by (simp add: srec_bytes_def decode_hex_text length_srec_frame)
qed


lemma of_nat_unat_split4:
  "unat (a :: u32) =
   (unat (addr_byte 3 a) * 256 + unat (addr_byte 2 a)) * 65536 +
   (unat (addr_byte 1 a) * 256 + unat (addr_byte 0 a))"
proof -
  let ?n = "unat a"
  have "?n div 2 ^ 24 < 256" using unsigned_less[of a, where ?'a = nat] by simp
  then have 3: "?n div 2 ^ 24 mod 256 = ?n div 2 ^ 16 div 256" by (simp add: div_mult2_eq[symmetric])
  have 2: "?n div 2 ^ 16 div 256 * 256 + ?n div 2 ^ 16 mod 256 = ?n div 2 ^ 16" by simp
  have 1: "?n mod 65536 div 256 * 256 + ?n mod 256 = ?n mod 65536"
    using div_mult_mod_eq[of "?n mod 65536" 256] mod_mod_cancel[of 256 65536 ?n] by simp
  have 0: "?n div 256 mod 256 = ?n mod 65536 div 256"
    using mod_mult2_eq[of ?n 256 256] by simp
  show ?thesis using 0 1 2 3 by (simp add: unat_addr_byte)
qed

lemma ihex_address:
  "checked_add (push_bit 16 (be16 (addr_byte 3 a) (addr_byte 2 a))) (be16 (addr_byte 1 a) (addr_byte 0 a))
   = Some a"
proof -
  let ?h = "be16 (addr_byte 3 a) (addr_byte 2 a)" and ?l = "be16 (addr_byte 1 a) (addr_byte 0 a)"
  have s: "unat a = unat ?h * 65536 + unat ?l"
    using of_nat_unat_split4[of a] by (simp add: unat_be16 mult.commute)
  then have "unat ?h * 65536 < 2 ^ 32" using unsigned_less[of a, where ?'a = nat] by simp
  then have h: "unat (push_bit 16 ?h) = unat ?h * 65536"
    by (simp add: push_bit_eq_mult unat_word_ariths mult.commute)
  with s unsigned_less[of a, where ?'a = nat]
  have "unat (push_bit 16 ?h) + unat ?l < 2 ^ 32" by simp
  moreover from this h s have "push_bit 16 ?h + ?l = a"
    by (simp add: word_unat_eq_iff unat_word_ariths)
  ultimately show ?thesis by (simp add: checked_add_def)
qed

lemma or_push8: "or (push_bit 8 w) (ucast (b :: u8)) = w * 256 + (ucast b :: u32)"
proof -
  have dis: "and (push_bit 8 w) (ucast b :: u32) = 0"
    by (rule bit_word_eqI) (auto simp: bit_simps dest: bit_imp_le_length)
  have "or (push_bit 8 w) (ucast b) = push_bit 8 w + (ucast b :: u32)"
    using dis by (rule disjunctive_add_eq_or[symmetric])
  then show ?thesis by (simp add: push_bit_eq_mult)
qed

lemma be_addr_bytes: "be_addr (map (\<lambda>k. addr_byte k a) [3, 2, 1, 0]) = a"
proof -
  let ?b = "\<lambda>k. addr_byte k a"
  have u: "(ucast b :: u32) = of_nat (unat b)" for b :: u8 by simp
  have "be_addr (map ?b [3, 2, 1, 0]) =
      of_nat ((((unat (?b 3) * 256 + unat (?b 2)) * 256 + unat (?b 1)) * 256 + unat (?b 0)))"
    by (simp add: be_addr_def or_push8)
  also have "\<dots> = of_nat (unat a)"
    by (subst of_nat_unat_split4) (simp add: algebra_simps)
  finally show ?thesis by simp
qed


lemma data_of_ihex_frame:
  "length data \<le> 255 \<Longrightarrow>
   take (unat (ihex_frame ty a1 a2 data ! 0)) (drop 4 (ihex_frame ty a1 a2 data)) = data"
  by (simp add: ihex_frame_def Let_def unat_of_nat)

lemma nth_ihex_frame:
  "ihex_frame ty a1 a2 data ! Suc 0 = a1" "ihex_frame ty a1 a2 data ! 2 = a2"
  "ihex_frame ty a1 a2 data ! 3 = ty"
  by (simp_all add: ihex_frame_def Let_def)

lemma ihex_record_frame:
  "length data \<le> 255 \<Longrightarrow> ihex_record n (ihex_frame 0 a1 a2 data) s =
     res_bind (ok_or (AddressOverflow (upper_addr s) (unat (be16 a1 a2)))
         (checked_add (upper_addr s) (be16 a1 a2))) (\<lambda>base.
     res_bind (memory_write base data (ihex_memory s)) (\<lambda>m.
     Inr (IhexContinue (s\<lparr>ihex_memory := m\<rparr>))))"
  "ihex_record n (ihex_frame 1 a1 a2 []) s = Inr IhexBreak"
  "ihex_record n (ihex_frame 4 a1 a2 [b1, b2]) s =
     Inr (IhexContinue (s\<lparr>upper_addr := push_bit 16 (be16 b1 b2)\<rparr>))"
proof -
  assume "length data \<le> 255"
  note d = data_of_ihex_frame[OF this, of 0 a1 a2]
  show "ihex_record n (ihex_frame 0 a1 a2 data) s =
     res_bind (ok_or (AddressOverflow (upper_addr s) (unat (be16 a1 a2)))
         (checked_add (upper_addr s) (be16 a1 a2))) (\<lambda>base.
     res_bind (memory_write base data (ihex_memory s)) (\<lambda>m.
     Inr (IhexContinue (s\<lparr>ihex_memory := m\<rparr>))))"
    unfolding ihex_record_def Let_def nth_ihex_frame One_nat_def d by simp
next
  show "ihex_record n (ihex_frame 1 a1 a2 []) s = Inr IhexBreak"
    by (simp add: ihex_record_def Let_def nth_ihex_frame)
next
  have d: "take (unat (ihex_frame 4 a1 a2 [b1, b2] ! 0)) (drop 4 (ihex_frame 4 a1 a2 [b1, b2])) = [b1, b2]"
    by (rule data_of_ihex_frame) simp
  show "ihex_record n (ihex_frame 4 a1 a2 [b1, b2]) s =
     Inr (IhexContinue (s\<lparr>upper_addr := push_bit 16 (be16 b1 b2)\<rparr>))"
    unfolding ihex_record_def Let_def nth_ihex_frame One_nat_def d by simp
qed

lemma ihex_loop_line:
  "length data \<le> 255 \<Longrightarrow> ihex_loop idx (ihex_line (ihex_frame ty a1 a2 data) # rest) s =
     res_bind (map_err Fails (ihex_record (Suc idx) (ihex_frame ty a1 a2 data) s)) (\<lambda>step.
       case step of IhexBreak \<Rightarrow> Inr s | IhexContinue s' \<Rightarrow> ihex_loop (Suc idx) rest s')"
proof -
  assume d: "length data \<le> 255"
  have "ihex_line (ihex_frame ty a1 a2 data) \<noteq> []" by (simp add: ihex_line_def)
  then show ?thesis
    using ihex_bytes_line[OF d, of ty a1 a2] by (simp add: trim_ihex_line at_line_def Let_def)
qed

lemma ihex_loop_chunk:
  assumes "length (region_data r) \<le> 255"
  shows "ihex_loop idx (ihex_chunk r @ rest) s =
    res_bind (map_err Fails (memory_write (base_addr r) (region_data r) (ihex_memory s)))
      (\<lambda>m. ihex_loop (idx + 2) rest
        \<lparr>upper_addr = push_bit 16 (be16 (addr_byte 3 (base_addr r)) (addr_byte 2 (base_addr r))),
         ihex_memory = m\<rparr>)"
  using assms
  by (cases s; cases "memory_write (base_addr r) (region_data r) (ihex_memory s)")
    (simp_all add: ihex_chunk_def Let_def ihex_loop_line ihex_record_frame
      ihex_address[simplified] del: ihex_loop.simps)

lemma ihex_loop_lines:
  assumes "\<forall>r \<in> set rs. length (region_data r) \<le> 255"
  shows "res_bind (ihex_loop idx (ihex_lines rs) s) (\<lambda>s. Inr (ihex_memory s)) =
    map_err Fails (merge_loop rs (ihex_memory s))"
  using assms
proof (induction rs arbitrary: idx s)
  case Nil
  then show ?case
    by (simp add: ihex_lines_def ihex_loop_line ihex_record_frame del: ihex_loop.simps)
next
  case (Cons r rs)
  have "ihex_lines (r # rs) = ihex_chunk r @ ihex_lines rs" by (simp add: ihex_lines_def)
  then show ?case
    using Cons
    by (cases "memory_write (base_addr r) (region_data r) (ihex_memory s)")
      (simp_all add: ihex_loop_chunk)
qed

lemma parse_ihex_text:
  assumes "\<forall>r \<in> set rs. length (region_data r) \<le> 255"
  shows "parse_intel_hex (ihex_text rs) = map_err Fails (merge_regions rs)"
proof -
  let ?s = "\<lparr>upper_addr = 0, ihex_memory = []\<rparr>"
  have "parse_intel_hex (ihex_text rs) =
      res_bind (res_bind (ihex_loop 0 (ihex_lines rs) ?s) (\<lambda>s. Inr (ihex_memory s)))
        (\<lambda>m. Inr (into_regions m))"
    by (cases "ihex_loop 0 (ihex_lines rs) ?s") (simp_all add: parse_intel_hex_def str_lines_ihex)
  also have "\<dots> = map_err Fails (merge_regions rs)"
    unfolding ihex_loop_lines[OF assms]
    by (cases "merge_loop rs []") (simp_all add: merge_regions_def)
  finally show ?thesis .
qed

lemma srec_record_frame:
  "length data \<le> 250 \<Longrightarrow> srec_record n CHR ''3'' (srec_frame a data) m = memory_write a data m"
  "srec_record n CHR ''7'' (srec_frame a []) m = Inr m"
proof -
  have "take 4 (drop 1 (srec_frame a data)) = map (\<lambda>k. addr_byte k a) [3, 2, 1, 0]"
    "drop 5 (srec_frame a data) = data @ [last (srec_frame a data)]"
    by (simp_all add: srec_frame_def Let_def)
  then show "srec_record n CHR ''3'' (srec_frame a data) m = memory_write a data m"
    using be_addr_bytes[of a]
    by (simp add: srec_record_def srec_addr_len_def length_srec_frame)
  show "srec_record n CHR ''7'' (srec_frame a []) m = Inr m"
    by (simp add: srec_record_def srec_addr_len_def length_srec_frame)
qed

lemma srec_loop_line:
  assumes "length data \<le> 250" and "byte t < 128"
  shows "srec_loop idx (srec_line t (srec_frame a data) # rest) m =
    res_bind (map_err Fails (srec_record (idx + 1) t (srec_frame a data) m)) (srec_loop (idx + 1) rest)"
proof -
  have "srec_line t (srec_frame a data) \<noteq> []" "srec_line t (srec_frame a data) ! 1 = t"
    by (simp_all add: srec_line_def)
  then show ?thesis
    using srec_bytes_line[OF assms, of a] by (simp add: trim_srec_line at_line_def Let_def)
qed

lemma srec_loop_lines:
  assumes "\<forall>r \<in> set rs. length (region_data r) \<le> 250"
  shows "srec_loop idx (srec_lines rs) m = map_err Fails (merge_loop rs m)"
  using assms
proof (induction rs arbitrary: idx m)
  case Nil
  then show ?case
    by (simp add: srec_lines_def srec_loop_line srec_record_frame del: srec_loop.simps(2))
next
  case (Cons r rs)
  have "srec_lines (r # rs) =
      srec_line CHR ''3'' (srec_frame (base_addr r) (region_data r)) # srec_lines rs"
    by (simp add: srec_lines_def)
  then show ?case
    using Cons
    by (cases "memory_write (base_addr r) (region_data r) m")
      (simp_all add: srec_loop_line srec_record_frame del: srec_loop.simps(2))
qed

lemma parse_srec_text:
  assumes "\<forall>r \<in> set rs. length (region_data r) \<le> 250"
  shows "parse_srec (srec_text rs) = map_err Fails (merge_regions rs)"
  unfolding parse_srec_def str_lines_srec srec_loop_lines[OF assms] merge_regions_def
  by (cases "merge_loop rs []") simp_all

section \<open>When a reader panics\<close>

lemma set_trim_start: "set (trim_start s) \<subseteq> set s"
proof (induction s rule: trim_start.induct)
  case (1 s)
  then show ?case
    by (subst trim_start.simps) (auto dest!: in_set_dropD)
qed

lemma set_trim_end: "set (trim_end s) \<subseteq> set s"
proof (induction s rule: trim_end.induct)
  case (1 s)
  then show ?case
    by (subst trim_end.simps) (auto dest!: in_set_takeD)
qed

lemma set_trim: "set (trim s) \<subseteq> set s"
  using set_trim_start[of s] set_trim_end[of "trim_start s"] by (auto simp: trim_def)

lemma set_str_lines: "l \<in> set (str_lines s) \<Longrightarrow> set l \<subseteq> set s"
proof -
  assume "l \<in> set (str_lines s)"
  then obtain p where p: "p \<in> set (split_inclusive (CHR 0x0A) s)" and "set l \<subseteq> set p"
    by (fastforce simp: str_lines_def strip_suffix_Some split: option.splits)
  moreover have "set p \<subseteq> set s"
    using p concat_split_inclusive[of "CHR 0x0A" s] by (metis UN_upper set_concat)
  ultimately show ?thesis by blast
qed

definition ascii :: "string \<Rightarrow> bool" where
  "ascii s = (\<forall>c \<in> set s. byte c < 128)"

lemma ascii_boundary: "ascii s \<Longrightarrow> i \<le> length s \<Longrightarrow> is_char_boundary i s"
  using nth_mem[of i s] by (fastforce simp: ascii_def is_char_boundary_def)

lemma decode_hex_loop_no_panic:
  "ascii raw \<Longrightarrow> even (length raw) \<Longrightarrow> even idx \<Longrightarrow> decode_hex_loop raw idx \<noteq> Inl Panics"
proof (induction raw idx rule: decode_hex_loop.induct)
  case (1 raw idx)
  show ?case
  proof (cases "length raw \<le> idx")
    case True
    then show ?thesis by (subst decode_hex_loop.simps) simp
  next
    case False
    have "idx + 2 \<le> length raw" using False "1.prems" by presburger
    then have sl: "is_slice idx (idx + 2) raw"
      using "1.prems" by (simp add: is_slice_def ascii_boundary)
    then show ?thesis
      using False "1.IH"[OF False _ refl] "1.prems"
      by (subst decode_hex_loop.simps) (auto simp: res_bind_Inl ok_or_Inl Let_def)
  qed
qed

lemma decode_hex_no_panic: "ascii raw \<Longrightarrow> decode_hex_bytes raw \<noteq> Inl Panics"
  by (simp add: decode_hex_bytes_def decode_hex_loop_no_panic)

lemma ihex_bytes_no_panic: "ascii line \<Longrightarrow> ihex_bytes line \<noteq> Inl Panics"
proof -
  assume a: "ascii line"
  have "ascii payload" if "strip_prefix '':'' line = Some payload" for payload
    using a that by (auto simp: strip_prefix_Some ascii_def)
  then show ?thesis
    using decode_hex_no_panic
    by (auto simp: ihex_bytes_def res_bind_Inl ok_or_Inl ok_or_Inr Let_def split: if_splits)
qed

lemma srec_bytes_no_panic: "ascii line \<Longrightarrow> srec_bytes line \<noteq> Inl Panics"
proof -
  assume a: "ascii line"
  then have d: "ascii (drop 2 line)" by (auto simp: ascii_def dest: in_set_dropD)
  have "4 \<le> length line \<Longrightarrow> is_char_boundary 2 line" using a by (simp add: ascii_boundary)
  then show ?thesis
    using decode_hex_no_panic[OF d]
    by (auto simp: srec_bytes_def res_bind_Inl Let_def not_less split: if_splits)
qed

lemma at_line_panics: "at_line f r = Inl Panics \<longleftrightarrow> r = Inl Panics"
  by (cases r) (auto simp: at_line_def split: failure.splits)

lemma ihex_loop_no_panic: "\<forall>l \<in> set ls. ascii l \<Longrightarrow> ihex_loop idx ls s \<noteq> Inl Panics"
proof (induction ls arbitrary: idx s)
  case (Cons l ls)
  have "ascii (trim l)" using Cons.prems set_trim[of l] by (auto simp: ascii_def)
  then show ?case
    using Cons ihex_bytes_no_panic[of "trim l"]
    by (auto simp: Let_def res_bind_Inl at_line_panics map_err_Inl split: ihex_step.splits)
qed simp

lemma srec_loop_no_panic: "\<forall>l \<in> set ls. ascii l \<Longrightarrow> srec_loop idx ls m \<noteq> Inl Panics"
proof (induction ls arbitrary: idx m)
  case (Cons l ls)
  have "ascii (trim l)" using Cons.prems set_trim[of l] by (auto simp: ascii_def)
  then show ?case
    using Cons srec_bytes_no_panic[of "trim l"]
    by (auto simp: Let_def res_bind_Inl at_line_panics map_err_Inl)
qed simp

lemma ascii_lines: "ascii s \<Longrightarrow> \<forall>l \<in> set (str_lines s). ascii l"
  using set_str_lines by (fastforce simp: ascii_def)

lemma parsers_no_panic:
  assumes "ascii content"
  shows "parse_intel_hex content \<noteq> Inl Panics" and "parse_srec content \<noteq> Inl Panics"
  using assms ihex_loop_no_panic[OF ascii_lines] srec_loop_no_panic[OF ascii_lines]
  by (auto simp: parse_intel_hex_def parse_srec_def res_bind_Inl)

section \<open>Properties\<close>

text \<open>
  C5: merging regions succeeds exactly when every region fits the 32-bit address space; the result
  is sorted, made of non-empty regions with a gap between any two, holds at every address the byte
  of the last region that writes it and nothing elsewhere, and merging it again changes nothing.
\<close>

theorem merge_regions_correct:
  "(case merge_regions rs of
      Inl e \<Rightarrow> \<exists>r \<in> set rs. region_data r \<noteq> [] \<and> 2 ^ 32 < region_end r \<and>
        e = AddressOverflow (base_addr r) (length (region_data r))
    | Inr out \<Rightarrow> canonical out \<and> map_of (regions_bytes out) = map_of (rev (regions_bytes rs)) \<and>
        merge_regions out = Inr out \<and> list_all in_range rs)"
proof (cases "merge_regions rs")
  case (Inl e)
  have "\<exists>r \<in> set rs. region_data r \<noteq> [] \<and> 2 ^ 32 < region_end r \<and>
      e = AddressOverflow (base_addr r) (length (region_data r))"
    if "merge_loop rs m = Inl e" for m
    using that
    by (induction rs arbitrary: m)
      (auto simp: res_bind_Inl memory_write_def ensure_address_range_err region_end_def)
  then show ?thesis using Inl by (auto simp: merge_regions_def res_bind_Inl)
next
  case (Inr out)
  then show ?thesis
    using merge_spec[OF Inr] merge_canonical[of out] merge_regions_ok[of rs out]
    by (simp add: list_all_iff)
qed

theorem merge_regions_correct_witness:
  "canonical [\<lparr>base_addr = 0x1000, region_data = [1, 9, 3]\<rparr>]"
proof -
  have "merge_regions [\<lparr>base_addr = 0x1000, region_data = [1, 2, 3]\<rparr>,
      \<lparr>base_addr = 0x1001, region_data = [9]\<rparr>] = Inr [\<lparr>base_addr = 0x1000, region_data = [1, 9, 3]\<rparr>]"
    by code_simp
  then show ?thesis
    using merge_regions_correct[of "[\<lparr>base_addr = 0x1000, region_data = [1, 2, 3]\<rparr>,
      \<lparr>base_addr = 0x1001, region_data = [9]\<rparr>]"] by simp
qed

text \<open>
  C9: reading an Intel HEX file that lists chunks of at most 255 bytes, each behind a
  linear-address record, gives what merging those chunks as regions gives, its overflow error
  included.
\<close>

theorem intel_hex_roundtrip:
  assumes "\<forall>r \<in> set rs. length (region_data r) \<le> 255"
  shows "parse_intel_hex (ihex_text rs) = map_err Fails (merge_regions rs)"
  using assms by (rule parse_ihex_text)

theorem intel_hex_roundtrip_witness:
  "parse_intel_hex (ihex_text [\<lparr>base_addr = 0x8000000, region_data = [1, 2]\<rparr>]) =
   Inr [\<lparr>base_addr = 0x8000000, region_data = [1, 2]\<rparr>]"
proof -
  have "merge_regions [\<lparr>base_addr = 0x8000000, region_data = [1, 2]\<rparr>] =
      Inr [\<lparr>base_addr = 0x8000000, region_data = [1, 2]\<rparr>]" by code_simp
  then show ?thesis
    using intel_hex_roundtrip[of "[\<lparr>base_addr = 0x8000000, region_data = [1, 2]\<rparr>]"] by simp
qed

text \<open>
  The same for a file of \<open>S3\<close> records with at most 250 data bytes each.
\<close>

theorem srec_roundtrip:
  assumes "\<forall>r \<in> set rs. length (region_data r) \<le> 250"
  shows "parse_srec (srec_text rs) = map_err Fails (merge_regions rs)"
  using assms by (rule parse_srec_text)

theorem srec_roundtrip_witness:
  "parse_srec (srec_text [\<lparr>base_addr = 0x1234, region_data = [1, 2]\<rparr>]) =
   Inr [\<lparr>base_addr = 0x1234, region_data = [1, 2]\<rparr>]"
proof -
  have "merge_regions [\<lparr>base_addr = 0x1234, region_data = [1, 2]\<rparr>] =
      Inr [\<lparr>base_addr = 0x1234, region_data = [1, 2]\<rparr>]" by code_simp
  then show ?thesis
    using srec_roundtrip[of "[\<lparr>base_addr = 0x1234, region_data = [1, 2]\<rparr>]"] by simp
qed

text \<open>
  On ASCII content neither reader panics; on other content both can, since they slice the
  hexadecimal digits at byte positions.
\<close>

theorem flash_readers_panic:
  "(ascii content \<longrightarrow> parse_intel_hex content \<noteq> Inl Panics \<and> parse_srec content \<noteq> Inl Panics) \<and>
   parse_intel_hex ('':0'' @ [CHR 0xC3, CHR 0xA9] @ ''0000000'') = Inl Panics \<and>
   parse_srec (''S'' @ [CHR 0xC3, CHR 0xA9] @ ''00'') = Inl Panics"
proof -
  have "parse_intel_hex ('':0'' @ [CHR 0xC3, CHR 0xA9] @ ''0000000'') = Inl Panics"
    "parse_srec (''S'' @ [CHR 0xC3, CHR 0xA9] @ ''00'') = Inl Panics"
    by code_simp+
  then show ?thesis using parsers_no_panic by blast
qed

theorem flash_readers_panic_witness: "parse_srec '':00000001FF'' \<noteq> Inl Panics"
  using flash_readers_panic[of "'':00000001FF''"] by (simp add: ascii_def)

end
