(* ===== verification/Float64.thy ===== *)
theory Float64
  imports Rust_Strings
begin

text \<open>
  IEEE-754 floating point as the code uses it: \<open>f64\<close> and \<open>f32\<close> values over exact rationals, every
  operation rounding its exact result to nearest, ties to even, with gradual underflow, signed
  zero, infinities and NaN. The casts \<open>as u64\<close>, \<open>as i64\<close>, \<open>as f32\<close> saturate or round as Rust's do,
  \<open>parse\<close> is the decimal grammar of \<open>str::parse::<f64>\<close> and rounds once. The bit patterns are
  decoded and encoded for the values that cross the C ABI.
\<close>

section \<open>Values and rounding\<close>

datatype f64 = NaN | PInf | NInf | NZero | Fin rat
  \<comment> \<open>\<open>Fin 0\<close> is positive zero, \<open>NZero\<close> negative zero.\<close>

definition is_finite :: "f64 \<Rightarrow> bool" where
  "is_finite x = (case x of NZero \<Rightarrow> True | Fin _ \<Rightarrow> True | _ \<Rightarrow> False)"

definition is_inf :: "f64 \<Rightarrow> bool" where
  "is_inf x = (x = PInf \<or> x = NInf)"

definition fval :: "f64 \<Rightarrow> rat" where
  "fval x = (case x of Fin q \<Rightarrow> q | _ \<Rightarrow> 0)"

definition fneg :: "f64 \<Rightarrow> bool" where
  \<comment> \<open>the sign bit of a number\<close>
  "fneg x = (case x of NInf \<Rightarrow> True | NZero \<Rightarrow> True | Fin q \<Rightarrow> q < 0 | _ \<Rightarrow> False)"

definition is_zero :: "f64 \<Rightarrow> bool" where
  "is_zero x = (x = NZero \<or> x = Fin 0)"

definition fzero :: "bool \<Rightarrow> f64" where
  "fzero s = (if s then NZero else Fin 0)"

definition finf :: "bool \<Rightarrow> f64" where
  "finf s = (if s then NInf else PInf)"

definition pow2 :: "int \<Rightarrow> rat" where
  "pow2 e = (if 0 \<le> e then 2 ^ nat e else 1 / 2 ^ nat (- e))"

fun ilog2 :: "nat \<Rightarrow> nat" where
  "ilog2 n = (if n < 2 then 0 else Suc (ilog2 (n div 2)))"

declare ilog2.simps [simp del]

definition flog2 :: "rat \<Rightarrow> int" where
  \<comment> \<open>The largest \<open>k\<close> with \<open>2\<^sup>k \<le> q\<close>, for \<open>0 < q\<close>.\<close>
  "flog2 q =
     (if 1 \<le> q then int (ilog2 (nat \<lfloor>q\<rfloor>))
      else (let n = nat \<lceil>1 / q\<rceil> in - int (if n \<le> 1 then 0 else Suc (ilog2 (n - 1)))))"

definition round_even :: "rat \<Rightarrow> int" where
  "round_even x =
     (let f = \<lfloor>x\<rfloor>; d = x - of_int f
      in if d < 1 / 2 then f else if 1 / 2 < d then f + 1 else if even f then f else f + 1)"

definition rnd_fmt :: "int \<Rightarrow> int \<Rightarrow> int \<Rightarrow> bool \<Rightarrow> rat \<Rightarrow> f64" where
  \<comment> \<open>Round to \<open>p\<close> bits, least exponent \<open>emin\<close>, overflow at \<open>2\<^bsup>emax\<^esup>\<close>; \<open>s\<close> is the sign of an exact zero.\<close>
  "rnd_fmt p emin emax s q =
     (if q = 0 then fzero s
      else
        let a = \<bar>q\<bar>;
            e = max (flog2 a - (p - 1)) emin;
            m = of_int (round_even (a / pow2 e)) * pow2 e
        in if m = 0 then fzero (q < 0)
           else if pow2 emax \<le> m then finf (q < 0)
           else Fin (if q < 0 then - m else m))"

definition rnd64 :: "bool \<Rightarrow> rat \<Rightarrow> f64" where
  "rnd64 = rnd_fmt 53 (- 1074) 1024"

definition rnd32 :: "bool \<Rightarrow> rat \<Rightarrow> f64" where
  "rnd32 = rnd_fmt 24 (- 149) 128"

section \<open>Arithmetic\<close>

definition fadd :: "f64 \<Rightarrow> f64 \<Rightarrow> f64" where
  "fadd x y =
     (if x = NaN \<or> y = NaN then NaN
      else if is_inf x then (if is_inf y \<and> x \<noteq> y then NaN else x)
      else if is_inf y then y
      else if is_zero x \<and> is_zero y then fzero (fneg x \<and> fneg y)
      else rnd64 False (fval x + fval y))"

definition fminus :: "f64 \<Rightarrow> f64" where
  "fminus x = (case x of NaN \<Rightarrow> NaN | PInf \<Rightarrow> NInf | NInf \<Rightarrow> PInf | NZero \<Rightarrow> Fin 0
                | Fin q \<Rightarrow> if q = 0 then NZero else Fin (- q))"

definition fsub :: "f64 \<Rightarrow> f64 \<Rightarrow> f64" where
  "fsub x y = fadd x (fminus y)"

definition fmul :: "f64 \<Rightarrow> f64 \<Rightarrow> f64" where
  "fmul x y =
     (if x = NaN \<or> y = NaN then NaN
      else let s = (fneg x \<noteq> fneg y) in
        if is_inf x \<or> is_inf y then (if is_zero x \<or> is_zero y then NaN else finf s)
        else rnd64 s (fval x * fval y))"

definition fdiv :: "f64 \<Rightarrow> f64 \<Rightarrow> f64" where
  "fdiv x y =
     (if x = NaN \<or> y = NaN then NaN
      else let s = (fneg x \<noteq> fneg y) in
        if is_inf x then (if is_inf y then NaN else finf s)
        else if is_inf y then fzero s
        else if is_zero y then (if is_zero x then NaN else finf s)
        else rnd64 s (fval x / fval y))"

definition flt :: "f64 \<Rightarrow> f64 \<Rightarrow> bool" where
  "flt x y =
     (x \<noteq> NaN \<and> y \<noteq> NaN \<and>
      (if x = NInf then y \<noteq> NInf else if y = PInf then x \<noteq> PInf
       else if x = PInf \<or> y = NInf then False else fval x < fval y))"

definition feq :: "f64 \<Rightarrow> f64 \<Rightarrow> bool" where
  "feq x y =
     (x \<noteq> NaN \<and> y \<noteq> NaN \<and> (if is_inf x \<or> is_inf y then x = y else fval x = fval y))"

definition fle :: "f64 \<Rightarrow> f64 \<Rightarrow> bool" where
  "fle x y = (flt x y \<or> feq x y)"

definition fabs :: "f64 \<Rightarrow> f64" where
  "fabs x = (if fneg x then fminus x else x)"

definition fmax :: "f64 \<Rightarrow> f64 \<Rightarrow> f64" where
  \<comment> \<open>\<open>f64::max\<close>: a NaN argument is ignored.\<close>
  "fmax x y = (if x = NaN then y else if y = NaN then x else if flt x y then y else x)"

definition fclamp :: "f64 \<Rightarrow> f64 \<Rightarrow> f64 \<Rightarrow> f64" where
  \<comment> \<open>\<open>x.clamp(lo, hi)\<close>: NaN stays NaN.\<close>
  "fclamp lo hi x = (if flt x lo then lo else if flt hi x then hi else x)"

definition ffloor :: "f64 \<Rightarrow> f64" where
  "ffloor x = (case x of Fin q \<Rightarrow> Fin (of_int \<lfloor>q\<rfloor>) | _ \<Rightarrow> x)"

definition fceil :: "f64 \<Rightarrow> f64" where
  "fceil x = (case x of Fin q \<Rightarrow> if q < 0 \<and> \<lceil>q\<rceil> = 0 then NZero else Fin (of_int \<lceil>q\<rceil>) | _ \<Rightarrow> x)"

definition fround :: "f64 \<Rightarrow> f64" where
  \<comment> \<open>\<open>f64::round\<close>: half away from zero.\<close>
  "fround x = (case x of
      Fin q \<Rightarrow> let r = \<lfloor>\<bar>q\<bar> + 1 / 2\<rfloor> in
                if q < 0 then (if r = 0 then NZero else Fin (- of_int r)) else Fin (of_int r)
    | _ \<Rightarrow> x)"

section \<open>Conversions\<close>

definition f_of_int :: "int \<Rightarrow> f64" where
  \<comment> \<open>\<open>n as f64\<close>\<close>
  "f_of_int n = rnd64 False (of_int n)"

definition f_as_u64 :: "f64 \<Rightarrow> u64" where
  "f_as_u64 x = (case x of
      Fin q \<Rightarrow> if q \<le> 0 then 0 else if 2 ^ 64 \<le> \<lfloor>q\<rfloor> then - 1 else of_int \<lfloor>q\<rfloor>
    | PInf \<Rightarrow> - 1
    | _ \<Rightarrow> 0)"

definition trunc_rat :: "rat \<Rightarrow> int" where
  "trunc_rat q = (if q < 0 then \<lceil>q\<rceil> else \<lfloor>q\<rfloor>)"

definition f_as_i64 :: "f64 \<Rightarrow> int" where
  \<comment> \<open>\<open>x as i64\<close>, as a mathematical integer.\<close>
  "f_as_i64 x = (case x of
      Fin q \<Rightarrow> max (- (2 ^ 63)) (min (2 ^ 63 - 1) (trunc_rat q))
    | PInf \<Rightarrow> 2 ^ 63 - 1
    | NInf \<Rightarrow> - (2 ^ 63)
    | _ \<Rightarrow> 0)"

definition f_as_f32 :: "f64 \<Rightarrow> f64" where
  \<comment> \<open>\<open>x as f32\<close>: a value of the narrower format.\<close>
  "f_as_f32 x = (case x of Fin q \<Rightarrow> rnd32 False q | _ \<Rightarrow> x)"

section \<open>Bit patterns\<close>

definition float_of_fields :: "int \<Rightarrow> int \<Rightarrow> bool \<Rightarrow> nat \<Rightarrow> nat \<Rightarrow> f64" where
  \<comment> \<open>Stored precision \<open>p - 1\<close> bits, least exponent \<open>emin\<close>, the biased exponent and the fraction.\<close>
  "float_of_fields p emin s be fr =
     (let q = (if be = 0 then of_nat fr * pow2 emin
               else (of_nat fr + pow2 (p - 1)) * pow2 (emin + int be - 1))
      in if q = 0 then fzero s else Fin (if s then - q else q))"

definition f64_of_bits :: "u64 \<Rightarrow> f64" where
  "f64_of_bits w =
     (let n = unat w; s = 2 ^ 63 \<le> n; be = n div 2 ^ 52 mod 2 ^ 11; fr = n mod 2 ^ 52
      in if be = 2047 then (if fr = 0 then finf s else NaN)
         else float_of_fields 53 (- 1074) s be fr)"

definition f32_of_bits :: "u32 \<Rightarrow> f64" where
  "f32_of_bits w =
     (let n = unat w; s = 2 ^ 31 \<le> n; be = n div 2 ^ 23 mod 2 ^ 8; fr = n mod 2 ^ 23
      in if be = 255 then (if fr = 0 then finf s else NaN)
         else float_of_fields 24 (- 149) s be fr)"

definition float_fields :: "int \<Rightarrow> int \<Rightarrow> rat \<Rightarrow> nat \<times> nat" where
  \<comment> \<open>Biased exponent and fraction of a representable \<open>0 < a\<close>.\<close>
  "float_fields p emin a =
     (let e = max (flog2 a - (p - 1)) emin; m = nat \<lfloor>a / pow2 e\<rfloor>; h = 2 ^ nat (p - 1)
      in if m < h then (0, m) else (nat (e - emin + 1), m - h))"

definition bits_of_f64 :: "f64 \<Rightarrow> u64" where
  "bits_of_f64 x = (case x of
      NaN \<Rightarrow> 0x7FF8000000000000
    | PInf \<Rightarrow> 0x7FF0000000000000
    | NInf \<Rightarrow> 0xFFF0000000000000
    | NZero \<Rightarrow> 0x8000000000000000
    | Fin q \<Rightarrow> if q = 0 then 0
        else let (be, fr) = float_fields 53 (- 1074) \<bar>q\<bar>
             in of_nat ((if q < 0 then 2 ^ 63 else 0) + be * 2 ^ 52 + fr))"

definition bits_of_f32 :: "f64 \<Rightarrow> u32" where
  "bits_of_f32 x = (case x of
      NaN \<Rightarrow> 0x7FC00000
    | PInf \<Rightarrow> 0x7F800000
    | NInf \<Rightarrow> 0xFF800000
    | NZero \<Rightarrow> 0x80000000
    | Fin q \<Rightarrow> if q = 0 then 0
        else let (be, fr) = float_fields 24 (- 149) \<bar>q\<bar>
             in of_nat ((if q < 0 then 2 ^ 31 else 0) + be * 2 ^ 23 + fr))"

section \<open>Decimal text\<close>

definition nat_of_digits :: "string \<Rightarrow> nat" where
  "nat_of_digits ds = foldl (\<lambda>a c. a * 10 + (byte c - 48)) 0 ds"

definition pow10 :: "int \<Rightarrow> rat" where
  "pow10 e = (if 0 \<le> e then 10 ^ nat e else 1 / 10 ^ nat (- e))"

definition parse_exponent :: "string \<Rightarrow> int option" where
  "parse_exponent t =
     (let (neg, u) = (case t of
            [] \<Rightarrow> (False, [])
          | c # cs \<Rightarrow> if c = CHR ''-'' then (True, cs) else if c = CHR ''+'' then (False, cs)
                      else (False, t))
      in if u \<noteq> [] \<and> list_all is_ascii_digit u
         then Some (if neg then - int (nat_of_digits u) else int (nat_of_digits u)) else None)"

definition parse_decimal :: "string \<Rightarrow> rat option" where
  \<comment> \<open>\<open>digits [. digits] [(e|E) [sign] digits]\<close>, at least one digit before the exponent.\<close>
  "parse_decimal s =
     (let ip = takeWhile is_ascii_digit s; r = dropWhile is_ascii_digit s;
          (fp, r2) = (case r of
              [] \<Rightarrow> ([], [])
            | c # cs \<Rightarrow> if c = CHR ''.'' then (takeWhile is_ascii_digit cs, dropWhile is_ascii_digit cs)
                        else ([], r));
          mant = of_nat (nat_of_digits (ip @ fp)) * pow10 (- int (length fp))
      in if ip = [] \<and> fp = [] then None
         else case r2 of
            [] \<Rightarrow> Some mant
          | c # cs \<Rightarrow>
              if c = CHR ''e'' \<or> c = CHR ''E''
              then map_option (\<lambda>e. mant * pow10 e) (parse_exponent cs)
              else None)"

definition parse_float :: "(bool \<Rightarrow> rat \<Rightarrow> f64) \<Rightarrow> string \<Rightarrow> f64 option" where
  "parse_float rnd s =
     (let (neg, t) = (case s of
            [] \<Rightarrow> (False, [])
          | c # cs \<Rightarrow> if c = CHR ''-'' then (True, cs) else if c = CHR ''+'' then (False, cs)
                      else (False, s))
      in if t = [] then None
         else case parse_decimal t of
            Some q \<Rightarrow> Some (rnd neg (if neg then - q else q))
          | None \<Rightarrow>
              (let l = to_ascii_lower t
               in if l = ''inf'' \<or> l = ''infinity'' then Some (finf neg)
                  else if l = ''nan'' then Some NaN else None))"

definition parse_f64 :: "string \<Rightarrow> f64 option" where
  "parse_f64 = parse_float rnd64"

definition parse_f32 :: "string \<Rightarrow> f64 option" where
  "parse_f32 = parse_float rnd32"

section \<open>Facts about rounding\<close>

named_theorems fl \<open>exact floating-point evaluations and signs\<close>

lemma pow2_pos [simp]: "0 < pow2 e"
  by (simp add: pow2_def)

lemma pow2_nonzero [simp]: "pow2 e \<noteq> 0"
  using pow2_pos[of e] by linarith

lemma pow2_0 [simp]: "pow2 0 = 1"
  by (simp add: pow2_def)

lemma pow2_of_nat: "pow2 (int n) = 2 ^ n"
  by (simp add: pow2_def)

lemma pow2_powi: "pow2 e = 2 powi e"
  by (simp add: pow2_def power_int_def inverse_eq_divide power_one_over)

lemma pow2_add: "pow2 (a + b) = pow2 a * pow2 b"
  by (simp add: pow2_powi power_int_add)

lemma pow2_diff: "pow2 (a - b) = pow2 a / pow2 b"
  by (simp add: pow2_powi power_int_diff)

lemma abs_pow2 [simp]: "\<bar>pow2 k\<bar> = pow2 k"
  by (rule abs_of_pos) (rule pow2_pos)

lemma pow2_mono: "a \<le> b \<Longrightarrow> pow2 a \<le> pow2 b"
  by (simp add: pow2_powi power_int_increasing)

lemma pow2_strict_mono: "a < b \<Longrightarrow> pow2 a < pow2 b"
  by (simp add: pow2_powi power_int_strict_increasing)

lemma pow2_less_iff: "pow2 a < pow2 b \<longleftrightarrow> a < b"
  using pow2_mono[of b a] pow2_strict_mono[of a b] by linarith

lemma ilog2_spec: "0 < n \<Longrightarrow> 2 ^ ilog2 n \<le> n \<and> n < 2 ^ Suc (ilog2 n)"
proof (induction n rule: ilog2.induct)
  case (1 n)
  show ?case
  proof (cases "n < 2")
    case True
    with 1(2) have "n = 1" by simp
    then show ?thesis by (simp add: ilog2.simps)
  next
    case False
    with 1 have "2 ^ ilog2 (n div 2) \<le> n div 2 \<and> n div 2 < 2 ^ Suc (ilog2 (n div 2))"
      by simp
    then have "2 * 2 ^ ilog2 (n div 2) \<le> n" and "n < 2 * 2 ^ Suc (ilog2 (n div 2))"
      by linarith+
    with False show ?thesis by (simp add: ilog2.simps[of n])
  qed
qed

lemma flog2_spec_ge1:
  assumes "1 \<le> q"
  shows "pow2 (flog2 q) \<le> q \<and> q < pow2 (flog2 q + 1)"
proof -
  let ?n = "nat \<lfloor>q\<rfloor>"
  have f: "1 \<le> \<lfloor>q\<rfloor>" using assms by simp
  then have n: "0 < ?n" by simp
  have q1: "of_nat ?n \<le> q" and q2: "q < of_nat (Suc ?n)"
    using f by (simp_all, linarith)
  have "(2::rat) ^ ilog2 ?n \<le> of_nat ?n"
    using ilog2_spec[OF n] by (metis of_nat_le_iff of_nat_numeral of_nat_power)
  moreover have "of_nat (Suc ?n) \<le> (2::rat) ^ Suc (ilog2 ?n)"
  proof -
    have "Suc ?n \<le> 2 ^ Suc (ilog2 ?n)" using ilog2_spec[OF n] by simp
    then show ?thesis by (metis of_nat_le_iff of_nat_numeral of_nat_power)
  qed
  moreover have "flog2 q = int (ilog2 ?n)" using assms by (simp add: flog2_def)
  moreover have "pow2 (int k + 1) = 2 ^ Suc k" for k
    using pow2_of_nat[of "Suc k"] by (simp add: add.commute)
  moreover have "pow2 (int k) = 2 ^ k" for k by (rule pow2_of_nat)
  ultimately have "pow2 (flog2 q) \<le> of_nat ?n" "of_nat (Suc ?n) \<le> pow2 (flog2 q + 1)"
    by metis+
  with q1 q2 show ?thesis by linarith
qed

lemma flog2_spec_lt1:
  assumes "0 < q" and "q < 1"
  shows "pow2 (flog2 q) \<le> q \<and> q < pow2 (flog2 q + 1)"
proof -
  let ?n = "nat \<lceil>1 / q\<rceil>"
  have i: "1 < 1 / q" using assms by simp
  then have "1 < \<lceil>1 / q\<rceil>" by linarith
  then have n: "1 < ?n" by simp
  define k where "k = Suc (ilog2 (?n - 1))"
  have "\<not> q \<ge> 1" "\<not> ?n \<le> 1" using assms(2) n by linarith+
  then have fl: "flog2 q = - int k" unfolding flog2_def Let_def k_def by simp
  have b: "2 ^ ilog2 (?n - 1) \<le> ?n - 1" "?n - 1 < 2 ^ k"
    using ilog2_spec[of "?n - 1"] n by (simp_all add: k_def)
  have up: "1 / q \<le> of_nat ?n" by (rule of_nat_ceiling)
  have low: "of_nat (?n - 1) < 1 / q"
  proof -
    have "of_nat (?n - 1) = (of_int (\<lceil>1 / q\<rceil> - 1) :: rat)"
    proof -
      have "int (?n - 1) = \<lceil>1 / q\<rceil> - 1" using n by linarith
      then show ?thesis by (metis of_int_of_nat_eq)
    qed
    also have "\<dots> < 1 / q" by linarith
    finally show ?thesis .
  qed
  have "?n \<le> 2 ^ k" using b(2) n by linarith
  then have "of_nat ?n \<le> (2::rat) ^ k" by (metis of_nat_le_iff of_nat_numeral of_nat_power)
  with up have "1 / q \<le> 2 ^ k" by linarith
  then have 1: "1 / 2 ^ k \<le> q" using assms by (simp add: field_simps)
  have "(2::rat) ^ ilog2 (?n - 1) \<le> of_nat (?n - 1)"
    using b(1) by (metis of_nat_le_iff of_nat_numeral of_nat_power)
  with low have "2 ^ ilog2 (?n - 1) < 1 / q" by linarith
  then have 2: "q < 1 / 2 ^ ilog2 (?n - 1)" using assms by (simp add: field_simps)
  have "pow2 (- int k) = 1 / 2 ^ k" by (simp add: pow2_def)
  moreover have "pow2 (- int k + 1) = 1 / 2 ^ ilog2 (?n - 1)"
    by (simp add: pow2_def k_def)
  ultimately show ?thesis using 1 2 fl by simp
qed

lemma flog2_spec: "0 < q \<Longrightarrow> pow2 (flog2 q) \<le> q \<and> q < pow2 (flog2 q + 1)"
  using flog2_spec_ge1 flog2_spec_lt1 by fastforce

lemma flog2_less: "0 < q \<Longrightarrow> q < pow2 k \<Longrightarrow> flog2 q < k"
  using flog2_spec[of q] pow2_less_iff[of "flog2 q" k] by auto

lemma round_even_of_int [simp]: "round_even (of_int n) = n"
  by (simp add: round_even_def)

lemma round_even_nonneg: "0 \<le> x \<Longrightarrow> 0 \<le> round_even x"
proof -
  assume "0 \<le> x"
  then have "0 \<le> \<lfloor>x\<rfloor>" by simp
  then show ?thesis by (simp add: round_even_def Let_def)
qed

lemma round_even_error: "\<bar>of_int (round_even x) - x\<bar> \<le> 1 / 2"
proof -
  have "of_int \<lfloor>x\<rfloor> \<le> x" "x < of_int \<lfloor>x\<rfloor> + 1" by linarith+
  then show ?thesis by (auto simp: round_even_def Let_def abs_le_iff)
qed

text \<open>A dyadic rational that fits the format is rounded to itself.\<close>

lemma rnd_fmt_exact:
  assumes q: "q = of_int n * pow2 k" and n: "n \<noteq> 0" "\<bar>of_int n\<bar> < pow2 p"
    and k: "emin \<le> k" and big: "\<bar>q\<bar> < pow2 emax"
  shows "rnd_fmt p emin emax s q = Fin q"
proof -
  let ?a = "\<bar>q\<bar>"
  define e where "e = max (flog2 ?a - (p - 1)) emin"
  have a: "?a = of_int \<bar>n\<bar> * pow2 k" using q by (simp add: abs_mult)
  have q0: "q \<noteq> 0" using q n by simp
  have "?a < pow2 (p + k)"
    using n(2) by (simp add: a pow2_add)
  then have "flog2 ?a < p + k" using flog2_less[of ?a] q0 by simp
  then have ek: "e \<le> k" using k by (simp add: e_def)
  then obtain d where d: "k = e + int d" by (metis zle_iff_zadd)
  have ratio: "?a / pow2 e = of_int (\<bar>n\<bar> * 2 ^ d)"
    by (simp add: a d pow2_add pow2_of_nat)
  have m: "of_int (round_even (?a / pow2 e)) * pow2 e = ?a"
    unfolding ratio round_even_of_int by (simp add: a d pow2_add pow2_of_nat)
  have r0: "round_even (?a / pow2 e) \<noteq> 0" using m q0 by auto
  show ?thesis
    unfolding rnd_fmt_def Let_def e_def[symmetric] m
    using q0 r0 big by (simp add: abs_if)
qed

lemma rnd_fmt_int:
  assumes n: "\<bar>of_int n\<bar> \<le> pow2 p" and "emin \<le> 0" "0 < p" "p < emax"
  shows "rnd_fmt p emin emax s (of_int n) = (if n = 0 then fzero s else Fin (of_int n))"
proof (cases "n = 0")
  case True
  then show ?thesis by (simp add: rnd_fmt_def)
next
  case False
  have big: "\<bar>of_int n\<bar> < pow2 emax"
    using n pow2_strict_mono[OF assms(4)] by linarith
  show ?thesis
  proof (cases "\<bar>of_int n\<bar> < pow2 p")
    case True
    then show ?thesis
      using rnd_fmt_exact[of "of_int n" n 0] False assms(2) big by simp
  next
    case eq: False
    then have np: "\<bar>of_int n\<bar> = pow2 p" using n by simp
    have "of_int n = of_int (sgn n) * (pow2 p :: rat)"
      using np False by (cases "0 < n") (simp_all add: sgn_if abs_if split: if_splits)
    moreover have "\<bar>of_int (sgn n)\<bar> < pow2 p"
      using pow2_strict_mono[of 0 p] assms(3) False by (simp add: abs_sgn_eq flip: of_int_abs)
    ultimately show ?thesis
      using rnd_fmt_exact[of "of_int n" "sgn n" p p emin emax s] False assms big
      by (simp add: sgn_eq_0_iff)
  qed
qed

lemma rnd64_int [fl]:
  "\<bar>n\<bar> \<le> 2 ^ 53 \<Longrightarrow> rnd64 s (of_int n) = (if n = 0 then fzero s else Fin (of_int n))"
proof -
  assume "\<bar>n\<bar> \<le> 2 ^ 53"
  then have "of_int \<bar>n\<bar> \<le> (of_int (2 ^ 53) :: rat)" by (rule of_int_le_iff[THEN iffD2])
  then have "\<bar>of_int n\<bar> \<le> pow2 53" using pow2_of_nat[of 53] by simp
  then show ?thesis unfolding rnd64_def by (rule rnd_fmt_int) simp_all
qed

lemma rnd64_numeral [fl]: "(numeral n :: int) \<le> 2 ^ 53 \<Longrightarrow> rnd64 s (numeral n) = Fin (numeral n)"
  using rnd64_int[of "numeral n" s] by simp

lemma rnd64_0 [fl, simp]: "rnd64 s 0 = fzero s"
  by (simp add: rnd64_def rnd_fmt_def)

lemma rnd64_1 [fl, simp]: "rnd64 s 1 = Fin 1"
  using rnd64_int[of 1 s] by simp

lemma f_of_int_exact [fl]: "\<bar>n\<bar> \<le> 2 ^ 53 \<Longrightarrow> f_of_int n = Fin (of_int n)"
  by (simp add: f_of_int_def rnd64_int fzero_def)

text \<open>Rounding never makes a NaN and keeps the sign.\<close>

lemma rnd_fmt_not_NaN [simp]: "rnd_fmt p emin emax s q \<noteq> NaN"
  by (auto simp: rnd_fmt_def fzero_def finf_def Let_def)

lemma rnd64_not_NaN [simp]: "rnd64 s q \<noteq> NaN" "NaN \<noteq> rnd64 s q"
  unfolding rnd64_def using rnd_fmt_not_NaN by metis+

lemma flt_Fin [simp]: "flt (Fin a) (Fin b) \<longleftrightarrow> a < b"
  by (simp add: flt_def fval_def)

lemma fle_Fin [simp]: "fle (Fin a) (Fin b) \<longleftrightarrow> a \<le> b"
  by (auto simp: fle_def feq_def is_inf_def fval_def)

definition nonneg :: "f64 \<Rightarrow> bool" where
  \<comment> \<open>a number that is zero or above, infinity included\<close>
  "nonneg x = (case x of PInf \<Rightarrow> True | NZero \<Rightarrow> True | Fin q \<Rightarrow> 0 \<le> q | _ \<Rightarrow> False)"

lemma nonneg_not_NaN: "nonneg x \<Longrightarrow> x \<noteq> NaN \<and> x \<noteq> NInf"
  by (auto simp: nonneg_def split: f64.splits)

lemma rnd64_nonneg [fl]: "0 \<le> q \<Longrightarrow> nonneg (rnd64 s q)"
proof -
  assume q: "0 \<le> q"
  have "0 \<le> of_int (round_even (\<bar>q\<bar> / pow2 e)) * pow2 e" for e
    using round_even_nonneg[of "\<bar>q\<bar> / pow2 e"] by (simp add: less_imp_le)
  then show ?thesis
    using q by (auto simp: nonneg_def rnd64_def rnd_fmt_def fzero_def finf_def Let_def not_less)
qed

lemma fadd_nonneg [fl]: "nonneg x \<Longrightarrow> nonneg y \<Longrightarrow> nonneg (fadd x y)"
proof -
  assume "nonneg x" "nonneg y"
  then have "nonneg (fadd x y)" if "\<not> is_inf x" "\<not> is_inf y"
    using that by (cases x; cases y)
      (auto simp: fadd_def is_inf_def fval_def fneg_def is_zero_def fzero_def nonneg_def[of NZero]
        nonneg_def[of "Fin _"] intro: rnd64_nonneg)
  then show ?thesis using \<open>nonneg x\<close> \<open>nonneg y\<close>
    by (cases x; cases y) (auto simp: fadd_def is_inf_def nonneg_def)
qed

lemma fmul_nonneg [fl]:
  "nonneg x \<Longrightarrow> nonneg y \<Longrightarrow> \<not> (is_inf x \<and> is_zero y) \<Longrightarrow> \<not> (is_inf y \<and> is_zero x) \<Longrightarrow>
   nonneg (fmul x y) \<or> fmul x y = NZero"
  by (cases x; cases y)
    (auto simp: fmul_def is_inf_def fval_def fneg_def is_zero_def finf_def fzero_def Let_def
      nonneg_def[of NZero] nonneg_def[of "Fin _"] nonneg_def[of NInf] nonneg_def[of PInf]
      intro: rnd64_nonneg split: if_splits)

end
