(* ===== verification/Sim_Types.thy ===== *)
theory Sim_Types
  imports Float64
begin

text \<open>
  The data that crosses the C ABI of a simulation library: \<open>sim/types.rs\<close> and \<open>sim/error.rs\<close> under
  \<open>src/runtime/src\<close>. Status and type tags with their \<open>u32\<close> codes, signal values and their raw tagged
  union, CAN frames, shared slots, and the error types. The raw union \<open>SimValueDataRaw\<close> is eight
  bytes, here one little-endian \<open>u64\<close>: a field shorter than eight bytes is its low bytes, and
  \<open>to_raw\<close>, which leaves the other bytes uninitialised, is given zeros there. Floats are kept as
  their bit patterns, since every operation of this file moves them unchanged. Reading the \<open>bool\<close>
  field of a union whose byte is neither 0 nor 1 is undefined in Rust; the model reads it as true,
  and no theorem relies on that. The locale \<open>codec\<close> is the contract that an encoder and its
  partial decoder keep; every encoding of the development interprets it.
\<close>

section \<open>The contract of an encoding\<close>

locale codec =
  fixes ok :: "'a \<Rightarrow> bool"
    and enc :: "'a \<Rightarrow> 'b"
    and dec :: "'b \<Rightarrow> 'a option"
  assumes dec_enc: "ok x \<Longrightarrow> dec (enc x) = Some x"
begin

lemma enc_inj: "ok x \<Longrightarrow> ok y \<Longrightarrow> enc x = enc y \<Longrightarrow> x = y"
  using dec_enc by (metis option.inject)

lemma dec_image: "ok x \<Longrightarrow> b = enc x \<Longrightarrow> dec b \<noteq> None"
  using dec_enc by simp

lemma map_dec_enc: "\<forall>x \<in> set xs. ok x \<Longrightarrow> map (dec \<circ> enc) xs = map Some xs"
  using dec_enc by simp

lemma enc_list_inj:
  "\<forall>x \<in> set xs. ok x \<Longrightarrow> \<forall>y \<in> set ys. ok y \<Longrightarrow> map enc xs = map enc ys \<Longrightarrow> xs = ys"
  by (rule map_inj_on) (auto intro: inj_onI enc_inj)

end

section \<open>Status and type tags\<close>

datatype sim_status_raw =
  StOk | StNotInitialized | StInvalidArg | StInvalidSignal | StTypeMismatch | StBufferTooSmall
  | StInternal

definition sim_status_code :: "sim_status_raw \<Rightarrow> u32" where
  "sim_status_code s = (case s of StOk \<Rightarrow> 0 | StNotInitialized \<Rightarrow> 1 | StInvalidArg \<Rightarrow> 2
     | StInvalidSignal \<Rightarrow> 3 | StTypeMismatch \<Rightarrow> 4 | StBufferTooSmall \<Rightarrow> 5 | StInternal \<Rightarrow> 255)"

definition sim_status_of :: "u32 \<Rightarrow> sim_status_raw option" where
  "sim_status_of v =
     (if v = 0 then Some StOk else if v = 1 then Some StNotInitialized
      else if v = 2 then Some StInvalidArg else if v = 3 then Some StInvalidSignal
      else if v = 4 then Some StTypeMismatch else if v = 5 then Some StBufferTooSmall
      else if v = 255 then Some StInternal else None)"

datatype sim_type_raw = TrBool | TrU32 | TrI32 | TrF32 | TrF64

definition sim_type_code :: "sim_type_raw \<Rightarrow> u32" where
  "sim_type_code t = (case t of TrBool \<Rightarrow> 0 | TrU32 \<Rightarrow> 1 | TrI32 \<Rightarrow> 2 | TrF32 \<Rightarrow> 3 | TrF64 \<Rightarrow> 4)"

definition sim_type_of :: "u32 \<Rightarrow> sim_type_raw option" where
  "sim_type_of v =
     (if v = 0 then Some TrBool else if v = 1 then Some TrU32 else if v = 2 then Some TrI32
      else if v = 3 then Some TrF32 else if v = 4 then Some TrF64 else None)"

interpretation status_codec: codec "\<lambda>_. True" sim_status_code sim_status_of
  by unfold_locales (simp add: sim_status_code_def sim_status_of_def split: sim_status_raw.split)

interpretation type_codec: codec "\<lambda>_. True" sim_type_code sim_type_of
  by unfold_locales (simp add: sim_type_code_def sim_type_of_def split: sim_type_raw.split)

lemma sim_type_of_Some: "sim_type_of v = Some t \<longleftrightarrow> v = sim_type_code t"
  by (cases t) (auto simp: sim_type_of_def sim_type_code_def)

datatype signal_type = TBool | TU32 | TI32 | TF32 | TF64

definition signal_type_parse :: "string \<Rightarrow> signal_type option" where
  "signal_type_parse s =
     (if s = ''bool'' then Some TBool else if s = ''u32'' then Some TU32
      else if s = ''i32'' then Some TI32 else if s = ''f32'' then Some TF32
      else if s = ''f64'' then Some TF64 else None)"

definition signal_type_fmt :: "signal_type \<Rightarrow> string" where
  "signal_type_fmt t = (case t of TBool \<Rightarrow> ''bool'' | TU32 \<Rightarrow> ''u32'' | TI32 \<Rightarrow> ''i32''
     | TF32 \<Rightarrow> ''f32'' | TF64 \<Rightarrow> ''f64'')"

definition signal_type_of :: "u32 \<Rightarrow> signal_type option" where
  "signal_type_of v = (case sim_type_of v of
      None \<Rightarrow> None
    | Some t \<Rightarrow> Some (case t of TrBool \<Rightarrow> TBool | TrU32 \<Rightarrow> TU32 | TrI32 \<Rightarrow> TI32
                               | TrF32 \<Rightarrow> TF32 | TrF64 \<Rightarrow> TF64))"

interpretation type_name: codec "\<lambda>_. True" signal_type_fmt signal_type_parse
  by unfold_locales (simp add: signal_type_fmt_def signal_type_parse_def split: signal_type.split)

section \<open>Signal values\<close>

datatype signal_value = VBool bool | VU32 u32 | VI32 u32 | VF32 u32 | VF64 u64
  \<comment> \<open>An \<open>i32\<close> as its two's complement word, floats as their bits.\<close>

record sim_value_raw =
  vr_type :: u32
  vr_data :: u64

definition value_signal_type :: "signal_value \<Rightarrow> signal_type" where
  "value_signal_type v = (case v of VBool _ \<Rightarrow> TBool | VU32 _ \<Rightarrow> TU32 | VI32 _ \<Rightarrow> TI32
     | VF32 _ \<Rightarrow> TF32 | VF64 _ \<Rightarrow> TF64)"

definition value_to_raw :: "signal_value \<Rightarrow> sim_value_raw" where
  "value_to_raw v = (case v of
      VBool b \<Rightarrow> \<lparr>vr_type = sim_type_code TrBool, vr_data = (if b then 1 else 0)\<rparr>
    | VU32 w \<Rightarrow> \<lparr>vr_type = sim_type_code TrU32, vr_data = ucast w\<rparr>
    | VI32 w \<Rightarrow> \<lparr>vr_type = sim_type_code TrI32, vr_data = ucast w\<rparr>
    | VF32 w \<Rightarrow> \<lparr>vr_type = sim_type_code TrF32, vr_data = ucast w\<rparr>
    | VF64 w \<Rightarrow> \<lparr>vr_type = sim_type_code TrF64, vr_data = w\<rparr>)"

definition value_from_raw :: "sim_value_raw \<Rightarrow> signal_value option" where
  "value_from_raw raw = (case sim_type_of (vr_type raw) of
      None \<Rightarrow> None
    | Some TrBool \<Rightarrow> Some (VBool ((ucast (vr_data raw) :: u8) \<noteq> 0))
    | Some TrU32 \<Rightarrow> Some (VU32 (ucast (vr_data raw)))
    | Some TrI32 \<Rightarrow> Some (VI32 (ucast (vr_data raw)))
    | Some TrF32 \<Rightarrow> Some (VF32 (ucast (vr_data raw)))
    | Some TrF64 \<Rightarrow> Some (VF64 (vr_data raw)))"

lemma ucast_down_up [simp]: "(ucast (ucast (w :: u32) :: u64) :: u32) = w"
proof -
  have "take_bit 64 w = w" by (simp add: take_bit_word_eq_self)
  then show ?thesis by (simp add: unsigned_ucast_eq word_unat_eq_iff)
qed

interpretation value_codec: codec "\<lambda>_. True" value_to_raw value_from_raw
  by unfold_locales
    (simp add: value_to_raw_def value_from_raw_def sim_type_of_def sim_type_code_def
      split: signal_value.split)

lemma value_from_raw_type:
  "value_from_raw raw = Some v \<Longrightarrow> signal_type_of (vr_type raw) = Some (value_signal_type v)"
  by (auto simp: value_from_raw_def signal_type_of_def value_signal_type_def
      split: option.splits sim_type_raw.splits)

lemma sim_type_of_None: "sim_type_of v = None \<longleftrightarrow> 4 < v"
proof -
  have "sim_type_of v = None \<longleftrightarrow> unat v \<notin> {0, 1, 2, 3, 4}"
    by (simp add: sim_type_of_def word_unat_eq_iff)
  also have "\<dots> \<longleftrightarrow> 4 < unat v" by auto
  finally show ?thesis by (simp add: word_less_nat_alt)
qed

lemma value_from_raw_None: "value_from_raw raw = None \<longleftrightarrow> 4 < vr_type raw"
  by (auto simp: value_from_raw_def sim_type_of_None[symmetric]
      split: option.splits sim_type_raw.splits)

record signal_meta =
  sig_id :: u32
  sig_name :: string
  sig_type :: signal_type
  sig_units :: "string option"

section \<open>CAN frames\<close>

definition CAN_FLAG_EXTENDED :: u8 where "CAN_FLAG_EXTENDED = 1"
definition CAN_FLAG_FD :: u8 where "CAN_FLAG_FD = 2"
definition CAN_FLAG_BRS :: u8 where "CAN_FLAG_BRS = 4"
definition CAN_FLAG_ESI :: u8 where "CAN_FLAG_ESI = 8"
definition CAN_FLAG_RTR :: u8 where "CAN_FLAG_RTR = 16"
definition CAN_FLAG_RESERVED_MASK :: u8 where "CAN_FLAG_RESERVED_MASK = 0xE0"

lemmas can_flag_defs = CAN_FLAG_EXTENDED_def CAN_FLAG_FD_def CAN_FLAG_BRS_def CAN_FLAG_ESI_def
  CAN_FLAG_RTR_def CAN_FLAG_RESERVED_MASK_def

record sim_can_frame =
  arb_id :: u32
  fr_len :: u8
  fr_flags :: u8
  fr_data :: "u8 list"  \<comment> \<open>64 bytes\<close>

record sim_can_frame_raw =
  raw_arb_id :: u32
  raw_len :: u8
  raw_flags :: u8
  raw_pad :: "u8 \<times> u8"
  raw_data :: "u8 list"

definition frame_to_raw :: "sim_can_frame \<Rightarrow> sim_can_frame_raw" where
  "frame_to_raw f = \<lparr>raw_arb_id = arb_id f, raw_len = fr_len f, raw_flags = fr_flags f,
     raw_pad = (0, 0), raw_data = fr_data f\<rparr>"

definition frame_from_raw :: "sim_can_frame_raw \<Rightarrow> sim_can_frame" where
  "frame_from_raw r = \<lparr>arb_id = raw_arb_id r, fr_len = raw_len r, fr_flags = raw_flags r,
     fr_data = raw_data r\<rparr>"

definition payload :: "sim_can_frame \<Rightarrow> u8 list" where
  "payload f = take (min (unat (fr_len f)) 64) (fr_data f)"

definition frame_wf :: "sim_can_frame \<Rightarrow> bool" where
  \<comment> \<open>The array type \<open>[u8; 64]\<close>.\<close>
  "frame_wf f = (length (fr_data f) = 64)"

interpretation frame_codec: codec "\<lambda>_. True" frame_to_raw "\<lambda>r. Some (frame_from_raw r)"
  by unfold_locales (simp add: frame_to_raw_def frame_from_raw_def)

lemma length_payload: "frame_wf f \<Longrightarrow> length (payload f) = min (unat (fr_len f)) 64"
  by (simp add: payload_def frame_wf_def)

record sim_can_bus_desc =
  bus_id :: u32
  bus_name :: string
  bitrate :: u32
  bitrate_data :: u32
  fd_capable :: bool

section \<open>Shared slots\<close>

record sim_shared_slot_raw =
  sr_slot_id :: u32
  sr_type :: u32
  sr_value :: sim_value_raw

definition shared_slot_raw_default :: sim_shared_slot_raw where
  "shared_slot_raw_default =
     \<lparr>sr_slot_id = 0, sr_type = sim_type_code TrF64, sr_value = value_to_raw (VF64 0)\<rparr>"

record sim_shared_desc =
  ch_id :: u32
  ch_name :: string
  slot_count :: u32

record sim_shared_slot =
  slot_id :: u32
  slot_value :: signal_value

datatype shared_slot_decode_error =
  InvalidTypeTag u32 u32
| MismatchedTypeTags u32 u32 u32

definition slot_to_raw :: "sim_shared_slot \<Rightarrow> sim_shared_slot_raw" where
  "slot_to_raw s = (let raw = value_to_raw (slot_value s)
     in \<lparr>sr_slot_id = slot_id s, sr_type = vr_type raw, sr_value = raw\<rparr>)"

definition slot_try_from_raw ::
    "sim_shared_slot_raw \<Rightarrow> shared_slot_decode_error + sim_shared_slot" where
  "slot_try_from_raw raw =
     res_bind (ok_or (InvalidTypeTag (sr_slot_id raw) (sr_type raw)) (sim_type_of (sr_type raw)))
       (\<lambda>slot_type.
     res_bind (ok_or (InvalidTypeTag (sr_slot_id raw) (vr_type (sr_value raw)))
         (sim_type_of (vr_type (sr_value raw))))
       (\<lambda>value_type.
     if slot_type \<noteq> value_type
     then Inl (MismatchedTypeTags (sr_slot_id raw) (sr_type raw) (vr_type (sr_value raw)))
     else case value_from_raw (sr_value raw) of
         Some v \<Rightarrow> Inr \<lparr>slot_id = sr_slot_id raw, slot_value = v\<rparr>
       | None \<Rightarrow> Inl (InvalidTypeTag (sr_slot_id raw) (sr_type raw))))"
  \<comment> \<open>The last branch is the \<open>expect\<close>; \<open>slot_decode_no_panic\<close> shows that it is never taken.\<close>

definition res_opt :: "'e + 'a \<Rightarrow> 'a option" where
  "res_opt r = (case r of Inl _ \<Rightarrow> None | Inr x \<Rightarrow> Some x)"

lemma res_opt_simps [simp]: "res_opt (Inl e) = None" "res_opt (Inr x) = Some x"
  by (simp_all add: res_opt_def)

interpretation slot_codec: codec "\<lambda>_. True" slot_to_raw "\<lambda>r. res_opt (slot_try_from_raw r)"
proof
  fix s :: sim_shared_slot
  obtain t where t: "sim_type_of (vr_type (value_to_raw (slot_value s))) = Some t"
    by (cases "slot_value s") (simp_all add: value_to_raw_def sim_type_of_Some)
  then show "res_opt (slot_try_from_raw (slot_to_raw s)) = Some s"
    by (simp add: slot_try_from_raw_def slot_to_raw_def Let_def value_codec.dec_enc)
qed

lemma slot_decode_no_panic:
  "sim_type_of (vr_type raw) = Some t \<Longrightarrow> value_from_raw raw \<noteq> None"
  by (cases t) (simp_all add: value_from_raw_def)

section \<open>Errors\<close>

text \<open>An error message is the constructor of the place that formats it, with its arguments.\<close>

datatype metadata_error =
  EmptySignalName
| ReservedNamespace string
| DuplicateSignalId u32
| DuplicateSignalName string
| EmptyBusName
| DuplicateBusId u32
| DuplicateBusName string
| EmptyChannelName
| ChannelWithoutSlots string
| DuplicateChannelId u32
| DuplicateChannelName string
| MissingString string
| BadTypeTag string u32

datatype ffi_error =
  CapacityExceeded string
| WrittenBeyondCapacity string u32 u32
| UnknownSharedChannel u32
| BufferTooSmallForChannel u32 u32
| SlotDecode shared_slot_decode_error
| SlotCountMismatch string nat nat
| SlotIdMismatch string u32 nat

datatype flash_load_error =
  NoFlashWriteExport
| FlashRegionTooLarge u32 nat
| FlashWriteFailed u32 nat u32

datatype library_error =
  OpenFailed
| ApiVersionStatus u32
| AbiMismatch u32 u32
| TickDurationStatus u32
| ZeroTickDuration string
| CallStatus string u32

datatype project_error =
  LibraryLoad library_error
| PFfiContract ffi_error
| MissingSymbol string
| InvalidSignalMetadata metadata_error
| InvalidCanExports
| InvalidSharedExports
| InvalidCanMetadata metadata_error
| InvalidSharedMetadata metadata_error
| FlashSupport flash_load_error

datatype sim_error =
  NotInitialized
| InvalidArg string
| FfiContract ffi_error
| InvalidSignal string
| TypeMismatch string signal_type signal_type
| BufferTooSmall
| Internal
| UnknownStatus u32

datatype time_error =
  TimeSim sim_error
| StepWhileRunning
| AlreadyRunning
| AlreadyPaused
| InvalidSpeed f64

definition sim_error_of_code :: "u32 \<Rightarrow> sim_error + sim_error" where
  "sim_error_of_code value =
     res_bind (ok_or (UnknownStatus value) (sim_status_of value)) (\<lambda>status.
       case status of
         StOk \<Rightarrow> Inl (UnknownStatus 0)
       | StNotInitialized \<Rightarrow> Inr NotInitialized
       | StInvalidArg \<Rightarrow> Inr (InvalidArg ''invalid ffi argument'')
       | StInvalidSignal \<Rightarrow> Inr (InvalidSignal ''<unknown>'')
       | StTypeMismatch \<Rightarrow> Inr Internal
       | StBufferTooSmall \<Rightarrow> Inr BufferTooSmall
       | StInternal \<Rightarrow> Inr Internal)"

end
