(* ===== verification/Sim_Validation.thy ===== *)
theory Sim_Validation
  imports Sim_Types
begin

text \<open>
  The checks on names and on the metadata a simulation library reports: \<open>name.rs\<close>,
  \<open>sim/validation.rs\<close> and \<open>sim/project_loader.rs\<close>. The three metadata loops share a contract, the
  locale \<open>metadata_loop\<close>: one pass with the set of ids and the set of names seen so far accepts
  exactly the lists whose entries pass their own checks and whose ids and names are distinct.
\<close>

section \<open>Runtime names\<close>

datatype name_error = InvalidName string string  \<comment> \<open>the kind and the name\<close>

definition is_allowed_name_char :: "char \<Rightarrow> bool" where
  "is_allowed_name_char ch = (is_ascii_alphanumeric ch \<or> ch = CHR ''_'' \<or> ch = CHR ''-'')"

definition validate_runtime_name :: "string \<Rightarrow> string \<Rightarrow> name_error + unit" where
  "validate_runtime_name name kind =
     guard_err (name = [] \<or> \<not> list_all is_allowed_name_char name) (InvalidName kind name)"

definition validate_instance_name :: "string \<Rightarrow> name_error + unit" where
  "validate_instance_name name = validate_runtime_name name ''instance''"

definition validate_env_name :: "string \<Rightarrow> name_error + unit" where
  "validate_env_name name = validate_runtime_name name ''env''"

lemma allowed_plain: "is_allowed_name_char c \<Longrightarrow> plain_char c"
  by (auto simp: is_allowed_name_char_def is_ascii_alphanumeric_def is_ascii_digit_def
      plain_char_def ascii_ws_def)

text \<open>An accepted name is left alone by \<open>trim\<close> and contains neither \<open>:\<close> nor a path separator.\<close>

lemma valid_name_trim: "validate_runtime_name name kind = Inr u \<Longrightarrow> trim name = name"
  by (rule trim_plain) (auto simp: validate_runtime_name_def guard_err_Inr list_all_iff
      intro: allowed_plain)

lemma valid_name_chars:
  assumes "validate_runtime_name name kind = Inr u"
  shows "CHR '':'' \<notin> set name" and "CHR ''/'' \<notin> set name"
proof -
  have "\<not> is_allowed_name_char CHR '':''" "\<not> is_allowed_name_char CHR ''/''"
    by (simp_all add: is_allowed_name_char_def is_ascii_alphanumeric_def is_ascii_digit_def)
  moreover have "\<forall>c \<in> set name. is_allowed_name_char c"
    using assms by (simp add: validate_runtime_name_def guard_err_Inr list_all_iff)
  ultimately show "CHR '':'' \<notin> set name" and "CHR ''/'' \<notin> set name" by auto
qed

section \<open>Metadata\<close>

fun validate_signals_loop ::
    "u32 set \<Rightarrow> string set \<Rightarrow> signal_meta list \<Rightarrow> metadata_error + unit" where
  "validate_signals_loop ids names [] = Inr ()"
| "validate_signals_loop ids names (signal # rest) =
     (if trim (sig_name signal) = [] then Inl EmptySignalName
      else if starts_with ''can.'' (sig_name signal) then Inl (ReservedNamespace (sig_name signal))
      else if sig_id signal \<in> ids then Inl (DuplicateSignalId (sig_id signal))
      else if sig_name signal \<in> names then Inl (DuplicateSignalName (sig_name signal))
      else validate_signals_loop (insert (sig_id signal) ids) (insert (sig_name signal) names) rest)"

definition validate_signal_metadata :: "signal_meta list \<Rightarrow> project_error + unit" where
  "validate_signal_metadata signals =
     map_err InvalidSignalMetadata (validate_signals_loop {} {} signals)"

fun validate_buses_loop ::
    "u32 set \<Rightarrow> string set \<Rightarrow> sim_can_bus_desc list \<Rightarrow> metadata_error + unit" where
  "validate_buses_loop ids names [] = Inr ()"
| "validate_buses_loop ids names (bus # rest) =
     (if trim (bus_name bus) = [] then Inl EmptyBusName
      else if bus_id bus \<in> ids then Inl (DuplicateBusId (bus_id bus))
      else if bus_name bus \<in> names then Inl (DuplicateBusName (bus_name bus))
      else validate_buses_loop (insert (bus_id bus) ids) (insert (bus_name bus) names) rest)"

definition validate_can_metadata :: "sim_can_bus_desc list \<Rightarrow> project_error + unit" where
  "validate_can_metadata buses = map_err InvalidCanMetadata (validate_buses_loop {} {} buses)"

fun validate_channels_loop ::
    "u32 set \<Rightarrow> string set \<Rightarrow> sim_shared_desc list \<Rightarrow> metadata_error + unit" where
  "validate_channels_loop ids names [] = Inr ()"
| "validate_channels_loop ids names (channel # rest) =
     (if trim (ch_name channel) = [] then Inl EmptyChannelName
      else if slot_count channel = 0 then Inl (ChannelWithoutSlots (ch_name channel))
      else if ch_id channel \<in> ids then Inl (DuplicateChannelId (ch_id channel))
      else if ch_name channel \<in> names then Inl (DuplicateChannelName (ch_name channel))
      else validate_channels_loop (insert (ch_id channel) ids) (insert (ch_name channel) names) rest)"

definition validate_shared_metadata :: "sim_shared_desc list \<Rightarrow> project_error + unit" where
  "validate_shared_metadata channels =
     map_err InvalidSharedMetadata (validate_channels_loop {} {} channels)"

locale metadata_loop =
  fixes loop :: "u32 set \<Rightarrow> string set \<Rightarrow> 'm list \<Rightarrow> 'e + unit"
    and ident :: "'m \<Rightarrow> u32"
    and name :: "'m \<Rightarrow> string"
    and entry_ok :: "'m \<Rightarrow> bool"
  assumes loop_Nil: "loop ids names [] = Inr ()"
    and loop_Cons: "is_ok (loop ids names (m # ms)) \<longleftrightarrow>
      entry_ok m \<and> ident m \<notin> ids \<and> name m \<notin> names \<and>
      is_ok (loop (insert (ident m) ids) (insert (name m) names) ms)"
begin

lemma loop_ok:
  "is_ok (loop ids names ms) \<longleftrightarrow>
     (\<forall>m \<in> set ms. entry_ok m) \<and> distinct (map ident ms) \<and> distinct (map name ms) \<and>
     ident ` set ms \<inter> ids = {} \<and> name ` set ms \<inter> names = {}"
  by (induction ms arbitrary: ids names) (auto simp: loop_Nil loop_Cons)

lemma accepted:
  "is_ok (loop {} {} ms) \<longleftrightarrow>
     (\<forall>m \<in> set ms. entry_ok m) \<and> distinct (map ident ms) \<and> distinct (map name ms)"
  by (simp add: loop_ok)

lemma accepted_prefix: "is_ok (loop {} {} (ms @ ns)) \<Longrightarrow> is_ok (loop {} {} ms)"
  by (simp add: accepted)

lemma accepted_lookup:
  assumes "is_ok (loop {} {} ms)" and "m \<in> set ms"
  shows "map_of (map (\<lambda>m. (name m, ident m)) ms) (name m) = Some (ident m)"
  using assms by (intro map_of_is_SomeI) (auto simp: accepted comp_def)

end

definition signal_entry_ok :: "signal_meta \<Rightarrow> bool" where
  "signal_entry_ok s = (trim (sig_name s) \<noteq> [] \<and> \<not> starts_with ''can.'' (sig_name s))"

definition bus_entry_ok :: "sim_can_bus_desc \<Rightarrow> bool" where
  "bus_entry_ok b = (trim (bus_name b) \<noteq> [])"

definition channel_entry_ok :: "sim_shared_desc \<Rightarrow> bool" where
  "channel_entry_ok c = (trim (ch_name c) \<noteq> [] \<and> slot_count c \<noteq> 0)"

interpretation signal_loop: metadata_loop validate_signals_loop sig_id sig_name signal_entry_ok
  by unfold_locales (auto simp: signal_entry_ok_def)

interpretation bus_loop: metadata_loop validate_buses_loop bus_id bus_name bus_entry_ok
  by unfold_locales (auto simp: bus_entry_ok_def)

interpretation channel_loop: metadata_loop validate_channels_loop ch_id ch_name channel_entry_ok
  by unfold_locales (auto simp: channel_entry_ok_def)

lemma is_ok_map_err [simp, res_simps]: "is_ok (map_err g r) = is_ok r"
  by (cases r) simp_all

lemma is_ok_unit: "is_ok r \<longleftrightarrow> r = Inr ()" for r :: "'e + unit"
  by (cases r) simp_all

lemma validate_signal_metadata_ok:
  "validate_signal_metadata ms = Inr () \<longleftrightarrow>
     (\<forall>m \<in> set ms. signal_entry_ok m) \<and> distinct (map sig_id ms) \<and> distinct (map sig_name ms)"
  using signal_loop.accepted[of ms] by (simp add: validate_signal_metadata_def flip: is_ok_unit)

lemma validate_can_metadata_ok:
  "validate_can_metadata ms = Inr () \<longleftrightarrow>
     (\<forall>m \<in> set ms. bus_entry_ok m) \<and> distinct (map bus_id ms) \<and> distinct (map bus_name ms)"
  using bus_loop.accepted[of ms] by (simp add: validate_can_metadata_def flip: is_ok_unit)

lemma validate_shared_metadata_ok:
  "validate_shared_metadata ms = Inr () \<longleftrightarrow>
     (\<forall>m \<in> set ms. channel_entry_ok m) \<and> distinct (map ch_id ms) \<and> distinct (map ch_name ms)"
  using channel_loop.accepted[of ms] by (simp add: validate_shared_metadata_def flip: is_ok_unit)

section \<open>Buffers filled by the library\<close>

definition MAX_FFI_BUFFER_CAPACITY :: u32 where
  "MAX_FFI_BUFFER_CAPACITY = 65536"

definition next_capacity :: "u32 \<Rightarrow> string \<Rightarrow> ffi_error + u32" where
  "next_capacity capacity context =
     (if MAX_FFI_BUFFER_CAPACITY \<le> capacity then Inl (CapacityExceeded context)
      else Inr (max 2 (min MAX_FFI_BUFFER_CAPACITY (sat_mul capacity 2))))"

definition validate_written :: "u32 \<Rightarrow> u32 \<Rightarrow> string \<Rightarrow> ffi_error + nat" where
  "validate_written written capacity context =
     (if capacity < written then Inl (WrittenBeyondCapacity context written capacity)
      else Inr (unat written))"

definition decode_owned_cstr :: "string option \<Rightarrow> string \<Rightarrow> metadata_error + string" where
  \<comment> \<open>\<open>None\<close> is the null pointer, \<open>Some b\<close> the bytes before the terminator.\<close>
  "decode_owned_cstr ptr context =
     (case ptr of None \<Rightarrow> Inl (MissingString context) | Some b \<Rightarrow> Inr (utf8_lossy b))"

lemma unat_next_capacity:
  "next_capacity c ctx = Inr d \<Longrightarrow> unat d = max 2 (min 65536 (2 * unat c))"
proof -
  assume d: "next_capacity c ctx = Inr d"
  then have c: "unat c < 65536"
    by (simp add: next_capacity_def MAX_FFI_BUFFER_CAPACITY_def word_le_nat_alt split: if_splits)
  have mm: "unat (max a b) = max (unat a) (unat b)" "unat (min a b) = min (unat a) (unat b)"
    for a b :: u32 by (simp_all add: max_def min_def word_le_nat_alt)
  from d c show ?thesis
    by (auto simp: next_capacity_def MAX_FFI_BUFFER_CAPACITY_def mm unat_sat_mul split: if_splits)
qed

text \<open>Every growth step is strict and bounded, so a loop that grows its buffer ends.\<close>

lemma next_capacity_grows:
  "next_capacity c ctx = Inr d \<Longrightarrow> unat c < unat d \<and> unat d \<le> 65536 \<and> unat c < 65536"
  using unat_next_capacity[of c ctx d]
  by (auto simp: next_capacity_def MAX_FFI_BUFFER_CAPACITY_def word_le_nat_alt split: if_splits)

lemma next_capacity_total:
  "is_ok (next_capacity c ctx) \<longleftrightarrow> c < MAX_FFI_BUFFER_CAPACITY"
  by (auto simp: next_capacity_def not_le)

end
