(* ===== verification/Sim_Project.thy ===== *)
theory Sim_Project
  imports Sim_Validation Flash
begin

text \<open>
  A loaded simulation library: \<open>sim/project.rs\<close>. The shared object is not under the repository, so
  its exported functions are the fields of a record over an opaque world \<open>'w\<close> (the state of the
  library): each takes the world and what the C prototype of \<open>sim_api.h\<close> passes, and gives back the
  \<open>u32\<close> status, the buffers and counts it wrote, and the world. A symbol that the library may lack is
  an option. \<open>load\<close> checks the exports in the code's order; the methods of \<open>Project\<close> are actions on
  the world that fail with a \<open>sim_error\<close>. A buffer handed to the library comes back as a list.
\<close>

section \<open>The library\<close>

record sim_signal_desc_raw =
  sd_id :: u32
  sd_name :: "string option"
  sd_type :: u32
  sd_units :: "string option"

record sim_can_bus_desc_raw =
  bd_id :: u32
  bd_name :: "string option"
  bd_bitrate :: u32
  bd_bitrate_data :: u32
  bd_flags :: u8

record sim_shared_desc_raw =
  hd_id :: u32
  hd_name :: "string option"
  hd_slot_count :: u32

type_synonym 'w status_fn = "'w \<Rightarrow> u32 \<times> 'w"
type_synonym ('w, 'r) fill_fn = "'r list \<Rightarrow> u32 \<Rightarrow> 'w \<Rightarrow> (u32 \<times> 'r list \<times> u32) \<times> 'w"
  \<comment> \<open>Buffer and capacity in; status, buffer and count written out.\<close>

record 'w sim_library =
  lib_init :: "'w status_fn option"
  lib_reset :: "'w status_fn option"
  lib_tick :: "'w status_fn option"
  lib_read_val :: "(u32 \<Rightarrow> sim_value_raw \<Rightarrow> 'w \<Rightarrow> (u32 \<times> sim_value_raw) \<times> 'w) option"
  lib_read_vals :: "(u32 list \<Rightarrow> sim_value_raw list \<Rightarrow> 'w \<Rightarrow> (u32 \<times> sim_value_raw list) \<times> 'w) option"
  lib_write_val :: "(u32 \<Rightarrow> sim_value_raw \<Rightarrow> 'w status_fn) option"
  lib_get_signal_count :: "('w \<Rightarrow> (u32 \<times> u32) \<times> 'w) option"
  lib_get_signals :: "('w, sim_signal_desc_raw) fill_fn option"
  lib_get_api_version :: "('w \<Rightarrow> (u32 \<times> u32 \<times> u32) \<times> 'w) option"
  lib_get_tick_duration_us :: "('w \<Rightarrow> (u32 \<times> u32) \<times> 'w) option"
  lib_flash_write :: "(u32 \<Rightarrow> u8 list \<Rightarrow> 'w status_fn) option"
  lib_can_get_buses :: "('w, sim_can_bus_desc_raw) fill_fn option"
  lib_can_rx :: "(u32 \<Rightarrow> sim_can_frame_raw list \<Rightarrow> 'w status_fn) option"
  lib_can_tx :: "(u32 \<Rightarrow> ('w, sim_can_frame_raw) fill_fn) option"
  lib_shared_get_channels :: "('w, sim_shared_desc_raw) fill_fn option"
  lib_shared_read :: "(u32 \<Rightarrow> sim_shared_slot_raw list \<Rightarrow> 'w status_fn) option"
  lib_shared_write :: "(u32 \<Rightarrow> ('w, sim_shared_slot_raw) fill_fn) option"

definition STATUS_OK :: u32 where "STATUS_OK = 0"
definition STATUS_NOT_INITIALIZED :: u32 where "STATUS_NOT_INITIALIZED = 1"
definition STATUS_INVALID_SIGNAL :: u32 where "STATUS_INVALID_SIGNAL = 3"
definition STATUS_TYPE_MISMATCH :: u32 where "STATUS_TYPE_MISMATCH = 4"
definition STATUS_BUFFER_TOO_SMALL :: u32 where "STATUS_BUFFER_TOO_SMALL = 5"

lemmas status_defs = STATUS_OK_def STATUS_NOT_INITIALIZED_def STATUS_INVALID_SIGNAL_def
  STATUS_TYPE_MISMATCH_def STATUS_BUFFER_TOO_SMALL_def

definition SUPPORTED_API_VERSION_MAJOR :: u32 where "SUPPORTED_API_VERSION_MAJOR = 2"
definition SUPPORTED_API_VERSION_MINOR :: u32 where "SUPPORTED_API_VERSION_MINOR = 0"

record 'w project_can_api =
  sim_can_rx :: "u32 \<Rightarrow> sim_can_frame_raw list \<Rightarrow> 'w status_fn"
  sim_can_tx :: "u32 \<Rightarrow> ('w, sim_can_frame_raw) fill_fn"

record 'w project_shared_api =
  sim_shared_read :: "u32 \<Rightarrow> sim_shared_slot_raw list \<Rightarrow> 'w status_fn"
  sim_shared_write :: "u32 \<Rightarrow> ('w, sim_shared_slot_raw) fill_fn"

record 'w project =
  libpath :: string
  p_tick_duration_us :: u32
  p_signals :: "signal_meta list"
  p_can_buses :: "sim_can_bus_desc list"
  p_shared_channels :: "sim_shared_desc list"
  signal_name_to_id :: "(string, u32) hmap"
  signal_id_to_index :: "(u32, nat) hmap"
  sim_reset :: "'w status_fn"
  sim_tick :: "'w status_fn"
  sim_read_val :: "u32 \<Rightarrow> sim_value_raw \<Rightarrow> 'w \<Rightarrow> (u32 \<times> sim_value_raw) \<times> 'w"
  sim_read_vals :: "(u32 list \<Rightarrow> sim_value_raw list \<Rightarrow> 'w \<Rightarrow> (u32 \<times> sim_value_raw list) \<times> 'w) option"
  sim_write_val :: "u32 \<Rightarrow> sim_value_raw \<Rightarrow> 'w status_fn"
  can_api :: "'w project_can_api option"
  shared_api :: "'w project_shared_api option"

section \<open>Filling a buffer that may be too small\<close>

function fetch_loop ::
    "('w, 'r) fill_fn \<Rightarrow> 'r \<Rightarrow> string \<Rightarrow> u32 \<Rightarrow> ('w, project_error, 'r list) act" where
  \<comment> \<open>The \<open>loop\<close> of \<open>load\<close>, \<open>load_can_buses\<close> and \<open>load_shared_channels\<close>.\<close>
  "fetch_loop f blank context capacity w =
     (case f (replicate (unat capacity) blank) capacity w of
        ((status, raw, written), w') \<Rightarrow>
          if status = STATUS_BUFFER_TOO_SMALL then
            (case next_capacity capacity context of
               Inl e \<Rightarrow> (Inl (PFfiContract e), w')
             | Inr c \<Rightarrow> fetch_loop f blank context c w')
          else if status \<noteq> STATUS_OK then (Inl (LibraryLoad (CallStatus context status)), w')
          else (case validate_written written capacity context of
               Inl e \<Rightarrow> (Inl (PFfiContract e), w')
             | Inr n \<Rightarrow> (Inr (take n raw), w')))"
  by pat_completeness auto

termination
proof (relation "measure (\<lambda>(_, _, _, capacity, _). 65536 - unat capacity)")
  show "wf (measure (\<lambda>(_ :: ('w, 'r) fill_fn, _ :: 'r, _ :: string, capacity :: u32, _ :: 'w).
      65536 - unat capacity))" by simp
qed (auto dest!: next_capacity_grows)

declare fetch_loop.simps [simp del]

section \<open>Loading\<close>

definition validate_tick_duration_us :: "u32 \<Rightarrow> string \<Rightarrow> project_error + u32" where
  "validate_tick_duration_us tick_duration_us source =
     (if tick_duration_us = 0 then Inl (LibraryLoad (ZeroTickDuration source))
      else Inr tick_duration_us)"

record 'w required_exports =
  ex_init :: "'w status_fn"
  ex_reset :: "'w status_fn"
  ex_tick :: "'w status_fn"
  ex_read_val :: "u32 \<Rightarrow> sim_value_raw \<Rightarrow> 'w \<Rightarrow> (u32 \<times> sim_value_raw) \<times> 'w"
  ex_write_val :: "u32 \<Rightarrow> sim_value_raw \<Rightarrow> 'w status_fn"
  ex_get_signal_count :: "'w \<Rightarrow> (u32 \<times> u32) \<times> 'w"
  ex_get_signals :: "('w, sim_signal_desc_raw) fill_fn"
  ex_get_api_version :: "'w \<Rightarrow> (u32 \<times> u32 \<times> u32) \<times> 'w"
  ex_get_tick_duration_us :: "'w \<Rightarrow> (u32 \<times> u32) \<times> 'w"

definition load_exports :: "'w sim_library \<Rightarrow> project_error + 'w required_exports" where
  "load_exports lib =
     res_bind (ok_or (MissingSymbol ''sim_init'') (lib_init lib)) (\<lambda>init.
     res_bind (ok_or (MissingSymbol ''sim_reset'') (lib_reset lib)) (\<lambda>reset.
     res_bind (ok_or (MissingSymbol ''sim_tick'') (lib_tick lib)) (\<lambda>tick.
     res_bind (ok_or (MissingSymbol ''sim_read_val'') (lib_read_val lib)) (\<lambda>read_val.
     res_bind (ok_or (MissingSymbol ''sim_write_val'') (lib_write_val lib)) (\<lambda>write_val.
     res_bind (ok_or (MissingSymbol ''sim_get_signal_count'') (lib_get_signal_count lib)) (\<lambda>count.
     res_bind (ok_or (MissingSymbol ''sim_get_signals'') (lib_get_signals lib)) (\<lambda>signals.
     res_bind (ok_or (MissingSymbol ''sim_get_api_version'') (lib_get_api_version lib)) (\<lambda>version.
     res_bind (ok_or (MissingSymbol ''sim_get_tick_duration_us'') (lib_get_tick_duration_us lib))
       (\<lambda>duration.
     Inr \<lparr>ex_init = init, ex_reset = reset, ex_tick = tick, ex_read_val = read_val,
       ex_write_val = write_val, ex_get_signal_count = count, ex_get_signals = signals,
       ex_get_api_version = version, ex_get_tick_duration_us = duration\<rparr>)))))))))"

definition load_api_version :: "'w required_exports \<Rightarrow> ('w, project_error, unit) act" where
  "load_api_version ex w =
     (case ex_get_api_version ex w of ((status, major, minor), w') \<Rightarrow>
        (if status \<noteq> STATUS_OK then Inl (LibraryLoad (ApiVersionStatus status))
         else guard_err (major \<noteq> SUPPORTED_API_VERSION_MAJOR \<or> minor \<noteq> SUPPORTED_API_VERSION_MINOR)
           (LibraryLoad (AbiMismatch major minor)), w'))"

definition load_tick_duration :: "'w required_exports \<Rightarrow> ('w, project_error, u32) act" where
  "load_tick_duration ex w =
     (case ex_get_tick_duration_us ex w of ((status, value), w') \<Rightarrow>
        (if status \<noteq> STATUS_OK then Inl (LibraryLoad (TickDurationStatus status))
         else validate_tick_duration_us value ''sim_get_tick_duration_us'', w'))"

definition signal_of_desc :: "sim_signal_desc_raw \<Rightarrow> project_error + signal_meta" where
  "signal_of_desc entry =
     res_bind (map_err InvalidSignalMetadata (decode_owned_cstr (sd_name entry) ''signal name''))
       (\<lambda>name.
     res_bind (case sd_units entry of None \<Rightarrow> Inr None
       | Some u \<Rightarrow> map_err InvalidSignalMetadata
           (res_bind (decode_owned_cstr (Some u) ''signal units'') (\<lambda>v. Inr (Some v)))) (\<lambda>units.
     res_bind (ok_or (InvalidSignalMetadata (BadTypeTag name (sd_type entry)))
         (signal_type_of (sd_type entry))) (\<lambda>type.
     Inr \<lparr>sig_id = sd_id entry, sig_name = name, sig_type = type, sig_units = units\<rparr>)))"

definition signal_desc_blank :: sim_signal_desc_raw where
  "signal_desc_blank = \<lparr>sd_id = 0, sd_name = None, sd_type = 0, sd_units = None\<rparr>"

definition load_signals :: "'w required_exports \<Rightarrow> ('w, project_error, signal_meta list) act" where
  "load_signals ex w =
     (case ex_get_signal_count ex w of ((status, count), w') \<Rightarrow>
        if status \<noteq> STATUS_OK then (Inl (LibraryLoad (CallStatus ''sim_get_signal_count'' status)), w')
        else a_bind
          (fetch_loop (ex_get_signals ex) signal_desc_blank ''sim_get_signals'' (max count 1))
          (\<lambda>raw. a_lift (map_res signal_of_desc raw)) w')"

definition load_flash_region ::
    "(u32 \<Rightarrow> u8 list \<Rightarrow> 'w status_fn) \<Rightarrow> flash_region \<Rightarrow> ('w, project_error, unit) act" where
  "load_flash_region flash_write region w =
     (if 2 ^ 32 \<le> length (region_data region)
      then (Inl (FlashSupport (FlashRegionTooLarge (base_addr region) (length (region_data region)))), w)
      else case flash_write (base_addr region) (region_data region) w of (status, w') \<Rightarrow>
        (guard_err (status \<noteq> STATUS_OK)
           (FlashSupport (FlashWriteFailed (base_addr region) (length (region_data region)) status)), w'))"

definition load_flash ::
    "'w sim_library \<Rightarrow> flash_region list \<Rightarrow> ('w, project_error, unit) act" where
  "load_flash lib flash_regions =
     (if flash_regions = [] then a_ret ()
      else case lib_flash_write lib of
        None \<Rightarrow> a_fail (FlashSupport NoFlashWriteExport)
      | Some flash_write \<Rightarrow> a_for flash_regions (load_flash_region flash_write))"

definition load_init :: "'w required_exports \<Rightarrow> ('w, project_error, unit) act" where
  "load_init ex w = (case ex_init ex w of (status, w') \<Rightarrow>
     (guard_err (status \<noteq> STATUS_OK) (LibraryLoad (CallStatus ''sim_init'' status)), w'))"

definition bus_of_desc :: "sim_can_bus_desc_raw \<Rightarrow> project_error + sim_can_bus_desc" where
  "bus_of_desc entry =
     res_bind (map_err InvalidCanMetadata (decode_owned_cstr (bd_name entry) ''CAN bus name'')) (\<lambda>name.
     Inr \<lparr>bus_id = bd_id entry, bus_name = name, bitrate = bd_bitrate entry,
       bitrate_data = bd_bitrate_data entry, fd_capable = (and (bd_flags entry) 1 \<noteq> 0)\<rparr>)"

definition load_can_buses ::
    "('w, sim_can_bus_desc_raw) fill_fn \<Rightarrow> ('w, project_error, sim_can_bus_desc list) act" where
  "load_can_buses sim_can_get_buses =
     a_bind (fetch_loop sim_can_get_buses
         \<lparr>bd_id = 0, bd_name = None, bd_bitrate = 0, bd_bitrate_data = 0, bd_flags = 0\<rparr>
         ''sim_can_get_buses'' 4)
       (\<lambda>raw. a_lift (map_res bus_of_desc raw))"

definition channel_of_desc :: "sim_shared_desc_raw \<Rightarrow> project_error + sim_shared_desc" where
  "channel_of_desc entry =
     res_bind (map_err InvalidSharedMetadata
         (decode_owned_cstr (hd_name entry) ''shared channel name'')) (\<lambda>name.
     Inr \<lparr>ch_id = hd_id entry, ch_name = name, slot_count = hd_slot_count entry\<rparr>)"

definition load_shared_channels ::
    "('w, sim_shared_desc_raw) fill_fn \<Rightarrow> ('w, project_error, sim_shared_desc list) act" where
  "load_shared_channels sim_shared_get_channels =
     a_bind (fetch_loop sim_shared_get_channels \<lparr>hd_id = 0, hd_name = None, hd_slot_count = 0\<rparr>
         ''sim_shared_get_channels'' 4)
       (\<lambda>raw. a_lift (map_res channel_of_desc raw))"

definition load_can_api ::
    "'w sim_library \<Rightarrow> ('w, project_error, 'w project_can_api option \<times> sim_can_bus_desc list) act" where
  "load_can_api lib =
     (case (lib_can_get_buses lib, lib_can_rx lib, lib_can_tx lib) of
        (None, None, None) \<Rightarrow> a_ret (None, [])
      | (Some get_buses, Some can_rx, Some can_tx) \<Rightarrow>
          a_bind (load_can_buses get_buses) (\<lambda>buses.
            a_ret (Some \<lparr>sim_can_rx = can_rx, sim_can_tx = can_tx\<rparr>, buses))
      | _ \<Rightarrow> a_fail InvalidCanExports)"

definition load_shared_api ::
    "'w sim_library \<Rightarrow> ('w, project_error, 'w project_shared_api option \<times> sim_shared_desc list) act" where
  "load_shared_api lib =
     (case (lib_shared_get_channels lib, lib_shared_read lib, lib_shared_write lib) of
        (None, None, None) \<Rightarrow> a_ret (None, [])
      | (Some get_channels, Some shared_read, Some shared_write) \<Rightarrow>
          a_bind (load_shared_channels get_channels) (\<lambda>channels.
            a_ret (Some \<lparr>sim_shared_read = shared_read, sim_shared_write = shared_write\<rparr>, channels))
      | _ \<Rightarrow> a_fail InvalidSharedExports)"

definition project_load ::
    "(string \<Rightarrow> 'w sim_library option) \<Rightarrow> string \<Rightarrow> flash_region list \<Rightarrow>
     ('w, project_error, 'w project) act" where
  \<comment> \<open>\<open>open_library\<close> is the dynamic loader.\<close>
  "project_load open_library path flash_regions =
     a_bind (a_lift (ok_or (LibraryLoad OpenFailed) (open_library path))) (\<lambda>lib.
     a_bind (a_lift (load_exports lib)) (\<lambda>ex.
     a_bind (load_api_version ex) (\<lambda>_.
     a_bind (load_tick_duration ex) (\<lambda>tick_duration.
     a_bind (load_signals ex) (\<lambda>signals.
     a_bind (load_flash lib flash_regions) (\<lambda>_.
     a_bind (load_init ex) (\<lambda>_.
     a_bind (load_can_api lib) (\<lambda>(can, buses).
     a_bind (load_shared_api lib) (\<lambda>(shared, channels).
     a_bind (a_lift (validate_signal_metadata signals)) (\<lambda>_.
     a_bind (a_lift (validate_can_metadata buses)) (\<lambda>_.
     a_bind (a_lift (validate_shared_metadata channels)) (\<lambda>_.
     a_ret \<lparr>libpath = path, p_tick_duration_us = tick_duration, p_signals = signals,
       p_can_buses = buses, p_shared_channels = channels,
       signal_name_to_id = hm_collect (map (\<lambda>s. (sig_name s, sig_id s)) signals),
       signal_id_to_index = hm_collect (map (\<lambda>(idx, s). (sig_id s, idx)) (enumerate 0 signals)),
       sim_reset = ex_reset ex, sim_tick = ex_tick ex, sim_read_val = ex_read_val ex,
       sim_read_vals = lib_read_vals lib, sim_write_val = ex_write_val ex,
       can_api = can, shared_api = shared\<rparr>))))))))))))"

section \<open>Lookups\<close>

definition signal_by_id :: "'w project \<Rightarrow> u32 \<Rightarrow> signal_meta option" where
  "signal_by_id p i = (case hm_get (signal_id_to_index p) i of
      None \<Rightarrow> None
    | Some idx \<Rightarrow> if idx < length (p_signals p) then Some (p_signals p ! idx) else None)"

definition signal_id_by_name :: "'w project \<Rightarrow> string \<Rightarrow> u32 option" where
  "signal_id_by_name p name = hm_get (signal_name_to_id p) name"

definition shared_channel_by_id :: "'w project \<Rightarrow> u32 \<Rightarrow> sim_shared_desc option" where
  "shared_channel_by_id p channel_id = find (\<lambda>c. ch_id c = channel_id) (p_shared_channels p)"

section \<open>Calls\<close>

definition map_status ::
    "u32 \<Rightarrow> signal_meta option \<Rightarrow> signal_type option \<Rightarrow> sim_error + unit" where
  "map_status status signal actual_type =
     (let name = (case signal of Some s \<Rightarrow> sig_name s | None \<Rightarrow> ''<unknown>'') in
      if status = STATUS_OK then Inr ()
      else if status = STATUS_NOT_INITIALIZED then Inl NotInitialized
      else if status = 2 then Inl (InvalidArg ''invalid ffi argument'')
      else if status = STATUS_INVALID_SIGNAL then Inl (InvalidSignal name)
      else if status = STATUS_TYPE_MISMATCH then
        Inl (TypeMismatch name (case signal of Some s \<Rightarrow> sig_type s | None \<Rightarrow> TF64)
          (case actual_type of Some t \<Rightarrow> t | None \<Rightarrow> TF64))
      else if status = STATUS_BUFFER_TOO_SMALL then Inl BufferTooSmall
      else if status = 255 then Inl Internal
      else Inl (UnknownStatus status))"

definition project_reset :: "'w project \<Rightarrow> ('w, sim_error, unit) act" where
  "project_reset p w = (case sim_reset p w of (status, w') \<Rightarrow> (map_status status None None, w'))"

definition project_tick :: "'w project \<Rightarrow> ('w, sim_error, unit) act" where
  "project_tick p w = (case sim_tick p w of (status, w') \<Rightarrow> (map_status status None None, w'))"

definition can_rx :: "'w project \<Rightarrow> u32 \<Rightarrow> sim_can_frame list \<Rightarrow> ('w, sim_error, unit) act" where
  "can_rx p bus frames w = (case can_api p of
      None \<Rightarrow> (Inr (), w)
    | Some api \<Rightarrow>
        if frames = [] then (Inr (), w)
        else case sim_can_rx api bus (map frame_to_raw frames) w of (status, w') \<Rightarrow>
          (map_status status None None, w'))"

definition can_frame_raw_blank :: sim_can_frame_raw where
  "can_frame_raw_blank = \<lparr>raw_arb_id = 0, raw_len = 0, raw_flags = 0, raw_pad = (0, 0),
     raw_data = replicate 64 0\<rparr>"

function can_tx_loop ::
    "('w, sim_can_frame_raw) fill_fn \<Rightarrow> sim_can_frame list \<Rightarrow> u32 \<Rightarrow>
     ('w, sim_error, sim_can_frame list) act" where
  "can_tx_loop f out capacity w =
     (case f (replicate (unat capacity) can_frame_raw_blank) capacity w of
        ((status, raw, written), w') \<Rightarrow>
          if status \<noteq> STATUS_OK \<and> status \<noteq> STATUS_BUFFER_TOO_SMALL
          then (res_bind (map_status status None None) (\<lambda>_. Inr out), w')
          else case validate_written written capacity ''sim_can_tx'' of
            Inl e \<Rightarrow> (Inl (FfiContract e), w')
          | Inr n \<Rightarrow>
              let out' = out @ map frame_from_raw (take n raw) in
              if status = STATUS_BUFFER_TOO_SMALL then
                (case next_capacity capacity ''sim_can_tx'' of
                   Inl e \<Rightarrow> (Inl (FfiContract e), w')
                 | Inr c \<Rightarrow> can_tx_loop f out' c w')
              else (Inr out', w'))"
  by pat_completeness auto

termination
proof (relation "measure (\<lambda>(_, _, capacity, _). 65536 - unat capacity)")
  show "wf (measure (\<lambda>(_ :: ('w, sim_can_frame_raw) fill_fn, _ :: sim_can_frame list,
      capacity :: u32, _ :: 'w). 65536 - unat capacity))" by simp
qed (auto dest!: next_capacity_grows)

declare can_tx_loop.simps [simp del]

definition can_tx :: "'w project \<Rightarrow> u32 \<Rightarrow> ('w, sim_error, sim_can_frame list) act" where
  "can_tx p bus w = (case can_api p of
      None \<Rightarrow> (Inr [], w)
    | Some api \<Rightarrow> can_tx_loop (sim_can_tx api bus) [] 32 w)"

fun validate_dense_loop :: "nat \<Rightarrow> string \<Rightarrow> sim_shared_slot list \<Rightarrow> sim_error + unit" where
  "validate_dense_loop expected context [] = Inr ()"
| "validate_dense_loop expected context (slot # slots) =
     (if unat (slot_id slot) \<noteq> expected
      then Inl (FfiContract (SlotIdMismatch context (slot_id slot) expected))
      else validate_dense_loop (Suc expected) context slots)"

definition validate_dense_shared_snapshot ::
    "sim_shared_slot list \<Rightarrow> nat \<Rightarrow> string \<Rightarrow> sim_error + unit" where
  "validate_dense_shared_snapshot slots expected_slot_count context =
     (if length slots \<noteq> expected_slot_count
      then Inl (FfiContract (SlotCountMismatch context (length slots) expected_slot_count))
      else validate_dense_loop 0 context slots)"

definition shared_read ::
    "'w project \<Rightarrow> u32 \<Rightarrow> sim_shared_slot list \<Rightarrow> ('w, sim_error, unit) act" where
  "shared_read p channel_id slots = (case shared_api p of
      None \<Rightarrow> a_ret ()
    | Some api \<Rightarrow>
        a_bind (a_lift (ok_or (FfiContract (UnknownSharedChannel channel_id))
            (shared_channel_by_id p channel_id))) (\<lambda>channel.
        a_bind (a_lift (validate_dense_shared_snapshot slots (unat (slot_count channel))
            ''sim_shared_read'')) (\<lambda>_ w.
        case sim_shared_read api channel_id (map slot_to_raw slots) w of (status, w') \<Rightarrow>
          (map_status status None None, w'))))"

definition shared_write_slots :: "u32 \<Rightarrow> u32 \<times> sim_shared_slot_raw list \<times> u32 \<Rightarrow> u32 \<Rightarrow> u32 \<Rightarrow>
    sim_error + sim_shared_slot list" where
  \<comment> \<open>What \<open>shared_write\<close> does with the status, buffer and count of the call.\<close>
  "shared_write_slots channel_id r expected_slot_count capacity =
     (case r of (status, raw_slots, written) \<Rightarrow>
       if status = STATUS_BUFFER_TOO_SMALL
       then Inl (FfiContract (BufferTooSmallForChannel channel_id expected_slot_count))
       else res_bind (map_status status None None) (\<lambda>_.
         res_bind (map_err FfiContract (validate_written written capacity ''sim_shared_write'')) (\<lambda>n.
         res_bind (map_res (\<lambda>slot. map_err (\<lambda>e. FfiContract (SlotDecode e)) (slot_try_from_raw slot))
             (take n raw_slots)) (\<lambda>slots.
         res_bind (validate_dense_shared_snapshot slots (unat expected_slot_count)
             ''sim_shared_write'') (\<lambda>_. Inr slots)))))"

definition shared_write :: "'w project \<Rightarrow> u32 \<Rightarrow> ('w, sim_error, sim_shared_slot list) act" where
  "shared_write p channel_id = (case shared_api p of
      None \<Rightarrow> a_ret []
    | Some api \<Rightarrow>
        a_bind (a_lift (ok_or (FfiContract (UnknownSharedChannel channel_id))
            (shared_channel_by_id p channel_id))) (\<lambda>channel w.
        let capacity = max (slot_count channel) 1 in
        case sim_shared_write api channel_id
            (replicate (unat capacity) shared_slot_raw_default) capacity w of
          (r, w') \<Rightarrow> (shared_write_slots channel_id r (slot_count channel) capacity, w')))"

definition value_raw_blank :: sim_value_raw where
  "value_raw_blank = \<lparr>vr_type = 0, vr_data = 0\<rparr>"

definition decode_read :: "sim_value_raw \<Rightarrow> sim_error + signal_value" where
  "decode_read raw = ok_or (InvalidArg ''bad read value'') (value_from_raw raw)"

definition read_one :: "'w project \<Rightarrow> signal_meta \<Rightarrow> ('w, sim_error, signal_value) act" where
  \<comment> \<open>Through \<open>sim_read_val\<close>.\<close>
  "read_one p signal w = (case sim_read_val p (sig_id signal) value_raw_blank w of
      ((status, raw), w') \<Rightarrow>
        (res_bind (map_status status (Some signal) None) (\<lambda>_. decode_read raw), w'))"

definition project_read :: "'w project \<Rightarrow> signal_meta \<Rightarrow> ('w, sim_error, signal_value) act" where
  "project_read p signal w = (case sim_read_vals p of
      Some read_vals \<Rightarrow>
        (case read_vals [sig_id signal] [value_raw_blank] w of ((status, raws), w') \<Rightarrow>
          (res_bind (map_status status (Some signal) None) (\<lambda>_. decode_read (raws ! 0)), w'))
    | None \<Rightarrow> read_one p signal w)"

definition read_many :: "'w project \<Rightarrow> u32 list \<Rightarrow> ('w, sim_error, signal_value list) act" where
  "read_many p ids =
     (if ids = [] then a_ret []
      else case sim_read_vals p of
        Some read_vals \<Rightarrow> (\<lambda>w.
          case read_vals ids (replicate (length ids) value_raw_blank) w of ((status, raws), w') \<Rightarrow>
            (res_bind (map_status status None None) (\<lambda>_. map_res decode_read raws), w'))
      | None \<Rightarrow> a_mapM ids (\<lambda>i.
          a_bind (a_lift (ok_or (InvalidSignal (CHR ''#'' # show_nat (unat i))) (signal_by_id p i)))
            (read_one p)))"

definition project_write ::
    "'w project \<Rightarrow> signal_meta \<Rightarrow> signal_value \<Rightarrow> ('w, sim_error, unit) act" where
  "project_write p signal value w =
     (case sim_write_val p (sig_id signal) (value_to_raw value) w of (status, w') \<Rightarrow>
        (map_status status (Some signal) (Some (value_signal_type value)), w'))"

section \<open>Facts\<close>

lemma map_status_ok [simp]: "map_status s sig t = Inr u \<longleftrightarrow> s = STATUS_OK"
  by (simp add: map_status_def Let_def status_defs)

lemma is_ok_map_status: "is_ok (map_status s sig t) \<longleftrightarrow> s = 0"
  by (simp add: map_status_def Let_def status_defs)

text \<open>Each status that has a name gives the error of that name, like \<open>SimError::try_from\<close> does,
  except a type mismatch.\<close>

lemma map_status_try_from:
  "s \<noteq> 4 \<Longrightarrow> s \<noteq> 0 \<Longrightarrow>
   map_status s None None = Inl (case sim_error_of_code s of Inl e \<Rightarrow> e | Inr e \<Rightarrow> e)"
  by (simp add: map_status_def Let_def status_defs sim_error_of_code_def sim_status_of_def)

lemma fetch_loop_length:
  "fetch_loop f b ctx c w = (Inr rs, w') \<Longrightarrow> length rs \<le> max (unat c) 65536"
proof (induction f b ctx c w rule: fetch_loop.induct)
  case (1 f b ctx c w)
  obtain st raw wr w1 where call: "f (replicate (unat c) b) c w = ((st, raw, wr), w1)"
    by (metis prod.collapse)
  show ?case
  proof (cases "st = STATUS_BUFFER_TOO_SMALL")
    case True
    then obtain d where d: "next_capacity c ctx = Inr d" "fetch_loop f b ctx d w1 = (Inr rs, w')"
      using "1.prems" call by (subst (asm) fetch_loop.simps) (auto split: sum.splits)
    then have "length rs \<le> max (unat d) 65536"
      using "1.IH"[OF call[symmetric] refl refl True] by simp
    then show ?thesis using next_capacity_grows[OF d(1)] by simp
  next
    case False
    then have "validate_written wr c ctx = Inr (unat wr)" "rs = take (unat wr) raw"
      using "1.prems" call
      by (subst (asm) fetch_loop.simps;
          auto simp: validate_written_def split: sum.splits if_splits)+
    then show ?thesis
      by (auto simp: validate_written_def word_le_nat_alt not_less split: if_splits)
  qed
qed

lemma validate_dense_loop_ok:
  "validate_dense_loop k ctx slots = Inr u \<longleftrightarrow>
     map (\<lambda>s. unat (slot_id s)) slots = [k..<k + length slots]"
  by (induction k ctx slots rule: validate_dense_loop.induct)
    (auto simp: upt_conv_Cons simp del: upt_Suc)

lemma validate_dense_ok:
  "validate_dense_shared_snapshot slots n ctx = Inr u \<longleftrightarrow>
     map (\<lambda>s. unat (slot_id s)) slots = [0..<n]"
  by (auto simp: validate_dense_shared_snapshot_def validate_dense_loop_ok
      dest: arg_cong[where f = length])

section \<open>The invariant of a loaded project\<close>

definition project_inv :: "'w project \<Rightarrow> bool" where
  "project_inv p =
     (p_tick_duration_us p \<noteq> 0 \<and>
      validate_signal_metadata (p_signals p) = Inr () \<and>
      validate_can_metadata (p_can_buses p) = Inr () \<and>
      validate_shared_metadata (p_shared_channels p) = Inr () \<and>
      (can_api p = None \<longrightarrow> p_can_buses p = []) \<and>
      (shared_api p = None \<longrightarrow> p_shared_channels p = []) \<and>
      signal_name_to_id p = hm_collect (map (\<lambda>s. (sig_name s, sig_id s)) (p_signals p)) \<and>
      signal_id_to_index p =
        hm_collect (map (\<lambda>(idx, s). (sig_id s, idx)) (enumerate 0 (p_signals p))))"

lemma load_tick_duration_ok: "load_tick_duration ex w = (Inr t, w') \<Longrightarrow> t \<noteq> 0"
  by (auto simp: load_tick_duration_def validate_tick_duration_us_def split: prod.splits if_splits)

lemma load_can_api_none: "load_can_api lib w = (Inr (None, bs), w') \<Longrightarrow> bs = []"
  by (auto simp: load_can_api_def a_bind_Inr split: option.splits)

lemma load_shared_api_none: "load_shared_api lib w = (Inr (None, cs), w') \<Longrightarrow> cs = []"
  by (auto simp: load_shared_api_def a_bind_Inr split: option.splits)

lemma project_load_inv:
  assumes "project_load open_library path flash w = (Inr p, w')"
  shows "project_inv p"
  using assms
  by (auto simp: project_load_def a_bind_Inr project_inv_def
      dest: load_tick_duration_ok load_can_api_none load_shared_api_none)

lemma signal_by_id_inv:
  assumes "project_inv p"
  shows "signal_by_id p i = Some s \<longleftrightarrow> s \<in> set (p_signals p) \<and> sig_id s = i"
proof -
  let ?sigs = "p_signals p"
  let ?kvs = "map (\<lambda>(idx, s). (sig_id s, idx)) (enumerate 0 ?sigs)"
  have d: "distinct (map sig_id ?sigs)"
    using assms by (simp add: project_inv_def validate_signal_metadata_ok)
  have keys: "map fst ?kvs = map sig_id ?sigs"
    by (rule nth_equalityI) (simp_all add: nth_enumerate_eq)
  have get: "hm_get (signal_id_to_index p) i = Some k \<longleftrightarrow> k < length ?sigs \<and> sig_id (?sigs ! k) = i" for k
  proof -
    have "hm_get (signal_id_to_index p) = map_of ?kvs"
      using assms d keys by (simp add: project_inv_def hm_get_collect_distinct)
    then have "hm_get (signal_id_to_index p) i = Some k \<longleftrightarrow> (i, k) \<in> set ?kvs"
      using d keys by simp
    also have "\<dots> \<longleftrightarrow> k < length ?sigs \<and> sig_id (?sigs ! k) = i"
      by (auto simp: in_set_enumerate_eq image_iff intro!: bexI[of _ "(k, ?sigs ! k)"])
    finally show ?thesis .
  qed
  show ?thesis
  proof
    assume "signal_by_id p i = Some s"
    then obtain k where "hm_get (signal_id_to_index p) i = Some k" "k < length ?sigs" "s = ?sigs ! k"
      by (auto simp: signal_by_id_def split: option.splits if_splits)
    then show "s \<in> set ?sigs \<and> sig_id s = i" using get[of k] by simp
  next
    assume "s \<in> set ?sigs \<and> sig_id s = i"
    then obtain k where "k < length ?sigs" "?sigs ! k = s" "sig_id (?sigs ! k) = i"
      by (auto simp: in_set_conv_nth)
    then show "signal_by_id p i = Some s" using get[of k] by (simp add: signal_by_id_def)
  qed
qed

lemma signal_id_by_name_inv:
  assumes "project_inv p"
  shows "signal_id_by_name p n = Some i \<longleftrightarrow> (\<exists>s \<in> set (p_signals p). sig_name s = n \<and> sig_id s = i)"
proof -
  have d: "distinct (map sig_name (p_signals p))"
    using assms by (simp add: project_inv_def validate_signal_metadata_ok)
  then show ?thesis
    using assms by (auto simp: signal_id_by_name_def project_inv_def hm_get_collect_distinct comp_def)
qed

lemma find_distinct:
  "distinct (map f xs) \<Longrightarrow> find (\<lambda>c. f c = i) xs = Some c \<longleftrightarrow> c \<in> set xs \<and> f c = i"
  by (induction xs) auto

lemma shared_channel_by_id_inv:
  assumes "project_inv p"
  shows "shared_channel_by_id p i = Some c \<longleftrightarrow> c \<in> set (p_shared_channels p) \<and> ch_id c = i"
proof -
  have "distinct (map ch_id (p_shared_channels p))"
    using assms by (simp add: project_inv_def validate_shared_metadata_ok)
  then show ?thesis unfolding shared_channel_by_id_def by (rule find_distinct)
qed

lemma shared_write_slots_ok:
  assumes "shared_write_slots ch r n cap = Inr slots"
  shows "map (\<lambda>s. unat (slot_id s)) slots = [0..<unat n]" and "fst r = 0"
  using assms
  by (auto simp: shared_write_slots_def res_bind_Inr validate_dense_ok status_defs
      split: prod.splits if_splits)

lemma can_tx_loop_bound:
  "can_tx_loop f out c w = (Inr fs, w') \<Longrightarrow> unat c = 32 * 2 ^ j \<Longrightarrow> j \<le> 11 \<Longrightarrow>
   length fs + unat c \<le> length out + 131072"
proof (induction f out c w arbitrary: j rule: can_tx_loop.induct)
  case (1 f out c w)
  have c: "unat c \<le> 65536"
    using "1.prems"(2,3) power_increasing[of j 11 "2::nat"] by simp
  obtain st raw wr w1
    where call: "f (replicate (unat c) can_frame_raw_blank) c w = ((st, raw, wr), w1)"
    by (metis prod.collapse)
  let ?out = "out @ map frame_from_raw (take (unat wr) raw)"
  have st: "st = STATUS_OK \<or> st = STATUS_BUFFER_TOO_SMALL"
    using "1.prems"(1) call
    by (subst (asm) can_tx_loop.simps) (auto simp: res_bind_Inr split: if_splits)
  have wr: "validate_written wr c ''sim_can_tx'' = Inr (unat wr)" and le: "unat wr \<le> unat c"
    using "1.prems"(1) call st
    by (subst (asm) can_tx_loop.simps;
        auto simp: validate_written_def word_le_nat_alt not_less split: if_splits)+
  then have len: "length ?out \<le> length out + unat c" by simp
  show ?case
  proof (cases "st = STATUS_BUFFER_TOO_SMALL")
    case True
    then obtain d where d: "next_capacity c ''sim_can_tx'' = Inr d"
      and rec: "can_tx_loop f ?out d w1 = (Inr fs, w')"
      using "1.prems"(1) call wr by (subst (asm) can_tx_loop.simps) (auto split: sum.splits)
    have lt: "unat c < 65536" using next_capacity_grows[OF d] by simp
    have "j < 11"
    proof (rule ccontr)
      assume "\<not> j < 11"
      then have "j = 11" using "1.prems"(3) by simp
      then show False using lt "1.prems"(2) by simp
    qed
    moreover from this have "(2::nat) ^ Suc j \<le> 2 ^ 11" by (intro power_increasing) simp_all
    then have "unat d = 32 * 2 ^ Suc j"
      using unat_next_capacity[OF d] "1.prems"(2) by simp
    ultimately have "length fs + unat d \<le> length ?out + 131072"
      using "1.IH"[OF call[symmetric] refl refl _ wr refl True d rec, of "Suc j"] st by simp
    then show ?thesis using len \<open>unat d = 32 * 2 ^ Suc j\<close> "1.prems"(2) by simp
  next
    case False
    then have "fs = ?out"
      using "1.prems"(1) call wr st by (subst (asm) can_tx_loop.simps) (auto simp: status_defs)
    then show ?thesis using len c by simp
  qed
qed

section \<open>A library for the witnesses\<close>

definition demo_fill :: "'r list \<Rightarrow> ('w, 'r) fill_fn" where
  "demo_fill rs buf cap w =
     (if unat cap < length rs then ((STATUS_BUFFER_TOO_SMALL, buf, 0), w)
      else ((STATUS_OK, rs @ drop (length rs) buf, of_nat (length rs)), w))"

definition demo_library :: "signal_value sim_library" where
  \<comment> \<open>One signal, whose value is the world, no CAN bus, and one channel that publishes it.\<close>
  "demo_library = \<lparr>
     lib_init = Some (\<lambda>w. (STATUS_OK, w)), lib_reset = Some (\<lambda>w. (STATUS_OK, VU32 0)),
     lib_tick = Some (\<lambda>w. (STATUS_OK, case w of VU32 n \<Rightarrow> VU32 (n + 1) | v \<Rightarrow> v)),
     lib_read_val = Some (\<lambda>i raw w. ((STATUS_OK, value_to_raw w), w)),
     lib_read_vals = None,
     lib_write_val = Some (\<lambda>i raw w. (STATUS_OK, case value_from_raw raw of Some v \<Rightarrow> v | None \<Rightarrow> w)),
     lib_get_signal_count = Some (\<lambda>w. ((STATUS_OK, 1), w)),
     lib_get_signals = Some (demo_fill
       [\<lparr>sd_id = 7, sd_name = Some ''count'', sd_type = 1, sd_units = None\<rparr>]),
     lib_get_api_version = Some (\<lambda>w. ((STATUS_OK, 2, 0), w)),
     lib_get_tick_duration_us = Some (\<lambda>w. ((STATUS_OK, 1000), w)),
     lib_flash_write = None, lib_can_get_buses = None, lib_can_rx = None, lib_can_tx = None,
     lib_shared_get_channels = Some (demo_fill
       [\<lparr>hd_id = 3, hd_name = Some ''state'', hd_slot_count = 1\<rparr>]),
     lib_shared_read = Some (\<lambda>ch slots w. (STATUS_OK, w)),
     lib_shared_write = Some (\<lambda>ch buf cap w.
       demo_fill [slot_to_raw \<lparr>slot_id = 0, slot_value = w\<rparr>] buf cap w)\<rparr>"

definition demo_load :: "(project_error + signal_value project) \<times> signal_value" where
  "demo_load = project_load (\<lambda>_. Some demo_library) ''libdemo.so'' [] (VU32 0)"

definition demo_project :: "signal_value project" where
  "demo_project = (case demo_load of (r, _) \<Rightarrow> projr r)"

lemma demo_load_ok: "is_ok (fst demo_load)" and demo_load_world: "snd demo_load = VU32 0"
  by code_simp+

lemma demo_load_project:
  "project_load (\<lambda>_. Some demo_library) ''libdemo.so'' [] (VU32 0) = (Inr demo_project, VU32 0)"
proof -
  obtain r w where r: "demo_load = (r, w)" by fastforce
  have "is_ok r" using demo_load_ok unfolding r by simp
  have "w = VU32 0" using demo_load_world unfolding r by simp
  then obtain b where "r = Inr b" using \<open>is_ok r\<close> by (cases r) simp_all
  with r \<open>w = VU32 0\<close> have b: "demo_load = (Inr b, VU32 0)" by (simp only:)
  have "demo_project = b" unfolding demo_project_def b by simp
  with b show ?thesis unfolding demo_load_def by (simp only:)
qed

section \<open>Properties\<close>

text \<open>
  C27: a library that loads has a non-zero tick duration, valid metadata and lookups that find
  exactly the signals and channels it declared, by identifier and by name.
\<close>

theorem project_load_correct:
  assumes "project_load open_library path flash w = (Inr p, w')"
  shows "project_inv p \<and>
    (signal_by_id p i = Some s \<longleftrightarrow> s \<in> set (p_signals p) \<and> sig_id s = i) \<and>
    (signal_id_by_name p n = Some i \<longleftrightarrow> (\<exists>s. s \<in> set (p_signals p) \<and> sig_name s = n \<and> sig_id s = i)) \<and>
    (shared_channel_by_id p i = Some c \<longleftrightarrow> c \<in> set (p_shared_channels p) \<and> ch_id c = i)"
  using project_load_inv[OF assms] signal_by_id_inv signal_id_by_name_inv shared_channel_by_id_inv
  by blast

theorem project_load_correct_witness:
  "signal_by_id demo_project 7 =
   Some \<lparr>sig_id = 7, sig_name = ''count'', sig_type = TU32, sig_units = None\<rparr>"
proof -
  have "p_signals demo_project =
      [\<lparr>sig_id = 7, sig_name = ''count'', sig_type = TU32, sig_units = None\<rparr>]" by code_simp
  then show ?thesis
    using project_load_correct[OF demo_load_project, of 7
        "\<lparr>sig_id = 7, sig_name = ''count'', sig_type = TU32, sig_units = None\<rparr>"] by simp
qed

text \<open>
  What \<open>shared_write\<close> returns for a library with shared state is a dense snapshot of the
  channel: as many slots as the channel declares, numbered from 0 in order; and \<open>shared_read\<close>
  refuses anything else before it calls the library.
\<close>

theorem shared_snapshots_dense:
  assumes "project_inv p" and "shared_api p = Some api" and "c \<in> set (p_shared_channels p)"
  shows "(fst (shared_write p (ch_id c) w) = Inr slots \<longrightarrow>
      map (\<lambda>s. unat (slot_id s)) slots = [0..<unat (slot_count c)]) \<and>
    (map (\<lambda>s. unat (slot_id s)) slots \<noteq> [0..<unat (slot_count c)] \<longrightarrow>
      (\<exists>e. shared_read p (ch_id c) slots w = (Inl (FfiContract e), w)))"
proof -
  have ch: "shared_channel_by_id p (ch_id c) = Some c"
    using shared_channel_by_id_inv[OF assms(1)] assms(3) by simp
  have "\<exists>e. validate_dense_shared_snapshot slots n ctx = Inl (FfiContract e)"
    if ne: "map (\<lambda>s. unat (slot_id s)) slots \<noteq> [0..<n]" for n ctx
  proof -
    have loop: "validate_dense_loop k ctx ss = Inl e \<Longrightarrow> \<exists>f. e = FfiContract f" for k ss e
      by (induction k ctx ss rule: validate_dense_loop.induct) (auto split: if_splits)
    obtain e where e: "validate_dense_shared_snapshot slots n ctx = Inl e"
      using ne validate_dense_ok[of slots n ctx] by (cases "validate_dense_shared_snapshot slots n ctx") auto
    then show ?thesis using loop by (auto simp: validate_dense_shared_snapshot_def split: if_splits)
  qed
  from this[of "unat (slot_count c)" "''sim_shared_read''"]
  have "map (\<lambda>s. unat (slot_id s)) slots \<noteq> [0..<unat (slot_count c)] \<longrightarrow>
      (\<exists>e. shared_read p (ch_id c) slots w = (Inl (FfiContract e), w))"
    using assms(2) ch by (auto simp: shared_read_def)
  then show ?thesis
    using assms(2) ch shared_write_slots_ok(1)
    by (fastforce simp: shared_write_def Let_def split: prod.splits)
qed

theorem shared_snapshots_dense_witness:
  "\<exists>e. shared_read demo_project 3 [] (VU32 0) = (Inl (FfiContract e), VU32 0)"
proof -
  have c: "p_shared_channels demo_project = [\<lparr>ch_id = 3, ch_name = ''state'', slot_count = 1\<rparr>]"
    by code_simp
  have a: "shared_api demo_project \<noteq> None"
  proof -
    have "(case shared_api demo_project of None \<Rightarrow> False | Some _ \<Rightarrow> True)" by code_simp
    then show ?thesis by (simp split: option.splits)
  qed
  show ?thesis
    using shared_snapshots_dense[OF project_load_inv[OF demo_load_project], of _
        "\<lparr>ch_id = 3, ch_name = ''state'', slot_count = 1\<rparr>" "VU32 0" "[]"] a c by auto
qed

text \<open>
  Draining the transmit queue of a bus ends, and whatever the library reports, it returns at
  most 131040 frames: 32 entries in the first call, twice as many in each of eleven further ones.
\<close>

theorem can_tx_bounded:
  assumes "can_tx p bus w = (Inr frames, w')"
  shows "length frames \<le> 131040"
proof (cases "can_api p")
  case None
  then show ?thesis using assms by (simp add: can_tx_def)
next
  case (Some api)
  then have "can_tx_loop (sim_can_tx api bus) [] 32 w = (Inr frames, w')"
    using assms by (simp add: can_tx_def)
  from can_tx_loop_bound[OF this, of 0] show ?thesis by simp
qed

theorem can_tx_bounded_witness: "length ([] :: sim_can_frame list) \<le> 131040"
proof (rule can_tx_bounded)
  have "(case can_api demo_project of None \<Rightarrow> True | Some _ \<Rightarrow> False)" by code_simp
  then show "can_tx demo_project 0 (VU32 0) = (Inr [], VU32 0)"
    by (simp add: can_tx_def split: option.splits)
qed

end
