(* ===== verification/Time_Engine.thy ===== *)
theory Time_Engine
  imports Sim_Types
begin

text \<open>
  The time engine of one simulation: \<open>sim/time.rs\<close>. The engine is paused or running; paused, time
  moves by explicit steps; running, \<open>tick_realtime_due\<close> turns the wall clock into due ticks and
  keeps the fraction of a tick as a floating-point remainder. An \<open>Instant\<close> is a number of
  nanoseconds, the clock reading an argument. \<open>time_step\<close> is one operation of the engine; the
  reachable states satisfy \<open>engine_inv\<close>.
\<close>

datatype time_state = Paused | Running

record time_engine =
  te_state :: time_state
  te_speed :: f64
  elapsed_ticks :: u64
  remainder_us :: f64
  last_wallclock :: "nat option"

record time_status =
  ts_state :: time_state
  ts_elapsed_ticks :: u64
  ts_elapsed_time_us :: u64
  ts_speed :: f64

record step_result =
  requested_us :: u64
  advanced_ticks :: u64
  advanced_us :: u64

definition MIN_POLL_DELAY_US :: f64 where "MIN_POLL_DELAY_US = Fin 100"
definition MAX_POLL_DELAY_US :: f64 where "MAX_POLL_DELAY_US = Fin 1000000"

definition engine_default :: time_engine where
  "engine_default = \<lparr>te_state = Paused, te_speed = Fin 1, elapsed_ticks = 0, remainder_us = Fin 0,
     last_wallclock = None\<rparr>"

definition te_reset :: "time_engine \<Rightarrow> time_engine" where
  "te_reset e = engine_default"

definition te_status :: "u32 \<Rightarrow> time_engine \<Rightarrow> time_status" where
  "te_status tick_duration_us e =
     (let tick_us = ucast tick_duration_us in
      \<lparr>ts_state = te_state e, ts_elapsed_ticks = elapsed_ticks e,
       ts_elapsed_time_us = sat_mul (elapsed_ticks e) tick_us, ts_speed = te_speed e\<rparr>)"

definition te_start :: "nat \<Rightarrow> (time_engine, time_error, unit) act" where
  "te_start now e =
     (if te_state e = Running then (Inl AlreadyRunning, e)
      else (Inr (), e\<lparr>te_state := Running, last_wallclock := Some now\<rparr>))"

definition te_pause :: "(time_engine, time_error, unit) act" where
  "te_pause e =
     (if te_state e = Paused then (Inl AlreadyPaused, e)
      else (Inr (), e\<lparr>te_state := Paused, last_wallclock := None, remainder_us := Fin 0\<rparr>))"

definition te_set_speed :: "f64 \<Rightarrow> (time_engine, time_error, unit) act" where
  "te_set_speed speed e =
     (if \<not> is_finite speed \<or> fle speed (Fin 0) then (Inl (InvalidSpeed speed), e)
      else (Inr (), e\<lparr>te_speed := speed\<rparr>))"

definition te_is_running :: "time_engine \<Rightarrow> bool" where
  "te_is_running e = (te_state e = Running)"

definition step_ticks :: "u32 \<Rightarrow> u64 \<Rightarrow> time_engine \<Rightarrow> time_error + step_result" where
  "step_ticks tick_duration_us duration_us e =
     (if te_state e = Running then Inl StepWhileRunning
      else
        let tick_us = ucast tick_duration_us;
            ticks = (if tick_us = 0 then 0 else duration_us div tick_us);
            advanced = sat_mul ticks tick_us
        in Inr \<lparr>requested_us = duration_us, advanced_ticks = ticks, advanced_us = advanced\<rparr>)"

definition as_secs_f64 :: "nat \<Rightarrow> f64" where
  \<comment> \<open>\<open>Duration::as_secs_f64\<close> of a duration in nanoseconds.\<close>
  "as_secs_f64 ns = fadd (f_of_int (int (ns div 10 ^ 9)))
     (fdiv (f_of_int (int (ns mod 10 ^ 9))) (f_of_int (10 ^ 9)))"

definition tick_realtime_due :: "u32 \<Rightarrow> nat \<Rightarrow> time_engine \<Rightarrow> u64 \<times> time_engine" where
  \<comment> \<open>\<open>duration_since\<close> is zero when the clock reads earlier than the last time.\<close>
  "tick_realtime_due tick_duration_us now e =
     (if te_state e \<noteq> Running then (0, e)
      else case last_wallclock e of
        None \<Rightarrow> (0, e\<lparr>last_wallclock := Some now\<rparr>)
      | Some prev \<Rightarrow>
          let delta = fmul (fmul (as_secs_f64 (now - prev)) (Fin 1000000)) (te_speed e);
              e1 = e\<lparr>last_wallclock := Some now, remainder_us := fadd (remainder_us e) delta\<rparr>;
              tick_us = f_of_int (uint tick_duration_us)
          in if fle tick_us (Fin 0) then (0, e1)
             else let ticks = f_as_u64 (ffloor (fdiv (remainder_us e1) tick_us))
               in if ticks = 0 then (0, e1)
                  else (ticks, e1\<lparr>remainder_us :=
                    fsub (remainder_us e1) (fmul (f_of_int (uint ticks)) tick_us)\<rparr>))"

definition realtime_poll_delay :: "u32 \<Rightarrow> time_engine \<Rightarrow> u64" where
  \<comment> \<open>In microseconds.\<close>
  "realtime_poll_delay tick_duration_us e =
     (if te_state e \<noteq> Running then 5000
      else if tick_duration_us = 0 then 1000
      else
        let tick_us = f_of_int (uint tick_duration_us);
            remaining_sim_us = fmax (fsub tick_us (remainder_us e)) (Fin 0);
            wall_us = (if flt (Fin 0) (te_speed e) then fceil (fdiv remaining_sim_us (te_speed e))
                       else fceil tick_us);
            clamped_wall_us = fclamp MIN_POLL_DELAY_US MAX_POLL_DELAY_US wall_us
        in f_as_u64 clamped_wall_us)"

definition advance_ticks :: "u64 \<Rightarrow> time_engine \<Rightarrow> time_engine" where
  "advance_ticks ticks e = e\<lparr>elapsed_ticks := sat_add (elapsed_ticks e) ticks\<rparr>"

section \<open>The engine as a state machine\<close>

inductive time_step :: "time_engine \<Rightarrow> time_engine \<Rightarrow> bool" where
  ts_reset: "time_step e (te_reset e)"
| ts_start: "time_step e (snd (te_start now e))"
| ts_pause: "time_step e (snd (te_pause e))"
| ts_speed: "time_step e (snd (te_set_speed v e))"
| ts_due: "time_step e (snd (tick_realtime_due tick now e))"
| ts_advance: "time_step e (advance_ticks n e)"

inductive time_reach :: "time_engine \<Rightarrow> bool" where
  tr_init: "time_reach engine_default"
| tr_step: "time_reach e \<Longrightarrow> time_step e e' \<Longrightarrow> time_reach e'"

inductive_cases time_stepE: "time_step e e'"

definition engine_inv :: "time_engine \<Rightarrow> bool" where
  "engine_inv e =
     ((te_state e = Running \<longleftrightarrow> last_wallclock e \<noteq> None) \<and>
      (te_state e = Paused \<longrightarrow> remainder_us e = Fin 0) \<and>
      is_finite (te_speed e) \<and> flt (Fin 0) (te_speed e))"

lemma fle_false_pos: "is_finite v \<Longrightarrow> \<not> fle v (Fin 0) \<Longrightarrow> flt (Fin 0) v"
  by (cases v) (auto simp: is_finite_def fle_def flt_def feq_def is_inf_def fval_def)

lemma engine_inv_default: "engine_inv engine_default"
  by (simp add: engine_inv_def engine_default_def is_finite_def flt_def fval_def)

lemma engine_inv_due: "engine_inv e \<Longrightarrow> engine_inv (snd (tick_realtime_due tick now e))"
  by (auto simp: tick_realtime_due_def Let_def engine_inv_def split: option.splits)

lemma engine_inv_speed: "engine_inv e \<Longrightarrow> engine_inv (snd (te_set_speed v e))"
  by (auto simp: te_set_speed_def engine_inv_def fle_false_pos)

lemma engine_inv_step: "time_step e e' \<Longrightarrow> engine_inv e \<Longrightarrow> engine_inv e'"
proof (induction rule: time_step.induct)
  case (ts_reset e)
  show ?case by (simp add: te_reset_def engine_inv_default)
qed (auto simp: engine_inv_due engine_inv_speed,
  auto simp: engine_inv_def te_start_def te_pause_def advance_ticks_def)

lemma engine_reach_inv: "time_reach e \<Longrightarrow> engine_inv e"
  by (induction rule: time_reach.induct) (auto intro: engine_inv_default engine_inv_step)

section \<open>Explicit steps\<close>

lemma step_ticks_exact:
  assumes "te_state e = Paused" and "tick \<noteq> 0"
  obtains r where "step_ticks tick d e = Inr r" "requested_us r = d"
    "unat (advanced_ticks r) = unat d div unat tick"
    "unat (advanced_us r) = unat d div unat tick * unat tick"
proof -
  have u: "unat (ucast tick :: u64) = unat tick"
    using unsigned_less[of tick, where ?'a = nat] by (simp add: unsigned_ucast_eq take_bit_nat_eq_self)
  then have nz: "(ucast tick :: u64) \<noteq> 0" using assms(2) by (metis unat_eq_zero)
  have le: "unat d div unat tick * unat tick \<le> unat d" by simp
  have "unat d div unat tick * unat tick < 2 ^ LENGTH(64)"
    by (rule le_less_trans[OF le]) (rule unsigned_less)
  then show ?thesis
    using assms(1) nz
    by (intro that[of "\<lparr>requested_us = d, advanced_ticks = d div ucast tick,
        advanced_us = sat_mul (d div ucast tick) (ucast tick)\<rparr>"])
      (simp_all add: step_ticks_def Let_def unat_div u unat_sat_mul)
qed

section \<open>Polling delay\<close>

lemma fmax_zero_nonneg: "nonneg (fmax x (Fin 0))"
  by (cases x) (auto simp: fmax_def flt_def nonneg_def fval_def)

lemma fdiv_nonneg: "nonneg x \<Longrightarrow> is_finite y \<Longrightarrow> flt (Fin 0) y \<Longrightarrow> nonneg (fdiv x y)"
  by (cases x; cases y)
    (auto simp: fdiv_def flt_def is_finite_def is_inf_def fval_def fneg_def is_zero_def finf_def
      fzero_def Let_def nonneg_def[of NZero] nonneg_def[of "Fin _"] nonneg_def[of PInf]
      nonneg_def[of NInf] intro: rnd64_nonneg)

lemma fceil_nonneg: "nonneg x \<Longrightarrow> nonneg (fceil x)"
  by (cases x) (auto simp: fceil_def nonneg_def)

lemma clamp_nonneg:
  "nonneg x \<Longrightarrow> 100 \<le> unat (f_as_u64 (fclamp MIN_POLL_DELAY_US MAX_POLL_DELAY_US x)) \<and>
     unat (f_as_u64 (fclamp MIN_POLL_DELAY_US MAX_POLL_DELAY_US x)) \<le> 1000000"
proof -
  assume x: "nonneg x"
  have "\<exists>q. fclamp MIN_POLL_DELAY_US MAX_POLL_DELAY_US x = Fin q \<and> 100 \<le> q \<and> q \<le> 1000000"
    using x by (cases x)
      (auto simp: nonneg_def fclamp_def MIN_POLL_DELAY_US_def MAX_POLL_DELAY_US_def
        flt_def[of PInf] flt_def[of NZero] flt_def[of _ PInf] fval_def not_less)
  then obtain q where q: "fclamp MIN_POLL_DELAY_US MAX_POLL_DELAY_US x = Fin q"
    "100 \<le> q" "q \<le> 1000000" by blast
  then have f: "100 \<le> \<lfloor>q\<rfloor>" "\<lfloor>q\<rfloor> \<le> 1000000" by linarith+
  then have "unat (word_of_int \<lfloor>q\<rfloor> :: u64) = nat \<lfloor>q\<rfloor>"
    by (simp add: unat_eq_nat_uint uint_word_of_int)
  moreover have "f_as_u64 (Fin q) = word_of_int \<lfloor>q\<rfloor>" using q f by (simp add: f_as_u64_def)
  ultimately have "unat (f_as_u64 (Fin q)) = nat \<lfloor>q\<rfloor>" by (simp only:)
  then show ?thesis unfolding q(1) using f by (intro conjI) linarith+
qed

lemma poll_delay_running:
  assumes "engine_inv e" and "te_state e = Running" and "tick \<noteq> 0"
  shows "100 \<le> unat (realtime_poll_delay tick e) \<and> unat (realtime_poll_delay tick e) \<le> 1000000"
  using assms fmax_zero_nonneg
  by (auto simp: realtime_poll_delay_def Let_def engine_inv_def
      intro!: clamp_nonneg[THEN conjunct1] clamp_nonneg[THEN conjunct2] fceil_nonneg fdiv_nonneg)

section \<open>Wall-clock accounting\<close>

lemma rnd64_error:
  assumes "pow2 (- 1022) \<le> q" and "q < pow2 1000"
  obtains m where "rnd64 s q = Fin m" "\<bar>m - q\<bar> \<le> q / 2 ^ 53"
proof -
  have q0: "0 < q" using assms(1) pow2_pos[of "- 1022"] by linarith
  define e where "e = max (flog2 \<bar>q\<bar> - (53 - 1)) (- 1074)"
  have "- 1022 < flog2 q + 1"
    using assms(1) flog2_spec[OF q0] pow2_less_iff[of "- 1022" "flog2 q + 1"] by linarith
  then have e: "e = flog2 q - 52" using q0 by (simp add: e_def)
  have pe: "pow2 e = pow2 (flog2 q) / 2 ^ 52"
    using pow2_diff[of "flog2 q" "int 52"] pow2_of_nat[of 52] by (simp add: e)
  define m where "m = of_int (round_even (q / pow2 e)) * pow2 e"
  have "\<bar>m - q\<bar> = \<bar>of_int (round_even (q / pow2 e)) - q / pow2 e\<bar> * pow2 e"
  proof -
    have "m - q = (of_int (round_even (q / pow2 e)) - q / pow2 e) * pow2 e"
      by (simp add: m_def left_diff_distrib)
    then show ?thesis by (simp add: abs_mult)
  qed
  also have "\<dots> \<le> 1 / 2 * pow2 e"
    by (rule mult_right_mono[OF round_even_error]) (simp add: less_imp_le)
  also have "\<dots> \<le> q / 2 ^ 53"
    using flog2_spec[OF q0] by (simp add: pe)
  finally have err: "\<bar>m - q\<bar> \<le> q / 2 ^ 53" .
  have "q / 2 ^ 53 < q" using q0 by simp
  then have "0 < m" using err q0 by linarith
  moreover have "m < pow2 1024"
  proof -
    have "m \<le> 2 * q" using err \<open>q / 2 ^ 53 < q\<close> by linarith
    also have "\<dots> < 2 * pow2 1000" using assms(2) by simp
    also have "\<dots> = pow2 1001" using pow2_add[of 1 1000] by (simp add: pow2_def)
    also have "\<dots> < pow2 1024" by (rule pow2_strict_mono) simp
    finally show ?thesis .
  qed
  ultimately have "rnd64 s q = Fin m"
    unfolding rnd64_def rnd_fmt_def Let_def e_def[symmetric] using q0 m_def[symmetric]
    by (auto simp: abs_of_pos not_le)
  then show ?thesis using err by (rule that)
qed


lemma ffloor_rnd_div:
  assumes a: "0 \<le> a" "a < 2 ^ 53" and b: "0 < b" "b < 2 ^ 32"
  shows "ffloor (rnd64 False (of_int a / of_int b)) = Fin (of_int (a div b))"
proof (cases "b dvd a")
  case True
  then obtain k where k: "a = b * k" by (auto elim: dvdE)
  then have "0 \<le> k" using a(1) b(1) by (simp add: zero_le_mult_iff)
  moreover have "k \<le> a" using k b(1) \<open>0 \<le> k\<close> mult_right_mono[of 1 b k] by simp
  ultimately have "\<bar>k\<bar> \<le> 2 ^ 53" using a(2) by simp
  then show ?thesis using k b(1) by (simp add: rnd64_int ffloor_def fzero_def)
next
  case False
  let ?q = "of_int a / of_int b :: rat"
  have apos: "0 < a" using False a(1) by (cases "a = 0") auto
  have q: "0 < ?q" using apos b(1) by simp
  have "pow2 (- 1022) \<le> pow2 (- 32)" by (rule pow2_mono) simp
  also have "\<dots> \<le> ?q"
  proof -
    have "of_int b \<le> (2 ^ 32 :: rat)" using b(2) by (metis less_imp_le of_int_le_iff of_int_numeral of_int_power)
    moreover have "(1::rat) \<le> of_int a" using apos by simp
    ultimately have "of_int b * 1 \<le> 2 ^ 32 * (of_int a :: rat)" using b(1) by (intro mult_mono) simp_all
    then show ?thesis using b(1) by (simp add: pow2_def field_simps)
  qed
  finally have lo: "pow2 (- 1022) \<le> ?q" .
  have "?q \<le> of_int a" using b(1) apos by (simp add: divide_le_eq mult_le_cancel_left1)
  also have "\<dots> \<le> (2 ^ 53 :: rat)" using a(2) by (metis less_imp_le of_int_le_iff of_int_numeral of_int_power)
  also have "\<dots> < pow2 1000" using pow2_strict_mono[of 53 1000] pow2_of_nat[of 53] by simp
  finally have hi: "?q < pow2 1000" .
  obtain m where m: "rnd64 False ?q = Fin m" and err: "\<bar>m - ?q\<bar> \<le> ?q / 2 ^ 53"
    using rnd64_error[OF lo hi] .
  define k r where "k = a div b" and "r = a mod b"
  have r: "1 \<le> r" "r + 1 \<le> b" 
  proof -
    have "r \<noteq> 0" using False by (simp add: r_def dvd_eq_mod_eq_0)
    moreover have "0 \<le> r" "r < b" using b(1) by (simp_all add: r_def)
    ultimately show "1 \<le> r" "r + 1 \<le> b" by linarith+
  qed
  have qk: "?q = of_int k + of_int r / of_int b"
  proof -
    have "a = b * k + r" by (simp add: k_def r_def)
    then have "of_int a = (of_int b * of_int k + of_int r :: rat)" by (metis of_int_add of_int_mult)
    then show ?thesis using b(1) by (simp add: field_simps)
  qed
  have r1: "1 / of_int b \<le> (of_int r / of_int b :: rat)"
    using r(1) b(1) by (intro divide_right_mono) simp_all
  have "(of_int r + 1 :: rat) \<le> of_int b" using r(2) by (metis of_int_1 of_int_add of_int_le_iff)
  then have r2: "of_int r / of_int b + 1 / of_int b \<le> (1 :: rat)"
    using b(1) by (simp add: field_simps)
  have strict: "?q / 2 ^ 53 < 1 / of_int b"
  proof -
    have "(of_int a :: rat) < 2 ^ 53" using a(2) by (metis of_int_less_iff of_int_numeral of_int_power)
    then show ?thesis using b(1) by (simp add: field_simps)
  qed
  have "of_int k < m" "m < of_int k + 1"
    using err strict qk r1 r2 by linarith+
  then have "\<lfloor>m\<rfloor> = k" by linarith
  then show ?thesis by (simp add: m ffloor_def k_def)
qed


lemma fin_int_ops:
  "\<bar>i + j\<bar> \<le> 2 ^ 53 \<Longrightarrow> fadd (Fin (of_int i)) (Fin (of_int j)) = Fin (of_int (i + j))"
  "\<bar>i * j\<bar> \<le> 2 ^ 53 \<Longrightarrow> 0 \<le> i \<Longrightarrow> 0 \<le> j \<Longrightarrow> fmul (Fin (of_int i)) (Fin (of_int j)) = Fin (of_int (i * j))"
  "\<bar>i - j\<bar> \<le> 2 ^ 53 \<Longrightarrow> 0 < j \<Longrightarrow> fsub (Fin (of_int i)) (Fin (of_int j)) = Fin (of_int (i - j))"
proof -
  show add: "\<bar>i + j\<bar> \<le> 2 ^ 53 \<Longrightarrow> fadd (Fin (of_int i)) (Fin (of_int j)) = Fin (of_int (i + j))" for i j
  proof -
    assume "\<bar>i + j\<bar> \<le> 2 ^ 53"
    from rnd64_int[OF this, of False] show ?thesis
      by (auto simp: fadd_def is_inf_def is_zero_def fneg_def fzero_def fval_def)
  qed
  show "\<bar>i * j\<bar> \<le> 2 ^ 53 \<Longrightarrow> 0 \<le> i \<Longrightarrow> 0 \<le> j \<Longrightarrow> fmul (Fin (of_int i)) (Fin (of_int j)) = Fin (of_int (i * j))"
    using rnd64_int[of "i * j" False]
    by (auto simp: fmul_def is_inf_def fneg_def fval_def fzero_def Let_def)
  show "\<bar>i - j\<bar> \<le> 2 ^ 53 \<Longrightarrow> 0 < j \<Longrightarrow> fsub (Fin (of_int i)) (Fin (of_int j)) = Fin (of_int (i - j))"
    using add[of i "- j"] by (simp add: fsub_def fminus_def)
qed

lemma as_secs_whole: "n \<le> 2 ^ 53 \<Longrightarrow> as_secs_f64 (n * 10 ^ 9) = Fin (of_int (int n))"
proof -
  assume n: "n \<le> 2 ^ 53"
  have "f_of_int (int n) = Fin (of_int (int n))" using n by (intro f_of_int_exact) simp
  moreover have "fdiv (f_of_int 0) (f_of_int (10 ^ 9)) = Fin (of_int 0)"
    by (simp add: f_of_int_exact fdiv_def is_inf_def is_zero_def fneg_def fval_def fzero_def Let_def)
  ultimately show ?thesis
    using n fin_int_ops(1)[of "int n" 0] by (simp add: as_secs_f64_def)
qed

lemma due_whole_seconds:
  assumes e: "te_state e = Running" "te_speed e = Fin 1" "last_wallclock e = Some prev"
    "remainder_us e = Fin (of_int r)" "0 \<le> r"
    and tick: "tick \<noteq> 0" and small: "r + int n * 1000000 < 2 ^ 53"
  shows "tick_realtime_due tick (prev + n * 10 ^ 9) e =
    (of_int ((r + int n * 1000000) div uint tick),
     e\<lparr>last_wallclock := Some (prev + n * 10 ^ 9),
       remainder_us := Fin (of_int ((r + int n * 1000000) mod uint tick))\<rparr>)"
proof -
  define a b where "a = r + int n * 1000000" and "b = uint tick"
  note ab = a_def[symmetric] b_def[symmetric]
  have b: "0 < b" "b < 2 ^ 32"
    using tick unsigned_less[of tick, where ?'a = int]
    by (auto simp: b_def word_neq_0_conv word_less_def)
  have small: "a < 2 ^ 53" and a: "0 \<le> a" using small e(5) by (simp_all add: a_def)
  have n: "n \<le> 2 ^ 53" "int n * 1000000 \<le> 2 ^ 53" using small e(5) by (auto simp: a_def)
  have "fmul (fmul (as_secs_f64 (n * 10 ^ 9)) (Fin 1000000)) (Fin 1) = Fin (of_int (int n * 1000000))"
    unfolding as_secs_whole[OF n(1)]
    using fin_int_ops(2)[of "int n" 1000000] fin_int_ops(2)[of "int n * 1000000" 1] n by simp
  then have rem: "fadd (remainder_us e) (fmul (fmul (as_secs_f64 (n * 10 ^ 9)) (Fin 1000000)) (te_speed e))
      = Fin (of_int a)"
    using fin_int_ops(1)[of r "int n * 1000000"] small a e by (simp add: a_def)
  have tu: "f_of_int b = Fin (of_int b)" using b by (intro f_of_int_exact) simp
  have div: "ffloor (fdiv (Fin (of_int a)) (Fin (of_int b))) = Fin (of_int (a div b))"
    using ffloor_rnd_div[of a b] b small a
    by (auto simp: fdiv_def is_inf_def is_zero_def fneg_def fval_def Let_def fzero_def ffloor_def)
  have q: "0 \<le> a div b" "a div b \<le> a"
    using b a zdiv_mono2[of a 1 b] by (simp_all add: pos_imp_zdiv_nonneg_iff)
  let ?k = "a div b"
  have kb: "?k * b \<le> a" "0 \<le> ?k * b" "a - ?k * b = a mod b"
  proof -
    have "?k * b + a mod b = a" by simp
    moreover have "0 \<le> a mod b" using b(1) by simp
    ultimately show "?k * b \<le> a" "a - ?k * b = a mod b" by linarith+
    show "0 \<le> ?k * b" using b(1) q(1) by simp
  qed
  have "(2::int) ^ 53 < 2 ^ 64" by simp
  then have k64: "?k < 2 ^ 64" using q(2) small by linarith
  have ticks: "f_as_u64 (Fin (of_int ?k)) = of_int ?k"
    using q(1) k64 by (simp add: f_as_u64_def)
  have uk: "uint (of_int ?k :: u64) = ?k"
    using q(1) k64 by (simp add: uint_word_of_int)
  have k0: "(of_int ?k :: u64) = 0 \<longleftrightarrow> ?k = 0" using uk by (metis of_int_0 unsigned_0)
  have pos: "\<not> fle (Fin (of_int b)) (Fin 0)" using b(1) by simp
  show ?thesis
  proof (cases "?k = 0")
    case True
    then have "a mod b = a" using kb(3) by simp
    then show ?thesis
      using e rem tu div True pos ticks k0
      by (simp add: tick_realtime_due_def Let_def ab)
  next
    case False
    have "fmul (Fin (of_int ?k)) (Fin (of_int b)) = Fin (of_int (?k * b))"
      using q b kb small by (intro fin_int_ops(2)) auto
    moreover have "fsub (Fin (of_int a)) (Fin (of_int (?k * b))) = Fin (of_int (a - ?k * b))"
    proof (rule fin_int_ops(3))
      have "0 \<le> a mod b" "a mod b \<le> a" using b(1) kb a q by linarith+
      then show "\<bar>a - ?k * b\<bar> \<le> 2 ^ 53" using small kb(3) by linarith
      show "0 < ?k * b" using q(1) False b(1) by (simp add: zero_less_mult_iff)
    qed
    moreover have "f_of_int ?k = Fin (of_int ?k)"
      using q small by (intro f_of_int_exact) simp
    ultimately show ?thesis
      using e rem tu div False pos ticks k0 uk kb(3)
      by (simp add: tick_realtime_due_def Let_def ab)
  qed
qed


section \<open>Properties\<close>

text \<open>
  C16: in every state the engine can reach, it has a last clock reading exactly while it runs, no
  remainder while it is paused, and a speed that is a finite positive number.
\<close>

theorem time_engine_invariant:
  assumes "time_reach e"
  shows "(te_state e = Running \<longleftrightarrow> last_wallclock e \<noteq> None) \<and>
    (te_state e \<noteq> Paused \<or> remainder_us e = Fin 0) \<and>
    is_finite (te_speed e) \<and> flt (Fin 0) (te_speed e)"
  using engine_reach_inv[OF assms] by (auto simp: engine_inv_def)

definition demo_engine :: time_engine where
  "demo_engine = engine_default\<lparr>te_state := Running, last_wallclock := Some 5\<rparr>"

lemma demo_engine_reach: "time_reach demo_engine"
  using tr_step[OF tr_init ts_start[of engine_default 5]]
  by (simp add: demo_engine_def te_start_def engine_default_def)

theorem time_engine_invariant_witness: "last_wallclock demo_engine \<noteq> None"
  using time_engine_invariant[OF demo_engine_reach] by (simp add: demo_engine_def)

text \<open>
  An explicit step of a paused engine with a non-zero tick advances by the whole ticks that
  fit the requested duration; the time it reports never saturates and falls short of the request
  by less than one tick. A running engine refuses to step.
\<close>

theorem step_ticks_floor:
  assumes "tick \<noteq> 0"
  shows "case step_ticks tick d e of
      Inl err \<Rightarrow> err = StepWhileRunning \<and> te_state e = Running
    | Inr r \<Rightarrow> te_state e = Paused \<and> requested_us r = d \<and>
        unat (advanced_ticks r) = unat d div unat tick \<and>
        unat (advanced_us r) = unat (advanced_ticks r) * unat tick \<and>
        unat (advanced_us r) \<le> unat d \<and> unat d < unat (advanced_us r) + unat tick"
proof (cases "te_state e")
  case Paused
  have "0 < unat tick" using assms by (simp add: unat_gt_0)
  then have "unat d < unat d div unat tick * unat tick + unat tick"
    by (metis add.commute dividend_less_div_times)
  moreover obtain r where "step_ticks tick d e = Inr r" "requested_us r = d"
    "unat (advanced_ticks r) = unat d div unat tick"
    "unat (advanced_us r) = unat d div unat tick * unat tick"
    by (rule step_ticks_exact[OF Paused assms])
  ultimately show ?thesis by (simp add: Paused)
next
  case Running
  then show ?thesis by (simp add: step_ticks_def)
qed

theorem step_ticks_floor_witness:
  "is_ok (step_ticks 20 50 engine_default) \<and> unat (50 :: u64) div unat (20 :: u32) = 2"
  using step_ticks_floor[where tick = 20 and d = 50 and e = engine_default]
  by (simp add: engine_default_def step_ticks_def Let_def)

text \<open>
  In every reachable running state with a non-zero tick, the delay until the next poll is
  between 100 microseconds and one second, whatever the speed and the remainder are.
\<close>

theorem poll_delay_bounds:
  assumes "time_reach e" and "te_state e = Running" and "tick \<noteq> 0"
  shows "100 \<le> unat (realtime_poll_delay tick e) \<and> unat (realtime_poll_delay tick e) \<le> 1000000"
  by (rule poll_delay_running[OF engine_reach_inv[OF assms(1)] assms(2,3)])

theorem poll_delay_bounds_witness: "100 \<le> unat (realtime_poll_delay 1000 demo_engine)"
  using poll_delay_bounds[OF demo_engine_reach, of 1000] by (simp add: demo_engine_def)



end
