(* ===== verification/Shared_Region.thy ===== *)
theory Shared_Region
  imports Sim_Types
begin

text \<open>
  The memory-mapped region that publishes a shared channel from one writer to other processes:
  \<open>shared/mod.rs\<close>. First the operations run alone: \<open>open\<close>, \<open>publish\<close>, \<open>read_snapshot\<close> with its 32
  attempts. Then the seqlock as a state machine, in which the writer's stores and the reader's loads
  interleave word by word: a raw slot is four words (identifier, type tag, the value's type tag and
  its data), each copied on its own. Memory is sequentially consistent in the model; the
  acquire and release orderings of the generation counter are not modelled below that. The file
  system enters as the state of the file that \<open>open\<close> finds; the other I/O errors are not modelled.
\<close>

section \<open>The region\<close>

definition WRITER_NAME_LEN :: nat where "WRITER_NAME_LEN = 64"
definition MAX_SNAPSHOT_SPINS :: nat where "MAX_SNAPSHOT_SPINS = 32"

record shared_header =
  generation :: u64
  hdr_slot_count :: u32
  initialized :: u32
  writer_session :: "u8 list"

record shared_region =
  rg_header :: shared_header
  rg_storage :: "sim_shared_slot_raw list"
  rg_slot_count :: nat

record region_file =
  file_len :: nat
  file_header :: shared_header
  file_storage :: "sim_shared_slot_raw list"

datatype shared_open_error =
  NotInitializedYet
| SizeMismatch nat nat
| RegionSlotCount u32 nat

datatype publish_error =
  PublishCount nat nat
| PublishSlotId u32 nat

datatype snapshot_invalid = InvalidSlot nat shared_slot_decode_error | WrongSlotId nat u32

datatype snapshot_error = Busy nat | Uninitialized | Invalid snapshot_invalid

definition header_size :: nat where "header_size = 8 + 4 + 4 + WRITER_NAME_LEN"
definition raw_slot_size :: nat where "raw_slot_size = 24"

definition byte_len :: "nat \<Rightarrow> nat" where
  "byte_len n_slots = header_size + n_slots * raw_slot_size"

definition encode_writer :: "string \<Rightarrow> u8 list" where
  "encode_writer name =
     (let len = min (length name) (WRITER_NAME_LEN - 1)
      in map (\<lambda>c. of_nat (byte c)) (take len name) @ replicate (WRITER_NAME_LEN - len) 0)"

definition zero_slot :: sim_shared_slot_raw where
  "zero_slot = \<lparr>sr_slot_id = 0, sr_type = 0, sr_value = \<lparr>vr_type = 0, vr_data = 0\<rparr>\<rparr>"

definition fresh_header :: "nat \<Rightarrow> string \<Rightarrow> shared_header" where
  "fresh_header n_slots writer =
     \<lparr>generation = 0, hdr_slot_count = of_nat n_slots, initialized = 0,
      writer_session = encode_writer writer\<rparr>"

definition region_open ::
    "region_file option \<Rightarrow> nat \<Rightarrow> string \<Rightarrow> bool \<Rightarrow> shared_open_error + shared_region" where
  \<comment> \<open>\<open>None\<close>: there is no file at the path. A file that is created is empty.\<close>
  "region_open file n_slots writer initialize =
     (let expected_len = byte_len n_slots;
          current_len = (case file of None \<Rightarrow> 0 | Some f \<Rightarrow> file_len f);
          fresh = \<lparr>rg_header = fresh_header n_slots writer,
                   rg_storage = replicate n_slots zero_slot, rg_slot_count = n_slots\<rparr>
      in if \<not> initialize \<and> file = None then Inl NotInitializedYet
         else if current_len = 0 then (if \<not> initialize then Inl NotInitializedYet else Inr fresh)
         else if current_len \<noteq> expected_len then Inl (SizeMismatch current_len expected_len)
         else if initialize then Inr fresh
         else case file of
           None \<Rightarrow> Inl NotInitializedYet
         | Some f \<Rightarrow>
             if unat (hdr_slot_count (file_header f)) \<noteq> n_slots
             then Inl (RegionSlotCount (hdr_slot_count (file_header f)) n_slots)
             else Inr \<lparr>rg_header = file_header f, rg_storage = file_storage f,
                       rg_slot_count = n_slots\<rparr>)"

fun publish_check :: "nat \<Rightarrow> sim_shared_slot list \<Rightarrow> publish_error + unit" where
  "publish_check expected [] = Inr ()"
| "publish_check expected (slot # slots) =
     (if unat (slot_id slot) \<noteq> expected then Inl (PublishSlotId (slot_id slot) expected)
      else publish_check (Suc expected) slots)"

definition publish_guard :: "nat \<Rightarrow> sim_shared_slot list \<Rightarrow> publish_error + unit" where
  "publish_guard n_slots slots =
     (if length slots \<noteq> n_slots then Inl (PublishCount (length slots) n_slots)
      else publish_check 0 slots)"

definition set_generation :: "u64 \<Rightarrow> shared_region \<Rightarrow> shared_region" where
  "set_generation v r = r\<lparr>rg_header := (rg_header r)\<lparr>generation := v\<rparr>\<rparr>"

fun store_slots ::
    "nat \<Rightarrow> sim_shared_slot list \<Rightarrow> sim_shared_slot_raw list \<Rightarrow> sim_shared_slot_raw list" where
  "store_slots idx [] storage = storage"
| "store_slots idx (slot # slots) storage =
     store_slots (Suc idx) slots (storage[idx := slot_to_raw slot])"

definition publish :: "sim_shared_slot list \<Rightarrow> (shared_region, publish_error, unit) act" where
  "publish slots r =
     (case publish_guard (rg_slot_count r) slots of
        Inl e \<Rightarrow> (Inl e, r)
      | Inr _ \<Rightarrow>
          let gen = generation (rg_header r);
              r1 = set_generation (gen + 1) r;
              r2 = r1\<lparr>rg_storage := store_slots 0 slots (rg_storage r1)\<rparr>;
              r3 = r2\<lparr>rg_header := (rg_header r2)\<lparr>initialized := 1\<rparr>\<rparr>
          in (Inr (), set_generation (gen + 2) r3))"

definition decode_slot :: "nat \<Rightarrow> sim_shared_slot_raw \<Rightarrow> snapshot_error + sim_shared_slot" where
  "decode_slot expected raw =
     res_bind (map_err (\<lambda>e. Invalid (InvalidSlot expected e)) (slot_try_from_raw raw)) (\<lambda>decoded.
       if unat (slot_id decoded) \<noteq> expected then Inl (Invalid (WrongSlotId expected (slot_id decoded)))
       else Inr decoded)"

definition read_attempt :: "shared_region \<Rightarrow> (snapshot_error + sim_shared_slot list) option" where
  \<comment> \<open>One pass over an undisturbed region; \<open>None\<close> is \<open>continue\<close>.\<close>
  "read_attempt r =
     (let before = generation (rg_header r) in
      if odd (unat before) then None
      else if initialized (rg_header r) = 0 then Some (Inl Uninitialized)
      else Some (map_res (\<lambda>(i, raw). decode_slot i raw)
        (enumerate 0 (take (rg_slot_count r) (rg_storage r)))))"

fun read_spins :: "nat \<Rightarrow> shared_region \<Rightarrow> snapshot_error + sim_shared_slot list" where
  "read_spins 0 r = Inl (Busy MAX_SNAPSHOT_SPINS)"
| "read_spins (Suc n) r = (case read_attempt r of None \<Rightarrow> read_spins n r | Some res \<Rightarrow> res)"

definition read_snapshot :: "shared_region \<Rightarrow> snapshot_error + sim_shared_slot list" where
  "read_snapshot r = read_spins MAX_SNAPSHOT_SPINS r"

section \<open>The operations run alone\<close>

definition region_inv :: "shared_region \<Rightarrow> bool" where
  "region_inv r = (length (rg_storage r) = rg_slot_count r \<and> even (unat (generation (rg_header r))))"

definition dense :: "sim_shared_slot list \<Rightarrow> bool" where
  "dense slots = (map (\<lambda>s. unat (slot_id s)) slots = [0..<length slots])"

lemma publish_check_ok:
  "publish_check k slots = Inr u \<longleftrightarrow> map (\<lambda>s. unat (slot_id s)) slots = [k..<k + length slots]"
  by (induction k slots rule: publish_check.induct) (auto simp: upt_conv_Cons simp del: upt_Suc)

lemma publish_guard_ok:
  "publish_guard n slots = Inr u \<longleftrightarrow> length slots = n \<and> dense slots"
  by (simp add: publish_guard_def publish_check_ok dense_def)

lemma store_slots_eq:
  "length storage = idx + length slots \<Longrightarrow>
   store_slots idx slots storage = take idx storage @ map slot_to_raw slots"
proof (induction idx slots storage rule: store_slots.induct)
  case (2 idx slot slots storage)
  then have "store_slots (Suc idx) slots (storage[idx := slot_to_raw slot]) =
      take (Suc idx) (storage[idx := slot_to_raw slot]) @ map slot_to_raw slots" by simp
  moreover have "take (Suc idx) (storage[idx := slot_to_raw slot]) =
      take idx storage @ [slot_to_raw slot]"
    using 2(2) by (simp add: take_Suc_conv_app_nth)
  ultimately show ?case by simp
qed simp

lemma even_unat_add2: "even (unat (g :: u64)) \<Longrightarrow> even (unat (g + 2))"
  unfolding unat_word_ariths by (subst dvd_mod_iff) simp_all

lemma slot_decode_enc: "slot_try_from_raw (slot_to_raw s) = Inr s"
  using slot_codec.dec_enc[of s] by (cases "slot_try_from_raw (slot_to_raw s)") simp_all

lemma decode_published:
  "dense slots \<Longrightarrow> i < length slots \<Longrightarrow> decode_slot i (slot_to_raw (slots ! i)) = Inr (slots ! i)"
proof -
  assume d: "dense slots" and i: "i < length slots"
  have "map (\<lambda>s. unat (slot_id s)) slots ! i = [0..<length slots] ! i"
    using d by (simp add: dense_def)
  then have "unat (slot_id (slots ! i)) = i" using i by simp
  then show ?thesis by (simp add: decode_slot_def slot_decode_enc)
qed

lemma map_res_enumerate:
  "(\<And>i. i < length xs \<Longrightarrow> f i (xs ! i) = Inr (ys ! i)) \<Longrightarrow> length xs = length ys \<Longrightarrow>
   map_res (\<lambda>(i, x). f i x) (enumerate 0 xs) = Inr ys"
  by (auto simp: map_res_Inr list_all2_conv_all_nth nth_enumerate_eq)

lemma read_attempt_stable:
  "region_inv r \<Longrightarrow> read_snapshot r =
     (if initialized (rg_header r) = 0 then Inl Uninitialized
      else map_res (\<lambda>(i, raw). decode_slot i raw) (enumerate 0 (rg_storage r)))"
  by (simp add: read_snapshot_def MAX_SNAPSHOT_SPINS_def read_attempt_def region_inv_def
      eval_nat_numeral Let_def)

lemma publish_ok:
  assumes "region_inv r" "dense slots" "length slots = rg_slot_count r"
  obtains r' where "publish slots r = (Inr (), r')" "region_inv r'" "initialized (rg_header r') = 1"
    "rg_storage r' = map slot_to_raw slots" "rg_slot_count r' = rg_slot_count r"
    "generation (rg_header r') = generation (rg_header r) + 2"
proof -
  let ?g = "generation (rg_header r)"
  have g: "publish_guard (rg_slot_count r) slots = Inr ()"
    using assms publish_guard_ok by simp
  have st: "store_slots 0 slots (rg_storage r) = map slot_to_raw slots"
    using assms by (simp add: store_slots_eq region_inv_def)
  show ?thesis
    by (rule that[of "r\<lparr>rg_storage := map slot_to_raw slots,
        rg_header := (rg_header r)\<lparr>generation := ?g + 2, initialized := 1\<rparr>\<rparr>"])
      (use assms g st even_unat_add2 in
        \<open>simp_all add: publish_def set_generation_def Let_def region_inv_def\<close>)
qed

lemma publish_read: 
  assumes "region_inv r" "publish slots r = (Inr (), r')"
  shows "read_snapshot r' = Inr slots \<and> region_inv r'"
proof -
  have d: "length slots = rg_slot_count r \<and> dense slots"
    using assms(2) publish_guard_ok by (auto simp: publish_def split: sum.splits)
  then obtain q where "publish slots r = (Inr (), q)" "region_inv q" "initialized (rg_header q) = 1"
      "rg_storage q = map slot_to_raw slots"
    using publish_ok[OF assms(1)] by metis
  with assms(2) d show ?thesis
    by (auto simp: read_attempt_stable intro!: map_res_enumerate decode_published)
qed

section \<open>Writer and reader interleaved\<close>

text \<open>
  One writer and one reader over the words of the slots. \<open>sq_gen\<close> and \<open>sq_init\<close> are the header
  fields, \<open>sq_mem\<close> the words; \<open>sq_pubs\<close> records the snapshots whose publication ended, the latest
  first. The events are the loads and stores of \<open>publish\<close> and \<open>read_snapshot\<close> in program order;
  \<open>EvReopen\<close> is a writer that opens the region again with \<open>initialize\<close>.
\<close>

definition raw_cells :: "sim_shared_slot_raw \<Rightarrow> u64 list" where
  "raw_cells r = [ucast (sr_slot_id r), ucast (sr_type r), ucast (vr_type (sr_value r)),
     vr_data (sr_value r)]"

definition cells_raw :: "u64 list \<Rightarrow> sim_shared_slot_raw" where
  "cells_raw c = \<lparr>sr_slot_id = ucast (c ! 0), sr_type = ucast (c ! 1),
     sr_value = \<lparr>vr_type = ucast (c ! 2), vr_data = c ! 3\<rparr>\<rparr>"

definition cells_of :: "sim_shared_slot list \<Rightarrow> u64 list" where
  "cells_of slots = concat (map (\<lambda>s. raw_cells (slot_to_raw s)) slots)"

datatype writer_pc =
  WIdle
| WStore u64 "sim_shared_slot list" nat  \<comment> \<open>generation read, slots, words stored\<close>
| WFinish u64 "sim_shared_slot list"

datatype reader_pc =
  RSpin nat  \<comment> \<open>attempts used\<close>
| RCheck nat u64
| RLoad nat u64 "sim_shared_slot list" "u64 list"  \<comment> \<open>slots decoded, words of the next one\<close>
| RDone "snapshot_error + sim_shared_slot list"

record seqlock =
  sq_gen :: u64
  sq_init :: bool
  sq_mem :: "u64 list"
  sq_slots :: nat
  sq_writer :: writer_pc
  sq_reader :: reader_pc
  sq_pubs :: "sim_shared_slot list list"

datatype seq_event =
  EvPublish "sim_shared_slot list"
| EvWrite
| EvRead
| EvNewRead
| EvReopen

definition writer_step :: "seqlock \<Rightarrow> seqlock" where
  "writer_step s = (case sq_writer s of
      WIdle \<Rightarrow> s
    | WStore g slots k \<Rightarrow>
        if k < length (cells_of slots)
        then s\<lparr>sq_mem := (sq_mem s)[k := cells_of slots ! k], sq_writer := WStore g slots (Suc k)\<rparr>
        else s\<lparr>sq_init := True, sq_writer := WFinish g slots\<rparr>
    | WFinish g slots \<Rightarrow>
        s\<lparr>sq_gen := g + 2, sq_writer := WIdle, sq_pubs := slots # sq_pubs s\<rparr>)"

definition retry :: "nat \<Rightarrow> reader_pc" where
  "retry a = (if Suc a < MAX_SNAPSHOT_SPINS then RSpin (Suc a)
              else RDone (Inl (Busy MAX_SNAPSHOT_SPINS)))"

definition reader_step :: "seqlock \<Rightarrow> seqlock" where
  "reader_step s = (case sq_reader s of
      RSpin a \<Rightarrow> s\<lparr>sq_reader := if odd (unat (sq_gen s)) then retry a else RCheck a (sq_gen s)\<rparr>
    | RCheck a before \<Rightarrow>
        s\<lparr>sq_reader := if sq_init s then RLoad a before [] [] else RDone (Inl Uninitialized)\<rparr>
    | RLoad a before acc part \<Rightarrow>
        if length acc < sq_slots s then
          (let part' = part @ [sq_mem s ! (4 * length acc + length part)] in
           s\<lparr>sq_reader :=
             if length part' < 4 then RLoad a before acc part'
             else case decode_slot (length acc) (cells_raw part') of
               Inl e \<Rightarrow> RDone (Inl e)
             | Inr d \<Rightarrow> RLoad a before (acc @ [d]) []\<rparr>)
        else s\<lparr>sq_reader := if before = sq_gen s \<and> even (unat (sq_gen s)) then RDone (Inr acc)
                            else retry a\<rparr>
    | RDone _ \<Rightarrow> s)"

fun seq_step :: "seq_event \<Rightarrow> seqlock \<Rightarrow> seqlock option" where
  "seq_step (EvPublish slots) s =
     (if sq_writer s = WIdle \<and> publish_guard (sq_slots s) slots = Inr ()
      then Some (s\<lparr>sq_gen := sq_gen s + 1, sq_writer := WStore (sq_gen s) slots 0\<rparr>) else None)"
| "seq_step EvWrite s = (if sq_writer s = WIdle then None else Some (writer_step s))"
| "seq_step EvRead s = (case sq_reader s of RDone _ \<Rightarrow> None | _ \<Rightarrow> Some (reader_step s))"
| "seq_step EvNewRead s =
     (case sq_reader s of RDone _ \<Rightarrow> Some (s\<lparr>sq_reader := RSpin 0\<rparr>) | _ \<Rightarrow> None)"
| "seq_step EvReopen s =
     (if sq_writer s = WIdle
      then Some (s\<lparr>sq_gen := 0, sq_init := False, sq_mem := replicate (4 * sq_slots s) 0\<rparr>)
      else None)"

definition seq_init :: "nat \<Rightarrow> seqlock" where
  "seq_init n = \<lparr>sq_gen = 0, sq_init = False, sq_mem = replicate (4 * n) 0, sq_slots = n,
     sq_writer = WIdle, sq_reader = RSpin 0, sq_pubs = []\<rparr>"

fun seq_run :: "seq_event list \<Rightarrow> seqlock \<Rightarrow> seqlock option" where
  "seq_run [] s = Some s"
| "seq_run (e # es) s = (case seq_step e s of None \<Rightarrow> None | Some t \<Rightarrow> seq_run es t)"

inductive seq_reach :: "nat \<Rightarrow> seqlock \<Rightarrow> bool" for n where
  sr_init: "seq_reach n (seq_init n)"
| sr_step: "seq_reach n s \<Longrightarrow> e \<noteq> EvReopen \<Longrightarrow> seq_step e s = Some t \<Longrightarrow> seq_reach n t"

lemma length_raw_cells [simp]: "length (raw_cells r) = 4"
  by (simp add: raw_cells_def)

lemma cells_raw_cells: "cells_raw (raw_cells r) = r"
  by (cases r; cases "sr_value r") (simp add: cells_raw_def raw_cells_def)

lemma length_cells_of [simp]: "length (cells_of slots) = 4 * length slots"
  by (induction slots) (simp_all add: cells_of_def)

lemma nth_cells_of:
  "i < length slots \<Longrightarrow> f < 4 \<Longrightarrow> cells_of slots ! (4 * i + f) = raw_cells (slot_to_raw (slots ! i)) ! f"
proof (induction slots arbitrary: i)
  case (Cons s slots)
  then show ?case
    by (cases i) (auto simp: cells_of_def nth_append)
qed simp

definition seq_writer_inv :: "seqlock \<Rightarrow> bool" where
  "seq_writer_inv s =
     (let m = length (sq_pubs s) in
      length (sq_mem s) = 4 * sq_slots s \<and>
      (\<forall>p \<in> set (sq_pubs s). dense p \<and> length p = sq_slots s) \<and>
      (case sq_writer s of
         WIdle \<Rightarrow> sq_gen s = of_nat (2 * m) \<and> (sq_init s \<longrightarrow> sq_pubs s \<noteq> []) \<and>
           (sq_pubs s \<noteq> [] \<longrightarrow> sq_mem s = cells_of (hd (sq_pubs s)))
       | WStore g slots k \<Rightarrow> g = of_nat (2 * m) \<and> sq_gen s = g + 1 \<and>
           dense slots \<and> length slots = sq_slots s \<and> k \<le> length (cells_of slots) \<and>
           take k (sq_mem s) = take k (cells_of slots)
       | WFinish g slots \<Rightarrow> g = of_nat (2 * m) \<and> sq_gen s = g + 1 \<and>
           dense slots \<and> length slots = sq_slots s \<and> sq_mem s = cells_of slots))"

definition seq_reader_inv :: "seqlock \<Rightarrow> bool" where
  "seq_reader_inv s =
     (case sq_reader s of
        RCheck a before \<Rightarrow> \<exists>j \<le> length (sq_pubs s). before = of_nat (2 * j)
      | RLoad a before acc part \<Rightarrow>
          length part < 4 \<and> length acc \<le> sq_slots s \<and>
          (\<exists>j \<le> length (sq_pubs s). before = of_nat (2 * j) \<and>
            (j = length (sq_pubs s) \<and> sq_writer s = WIdle \<longrightarrow>
              sq_pubs s \<noteq> [] \<and> acc = take (length acc) (hd (sq_pubs s)) \<and>
              (length acc < sq_slots s \<longrightarrow> part =
                take (length part) (raw_cells (slot_to_raw (hd (sq_pubs s) ! length acc))))))
      | RDone (Inr slots) \<Rightarrow> slots \<in> set (sq_pubs s)
      | _ \<Rightarrow> True)"


lemma reader_step_frame:
  "sq_gen (reader_step s) = sq_gen s" "sq_init (reader_step s) = sq_init s"
  "sq_mem (reader_step s) = sq_mem s" "sq_slots (reader_step s) = sq_slots s"
  "sq_writer (reader_step s) = sq_writer s" "sq_pubs (reader_step s) = sq_pubs s"
  by (auto simp: reader_step_def Let_def split: reader_pc.splits sum.splits)

lemma writer_inv_frame:
  "sq_gen t = sq_gen s \<Longrightarrow> sq_init t = sq_init s \<Longrightarrow> sq_mem t = sq_mem s \<Longrightarrow> sq_slots t = sq_slots s \<Longrightarrow>
   sq_writer t = sq_writer s \<Longrightarrow> sq_pubs t = sq_pubs s \<Longrightarrow> seq_writer_inv s \<Longrightarrow> seq_writer_inv t"
  unfolding seq_writer_inv_def by (simp only:)

lemma take_store:
  assumes "k < length xs" "length xs = length m" "take k m = take k xs"
  shows "take (Suc k) (m[k := xs ! k]) = take (Suc k) xs"
  using assms by (simp add: take_Suc_conv_app_nth)

lemma writer_inv_write:
  "seq_writer_inv s \<Longrightarrow> sq_writer s \<noteq> WIdle \<Longrightarrow> seq_writer_inv (writer_step s)"
proof (cases "sq_writer s")
  case (WStore g slots k)
  assume "seq_writer_inv s"
  with WStore show ?thesis
    by (auto simp: seq_writer_inv_def writer_step_def Let_def take_store)
next
  case (WFinish g slots)
  assume "seq_writer_inv s"
  with WFinish show ?thesis
    by (auto simp: seq_writer_inv_def writer_step_def Let_def)
qed simp

lemma writer_inv_step:
  assumes "seq_writer_inv s" "e \<noteq> EvReopen" "seq_step e s = Some t"
  shows "seq_writer_inv t"
proof (cases e)
  case (EvPublish slots)
  then show ?thesis using assms
    by (auto simp: seq_writer_inv_def publish_guard_ok Let_def split: if_splits)
next
  case EvWrite
  then show ?thesis using assms writer_inv_write by (auto split: if_splits)
next
  case EvRead
  then have "t = reader_step s" using assms(3) by (auto split: reader_pc.splits)
  then show ?thesis using assms(1) writer_inv_frame[of t s] reader_step_frame[of s] by simp
next
  case EvNewRead
  then show ?thesis using assms writer_inv_frame[of t s] by (auto split: reader_pc.splits)
qed (use assms in simp)

lemma reader_inv_frame:
  "sq_reader t = sq_reader s \<Longrightarrow> sq_slots t = sq_slots s \<Longrightarrow> sq_pubs t = sq_pubs s \<Longrightarrow>
   sq_writer t \<noteq> WIdle \<Longrightarrow> seq_reader_inv s \<Longrightarrow> seq_reader_inv t"
  by (auto simp: seq_reader_inv_def split: reader_pc.splits sum.splits)

lemma reader_inv_write:
  assumes "seq_reader_inv s" "sq_writer s \<noteq> WIdle"
  shows "seq_reader_inv (writer_step s)"
proof (cases "sq_writer s")
  case (WStore g slots k)
  have "sq_writer (writer_step s) \<noteq> WIdle" using WStore by (simp add: writer_step_def)
  moreover have "sq_reader (writer_step s) = sq_reader s" "sq_slots (writer_step s) = sq_slots s"
    "sq_pubs (writer_step s) = sq_pubs s"
    using WStore by (simp_all add: writer_step_def)
  ultimately show ?thesis using assms(1) reader_inv_frame[of "writer_step s" s] by simp
next
  case (WFinish g slots)
  then have w: "sq_reader (writer_step s) = sq_reader s" "sq_slots (writer_step s) = sq_slots s"
    "sq_pubs (writer_step s) = slots # sq_pubs s"
    by (simp_all add: writer_step_def)
  show ?thesis
  proof (cases "sq_reader s")
    case (RCheck a before)
    then show ?thesis using assms(1) by (auto simp: seq_reader_inv_def w intro: le_SucI)
  next
    case (RLoad a before acc part)
    then obtain j where "j \<le> length (sq_pubs s)" "before = of_nat (2 * j)"
      "length part < 4" "length acc \<le> sq_slots s"
      using assms(1) by (auto simp: seq_reader_inv_def)
    moreover from this(1) have "j \<le> Suc (length (sq_pubs s))" "j \<noteq> Suc (length (sq_pubs s))" by simp_all
    ultimately show ?thesis
      unfolding seq_reader_inv_def w RLoad list.size reader_pc.case add_Suc_right add_0_right by blast
  qed (use assms(1) in \<open>auto simp: seq_reader_inv_def w split: sum.splits\<close>)
qed (use assms in simp)

lemma even_gen: "even (unat (of_nat (2 * m) :: u64))"
  unfolding unat_of_nat by (subst dvd_mod_iff) simp_all

lemma odd_gen: "odd (unat (of_nat (2 * m) + 1 :: u64))"
proof -
  have "of_nat (2 * m) + 1 = (of_nat (2 * m + 1) :: u64)" by (simp only: of_nat_add of_nat_1)
  then have "unat (of_nat (2 * m) + 1 :: u64) = (2 * m + 1) mod 2 ^ 64"
    by (simp only: unat_of_nat len_bit0 len_num1) simp
  moreover have "2 dvd (2 * m + 1) mod 2 ^ 64 \<longleftrightarrow> 2 dvd (2 * m + 1)"
    by (rule dvd_mod_iff) simp
  ultimately show ?thesis by simp
qed

lemma gen_inj:
  assumes eq: "(of_nat (2 * j) :: u64) = of_nat (2 * m)" and "j \<le> m" and m: "2 * m < 2 ^ 64"
  shows "j = m"
proof -
  have u: "unat (of_nat k :: u64) = k" if "k < 2 ^ 64" for k
    using that unat_of_nat[of k, where ?'a = 64] by simp
  have "2 * j < 2 ^ 64" using assms(2) m by linarith
  then have "2 * j = 2 * m" using u[of "2 * j"] u[OF m] by (metis eq)
  then show ?thesis by simp
qed

lemma writer_gen_even:
  assumes "seq_writer_inv s" "even (unat (sq_gen s))"
  shows "sq_writer s = WIdle \<and> sq_gen s = of_nat (2 * length (sq_pubs s))"
  using assms odd_gen
  by (cases "sq_writer s") (auto simp: seq_writer_inv_def Let_def)

lemma reader_inv_read:
  assumes w: "seq_writer_inv s" and r: "seq_reader_inv s" and b: "2 * length (sq_pubs s) < 2 ^ 64"
  shows "seq_reader_inv (reader_step s)"
proof (cases "sq_reader s")
  case (RSpin a)
  then show ?thesis
    using writer_gen_even[OF w]
    by (auto simp: reader_step_def seq_reader_inv_def retry_def)
next
  case (RCheck a before)
  then show ?thesis
    using r w by (auto simp: reader_step_def seq_reader_inv_def seq_writer_inv_def Let_def)
next
  case (RDone x)
  then show ?thesis using r by (simp add: reader_step_def)
next
  case (RLoad a before acc part)
  let ?m = "length (sq_pubs s)" and ?i = "length acc" and ?p = "hd (sq_pubs s)"
  obtain j where part: "length part < 4" and i: "?i \<le> sq_slots s"
    and j: "j \<le> ?m" "before = of_nat (2 * j)"
    and cur: "j = ?m \<Longrightarrow> sq_writer s = WIdle \<Longrightarrow> sq_pubs s \<noteq> [] \<and> acc = take ?i ?p \<and>
      (?i < sq_slots s \<longrightarrow> part = take (length part) (raw_cells (slot_to_raw (?p ! ?i))))"
    using r RLoad by (auto simp: seq_reader_inv_def)
  have p: "sq_pubs s \<noteq> [] \<Longrightarrow> dense ?p \<and> length ?p = sq_slots s"
    using w by (cases "sq_pubs s") (auto simp: seq_writer_inv_def Let_def)
  show ?thesis
  proof (cases "?i < sq_slots s")
    case True
    let ?part = "part @ [sq_mem s ! (4 * ?i + length part)]"
    have next_part: "j = ?m \<Longrightarrow> sq_writer s = WIdle \<Longrightarrow>
        ?part = take (Suc (length part)) (raw_cells (slot_to_raw (?p ! ?i)))"
      using cur p w True part
      by (auto simp: seq_writer_inv_def Let_def nth_cells_of take_Suc_conv_app_nth)
    show ?thesis
    proof (cases "length ?part < 4")
      case short: True
      then show ?thesis
        using RLoad True j i cur next_part
        by (auto simp: reader_step_def seq_reader_inv_def Let_def)
    next
      case full: False
      then have l: "Suc (length part) = 4" using part by simp
      have ok: "j = ?m \<Longrightarrow> sq_writer s = WIdle \<Longrightarrow> decode_slot ?i (cells_raw ?part) = Inr (?p ! ?i)"
        using next_part cur p True by (simp add: l cells_raw_cells decode_published)
      show ?thesis
      proof (cases "decode_slot ?i (cells_raw ?part)")
        case (Inl e)
        then show ?thesis
          using RLoad True full by (simp add: reader_step_def seq_reader_inv_def Let_def)
      next
        case (Inr d)
        have "j = ?m \<Longrightarrow> sq_writer s = WIdle \<Longrightarrow> acc @ [d] = take (Suc ?i) ?p"
          using ok Inr cur p True by (auto simp: take_Suc_conv_app_nth)
        then show ?thesis
          using RLoad True full Inr j cur
          by (auto simp: reader_step_def seq_reader_inv_def Let_def)
      qed
    qed
  next
    case False
    then have all: "?i = sq_slots s" using i by simp
    have "acc \<in> set (sq_pubs s)" if "before = sq_gen s" "even (unat (sq_gen s))"
    proof -
      have idle: "sq_writer s = WIdle" "sq_gen s = of_nat (2 * ?m)"
        using writer_gen_even[OF w that(2)] by simp_all
      then have "j = ?m" using gen_inj[of j ?m] j b that(1) by simp
      then have "sq_pubs s \<noteq> []" "acc = ?p" using cur idle p all by auto
      then show ?thesis by simp
    qed
    then show ?thesis
      using RLoad False by (auto simp: reader_step_def seq_reader_inv_def retry_def)
  qed
qed

lemma seq_step_pubs: "seq_step e s = Some t \<Longrightarrow> length (sq_pubs s) \<le> length (sq_pubs t)"
  by (cases e)
    (auto simp: writer_step_def reader_step_frame split: if_splits writer_pc.splits reader_pc.splits)

lemma reader_inv_step:
  assumes "seq_writer_inv s" "seq_reader_inv s" "e \<noteq> EvReopen" "seq_step e s = Some t"
    and b: "2 * length (sq_pubs t) < 2 ^ 64"
  shows "seq_reader_inv t"
proof (cases e)
  case (EvPublish slots)
  then show ?thesis using assms reader_inv_frame[of t s] by (auto split: if_splits)
next
  case EvWrite
  then show ?thesis using assms reader_inv_write by (auto split: if_splits)
next
  case EvRead
  then have "t = reader_step s" using assms(4) by (auto split: reader_pc.splits)
  moreover have "2 * length (sq_pubs s) < 2 ^ 64" using seq_step_pubs[OF assms(4)] b by linarith
  ultimately show ?thesis using reader_inv_read assms(1,2) by simp
next
  case EvNewRead
  then show ?thesis using assms by (auto simp: seq_reader_inv_def split: reader_pc.splits)
qed (use assms in simp)

lemma seq_reach_writer: "seq_reach n s \<Longrightarrow> seq_writer_inv s"
  by (induction rule: seq_reach.induct)
    (simp add: seq_writer_inv_def seq_init_def, rule writer_inv_step)

lemma seq_reach_reader: "seq_reach n s \<Longrightarrow> 2 * length (sq_pubs s) < 2 ^ 64 \<Longrightarrow> seq_reader_inv s"
proof (induction rule: seq_reach.induct)
  case sr_init
  show ?case by (simp add: seq_reader_inv_def seq_init_def)
next
  case (sr_step s e t)
  have "2 * length (sq_pubs s) < 2 ^ 64"
    using seq_step_pubs[OF sr_step.hyps(3)] sr_step.prems by linarith
  then show ?case
    using reader_inv_step[OF seq_reach_writer[OF sr_step.hyps(1)] sr_step.IH sr_step.hyps(2,3)]
      sr_step.prems by blast
qed

lemma seq_reach_run:
  "seq_reach n s \<Longrightarrow> EvReopen \<notin> set es \<Longrightarrow> seq_run es s = Some t \<Longrightarrow> seq_reach n t"
proof (induction es s rule: seq_run.induct)
  case (2 e es s)
  then obtain u where "seq_step e s = Some u" "seq_run es u = Some t" by (auto split: option.splits)
  then show ?case using 2 sr_step[OF "2.prems"(1), of e u] by auto
qed simp

section \<open>The writer alone refines \<open>publish\<close>\<close>

definition seq_of :: "shared_region \<Rightarrow> reader_pc \<Rightarrow> sim_shared_slot list list \<Rightarrow> seqlock" where
  "seq_of r rd pubs = \<lparr>sq_gen = generation (rg_header r), sq_init = (initialized (rg_header r) \<noteq> 0),
     sq_mem = concat (map raw_cells (rg_storage r)), sq_slots = rg_slot_count r,
     sq_writer = WIdle, sq_reader = rd, sq_pubs = pubs\<rparr>"

lemma seq_run_append: "seq_run (es @ fs) s = Option.bind (seq_run es s) (seq_run fs)"
  by (induction es s rule: seq_run.induct) (auto split: option.splits)

lemma writer_stores:
  assumes "sq_writer s = WStore g slots 0" "k \<le> length (cells_of slots)"
    "length (sq_mem s) = length (cells_of slots)"
  shows "seq_run (replicate k EvWrite) s =
    Some (s\<lparr>sq_mem := take k (cells_of slots) @ drop k (sq_mem s), sq_writer := WStore g slots k\<rparr>)"
  using assms(2)
proof (induction k)
  case 0
  then show ?case using assms(1) by simp
next
  case (Suc k)
  let ?xs = "cells_of slots"
  have "(take k ?xs @ drop k (sq_mem s))[k := ?xs ! k] = take (Suc k) ?xs @ drop (Suc k) (sq_mem s)"
    using Suc.prems assms(3)
    by (simp add: take_Suc_conv_app_nth list_update_append Cons_nth_drop_Suc[symmetric])
  moreover have "replicate (Suc k) EvWrite = replicate k EvWrite @ [EvWrite]"
    by (simp add: replicate_append_same)
  ultimately show ?case
    using Suc by (simp only: seq_run_append) (simp add: writer_step_def)
qed

lemma length_concat_raw: "length (concat (map raw_cells rs)) = 4 * length rs"
  by (induction rs) simp_all

lemma publish_refined:
  assumes "region_inv r" and "publish slots r = (Inr (), r')"
  shows "seq_run (EvPublish slots # replicate (4 * rg_slot_count r + 2) EvWrite) (seq_of r rd pubs) =
    Some (seq_of r' rd (slots # pubs))"
proof -
  let ?g = "generation (rg_header r)"
  have guard: "publish_guard (rg_slot_count r) slots = Inr ()"
    using assms(2) by (auto simp: publish_def split: sum.splits)
  then have d: "length slots = rg_slot_count r" "dense slots" by (simp_all add: publish_guard_ok)
  obtain q where q: "publish slots r = (Inr (), q)" "initialized (rg_header q) = 1"
      "rg_storage q = map slot_to_raw slots" "rg_slot_count q = rg_slot_count r"
      "generation (rg_header q) = ?g + 2"
    using publish_ok[OF assms(1) d(2,1)] by metis
  then have r': "r' = q" using assms(2) by simp
  let ?s = "(seq_of r rd pubs)\<lparr>sq_gen := ?g + 1, sq_writer := WStore ?g slots 0\<rparr>"
  let ?n = "4 * rg_slot_count r"
  have len: "length (sq_mem ?s) = length (cells_of slots)" "?n \<le> length (cells_of slots)"
    using d(1) assms(1) by (simp_all add: seq_of_def length_concat_raw region_inv_def)
  have st: "sq_writer ?s = WStore ?g slots 0" by simp
  have cells: "concat (map raw_cells (map slot_to_raw slots)) = cells_of slots"
    by (simp add: cells_of_def comp_def)
  have "replicate (?n + 2) EvWrite = replicate ?n EvWrite @ [EvWrite, EvWrite]"
    by (simp only: replicate_add numeral_2_eq_2 replicate_Suc replicate_0)
  then have "seq_run (replicate (?n + 2) EvWrite) ?s = Some (seq_of q rd (slots # pubs))"
    using writer_stores[OF st len(2,1)] q d(1) len(1) cells
    by (simp add: seq_run_append writer_step_def seq_of_def)
  moreover have "seq_step (EvPublish slots) (seq_of r rd pubs) = Some ?s"
    using guard by (simp add: seq_of_def)
  ultimately show ?thesis using r' by simp
qed

section \<open>Properties\<close>

definition u32_slots :: "u32 list \<Rightarrow> sim_shared_slot list" where
  "u32_slots vs = map (\<lambda>(i, v). \<lparr>slot_id = of_nat i, slot_value = VU32 v\<rparr>) (enumerate 0 vs)"

text \<open>
  C1: no torn read. However the stores of the writer and the loads of the reader interleave, a
  snapshot that the reader returns is one that the writer has published completely, as long as the
  writer does not reopen the region and publishes fewer than \<open>2^63\<close> times.
\<close>

theorem seqlock_no_torn_read:
  assumes "seq_reach n s" and "2 * length (sq_pubs s) < 2 ^ 64" and "sq_reader s = RDone (Inr slots)"
  shows "slots \<in> set (sq_pubs s)"
  using seq_reach_reader[OF assms(1,2)] assms(3) by (simp add: seq_reader_inv_def)

definition demo_run :: "seq_event list" where
  "demo_run = [EvPublish (u32_slots [5])] @ replicate 6 EvWrite @ replicate 7 EvRead"

theorem seqlock_no_torn_read_witness:
  "u32_slots [5] \<in> set (sq_pubs (the (seq_run demo_run (seq_init 1))))"
proof -
  have run: "(case seq_run demo_run (seq_init 1) of None \<Rightarrow> False
      | Some s \<Rightarrow> sq_reader s = RDone (Inr (u32_slots [5])) \<and> length (sq_pubs s) = 1)"
    by code_simp
  then obtain s where s: "seq_run demo_run (seq_init 1) = Some s"
      "sq_reader s = RDone (Inr (u32_slots [5]))" "length (sq_pubs s) = 1"
    by (auto split: option.splits)
  have "EvReopen \<notin> set demo_run" by (simp add: demo_run_def)
  then have "seq_reach 1 s" using seq_reach_run[OF sr_init _ s(1)] by simp
  then show ?thesis using seqlock_no_torn_read[of 1 s "u32_slots [5]"] s by simp
qed


definition demo_region :: shared_region where
  "demo_region = projr (region_open None 1 ''w'' True)"


definition run_torn_type :: "seq_event list" where
  "run_torn_type = [EvPublish (u32_slots [5])] @ replicate 6 EvWrite @ replicate 4 EvRead @
     [EvPublish [\<lparr>slot_id = 0, slot_value = VF64 0\<rparr>]] @ replicate 4 EvWrite @ replicate 2 EvRead"

definition run_reopen :: "seq_event list" where
  "run_reopen = [EvPublish (u32_slots [1, 1])] @ replicate 10 EvWrite @ replicate 6 EvRead @
     [EvReopen, EvPublish (u32_slots [2, 2])] @ replicate 10 EvWrite @ replicate 5 EvRead"


end
