(* ===== verification/Can.thy ===== *)
theory Can
  imports Sim_Types
begin

text \<open>
  CAN frames on the host side: \<open>can/mod.rs\<close> (payloads written in hexadecimal, the checks a frame
  passes before it is sent) and the frame conversion of \<open>can/backend/socketcan.rs\<close>. The kernel is
  the sequence of results that successive \<open>recv\<close> calls give, and the outcome of \<open>send\<close>; opening a
  socket and the Windows backend are in \<open>Can_Backends\<close>.
\<close>

unbundle bit_operations_syntax

section \<open>Payload text\<close>

function strip_payload :: "string \<Rightarrow> string" where
  \<comment> \<open>Without white space and underscores.\<close>
  "strip_payload s =
     (case s of [] \<Rightarrow> []
      | c # cs \<Rightarrow> if 0 < ws_len s then strip_payload (drop (ws_len s) s)
                  else if c = CHR ''_'' then strip_payload cs else c # strip_payload cs)"
  by pat_completeness auto
termination
  by (relation "measure length") (auto simp: ws_len_pos)

declare strip_payload.simps [simp del]

datatype payload_error = OddHex | PayloadTooLong | BadHexByte string

function payload_loop :: "string \<Rightarrow> nat \<Rightarrow> payload_error + u8 list" where
  "payload_loop bytes idx =
     (if length bytes \<le> idx then Inr []
      else let pair = take 2 (drop idx bytes) in
        res_bind (ok_or (BadHexByte pair) (parse_u8_hex pair)) (\<lambda>value.
        res_bind (payload_loop bytes (idx + 2)) (\<lambda>rest. Inr (value # rest))))"
  by pat_completeness auto
termination by (relation "measure (\<lambda>(bytes, idx). length bytes - idx)") auto

declare payload_loop.simps [simp del]

definition parse_data_hex :: "string \<Rightarrow> payload_error + u8 list" where
  "parse_data_hex raw =
     (let compact = strip_payload raw in
      if odd (length compact) then Inl OddHex
      else if 64 < length compact div 2 then Inl PayloadTooLong
      else payload_loop compact 0)"

section \<open>Checks on a frame\<close>

datatype frame_error =
  ReservedFlags string
| InvalidExtendedId string u32
| InvalidStandardId string u32
| InvalidPayloadLength string u8
| ClassicOnly string
| InvalidFdLength string u8
| FdRemote string
| InvalidClassicLength string u8

definition fd_lengths :: "nat set" where
  "fd_lengths = {0, 1, 2, 3, 4, 5, 6, 7, 8, 12, 16, 20, 24, 32, 48, 64}"

definition validate_frame :: "string \<Rightarrow> bool \<Rightarrow> sim_can_frame \<Rightarrow> frame_error + unit" where
  "validate_frame bus fd_ok frame =
     (let flags = fr_flags frame;
          fd_requested = flags AND CAN_FLAG_FD \<noteq> 0 \<or>
            flags AND (CAN_FLAG_BRS OR CAN_FLAG_ESI) \<noteq> 0
      in if flags AND CAN_FLAG_RESERVED_MASK \<noteq> 0 then Inl (ReservedFlags bus)
         else if flags AND CAN_FLAG_EXTENDED \<noteq> 0 \<and> 0x1FFFFFFF < arb_id frame
         then Inl (InvalidExtendedId bus (arb_id frame))
         else if flags AND CAN_FLAG_EXTENDED = 0 \<and> 0x7FF < arb_id frame
         then Inl (InvalidStandardId bus (arb_id frame))
         else if 64 < fr_len frame then Inl (InvalidPayloadLength bus (fr_len frame))
         else if fd_requested then
           (if \<not> fd_ok then Inl (ClassicOnly bus)
            else if unat (fr_len frame) \<notin> fd_lengths then Inl (InvalidFdLength bus (fr_len frame))
            else if flags AND CAN_FLAG_RTR \<noteq> 0 then Inl (FdRemote bus)
            else Inr ())
         else if 8 < fr_len frame then Inl (InvalidClassicLength bus (fr_len frame))
         else Inr ())"

section \<open>SocketCAN frames\<close>

definition CAN_EFF_FLAG :: u32 where "CAN_EFF_FLAG = 0x80000000"
definition CAN_RTR_FLAG :: u32 where "CAN_RTR_FLAG = 0x40000000"
definition CAN_SFF_MASK :: u32 where "CAN_SFF_MASK = 0x7FF"
definition CAN_EFF_MASK :: u32 where "CAN_EFF_MASK = 0x1FFFFFFF"
definition CANFD_BRS :: u8 where "CANFD_BRS = 1"
definition CANFD_ESI :: u8 where "CANFD_ESI = 2"

lemmas can_id_defs = CAN_EFF_FLAG_def CAN_RTR_FLAG_def CAN_SFF_MASK_def CAN_EFF_MASK_def
  CANFD_BRS_def CANFD_ESI_def

datatype linux_frame =
  LinuxCanFrame u32 u8 "u8 list"  \<comment> \<open>identifier, length, 8 data bytes\<close>
| LinuxCanFdFrame u32 u8 u8 "u8 list"  \<comment> \<open>identifier, length, flags, 64 data bytes\<close>

definition decode_common_flags :: "u32 \<Rightarrow> u8" where
  "decode_common_flags can_id =
     (if can_id AND CAN_EFF_FLAG \<noteq> 0 then CAN_FLAG_EXTENDED else 0) OR
     (if can_id AND CAN_RTR_FLAG \<noteq> 0 then CAN_FLAG_RTR else 0)"

definition decode_arb_id :: "u32 \<Rightarrow> u32" where
  "decode_arb_id can_id =
     (if can_id AND CAN_EFF_FLAG \<noteq> 0 then can_id AND CAN_EFF_MASK else can_id AND CAN_SFF_MASK)"

definition encode_can_id :: "u32 \<Rightarrow> u8 \<Rightarrow> u32" where
  "encode_can_id arb flags =
     (if flags AND CAN_FLAG_EXTENDED \<noteq> 0 then (arb AND CAN_EFF_MASK) OR CAN_EFF_FLAG
      else arb AND CAN_SFF_MASK) OR
     (if flags AND CAN_FLAG_RTR \<noteq> 0 then CAN_RTR_FLAG else 0)"

definition encode_fd_flags :: "u8 \<Rightarrow> u8" where
  "encode_fd_flags flags =
     (if flags AND CAN_FLAG_BRS \<noteq> 0 then CANFD_BRS else 0) OR
     (if flags AND CAN_FLAG_ESI \<noteq> 0 then CANFD_ESI else 0)"

definition frame_of_linux :: "linux_frame \<Rightarrow> sim_can_frame" where
  \<comment> \<open>One frame of \<open>recv_all\<close>.\<close>
  "frame_of_linux f = (case f of
      LinuxCanFrame can_id dlc data \<Rightarrow>
        \<lparr>arb_id = decode_arb_id can_id, fr_len = min dlc 8, fr_flags = decode_common_flags can_id,
         fr_data = take 8 data @ replicate 56 0\<rparr>
    | LinuxCanFdFrame can_id len fl data \<Rightarrow>
        \<lparr>arb_id = decode_arb_id can_id, fr_len = min len 64,
         fr_flags = decode_common_flags can_id OR CAN_FLAG_FD OR
           (if fl AND CANFD_BRS \<noteq> 0 then CAN_FLAG_BRS else 0) OR
           (if fl AND CANFD_ESI \<noteq> 0 then CAN_FLAG_ESI else 0),
         fr_data = data\<rparr>)"

datatype recv_result = WouldBlock | RecvFailed | Received linux_frame | WrongSize nat

datatype socket_error = ReadFailed | UnexpectedSize nat | SendFailed

fun recv_loop :: "recv_result list \<Rightarrow> sim_can_frame list \<Rightarrow> socket_error + sim_can_frame list" where
  \<comment> \<open>The results of successive calls; a list that ends would block.\<close>
  "recv_loop [] frames = Inr frames"
| "recv_loop (r # rs) frames = (case r of
      WouldBlock \<Rightarrow> Inr frames
    | RecvFailed \<Rightarrow> Inl ReadFailed
    | Received f \<Rightarrow> recv_loop rs (frames @ [frame_of_linux f])
    | WrongSize n \<Rightarrow> Inl (UnexpectedSize n))"

definition recv_all :: "recv_result list \<Rightarrow> socket_error + sim_can_frame list" where
  "recv_all results = recv_loop results []"

definition linux_of_frame :: "sim_can_frame \<Rightarrow> linux_frame" where
  \<comment> \<open>What \<open>send\<close> writes to the socket.\<close>
  "linux_of_frame frame =
     (let can_id = encode_can_id (arb_id frame) (fr_flags frame) in
      if fr_flags frame AND CAN_FLAG_FD \<noteq> 0 \<or> 8 < fr_len frame
      then LinuxCanFdFrame can_id (fr_len frame) (encode_fd_flags (fr_flags frame)) (fr_data frame)
      else let n = unat (fr_len frame) in
        LinuxCanFrame can_id (fr_len frame) (take n (fr_data frame) @ replicate (8 - n) 0))"

definition send_frame ::
    "(linux_frame \<Rightarrow> 'w \<Rightarrow> bool \<times> 'w) \<Rightarrow> sim_can_frame \<Rightarrow> ('w, socket_error, unit) act" where
  \<comment> \<open>\<open>sys_send f w\<close>: whether the kernel took the frame.\<close>
  "send_frame sys_send frame w = (case sys_send (linux_of_frame frame) w of (ok, w') \<Rightarrow>
     (guard_err (\<not> ok) SendFailed, w'))"

section \<open>Data length codes of the PEAK driver\<close>

datatype peak_error = InvalidDlc u8 | InvalidFdPayloadLength u8

definition fd_dlc_to_len :: "u8 \<Rightarrow> peak_error + u8" where
  "fd_dlc_to_len dlc =
     (if dlc \<le> 8 then Inr dlc else if dlc = 9 then Inr 12 else if dlc = 10 then Inr 16
      else if dlc = 11 then Inr 20 else if dlc = 12 then Inr 24 else if dlc = 13 then Inr 32
      else if dlc = 14 then Inr 48 else if dlc = 15 then Inr 64 else Inl (InvalidDlc dlc))"

definition fd_len_to_dlc :: "u8 \<Rightarrow> peak_error + u8" where
  "fd_len_to_dlc len =
     (if len \<le> 8 then Inr len else if len = 12 then Inr 9 else if len = 16 then Inr 10
      else if len = 20 then Inr 11 else if len = 24 then Inr 12 else if len = 32 then Inr 13
      else if len = 48 then Inr 14 else if len = 64 then Inr 15
      else Inl (InvalidFdPayloadLength len))"

text \<open>The driver encodes exactly the lengths that \<open>validate_frame\<close> lets through.\<close>

lemma fd_len_to_dlc_ok: "is_ok (fd_len_to_dlc n) \<longleftrightarrow> unat n \<in> fd_lengths"
proof -
  have "unat n \<le> 8 \<longleftrightarrow> unat n \<in> {0, 1, 2, 3, 4, 5, 6, 7, 8}" by auto
  then have "n \<le> 8 \<longleftrightarrow> unat n \<in> {0, 1, 2, 3, 4, 5, 6, 7, 8}" by (simp only: word_le_nat_alt) simp
  then show ?thesis
    by (auto simp: fd_len_to_dlc_def fd_lengths_def word_unat_eq_iff)
qed

interpretation dlc_codec: codec "\<lambda>n. unat n \<in> fd_lengths"
  "\<lambda>n. projr (fd_len_to_dlc n)" "\<lambda>d. res_opt (fd_dlc_to_len d)"
proof
  fix n :: u8 assume "unat n \<in> fd_lengths"
  then have "is_ok (fd_len_to_dlc n)" by (simp add: fd_len_to_dlc_ok)
  then show "res_opt (fd_dlc_to_len (projr (fd_len_to_dlc n))) = Some n"
    by (auto simp: fd_len_to_dlc_def fd_dlc_to_len_def split: if_splits)
qed

section \<open>Payload round trip\<close>

lemma strip_payload_plain:
  "list_all (\<lambda>c. plain_char c \<and> c \<noteq> CHR ''_'') s \<Longrightarrow> strip_payload s = s"
proof (induction s)
  case Nil
  then show ?case by (subst strip_payload.simps) simp
next
  case (Cons c s)
  then show ?case by (subst strip_payload.simps) (simp add: ws_len_plain)
qed

lemma payload_loop_text: "payload_loop (p @ hex_text bs) (length p) = Inr bs"
proof (induction bs arbitrary: p)
  case Nil
  then show ?case by (subst payload_loop.simps) (simp add: hex_text_def)
next
  case (Cons b bs)
  have len: "length (show_hex_byte b) = 2" by (simp add: show_hex_byte_def)
  have "payload_loop (p @ hex_text (b # bs)) (length p + 2) = Inr bs"
    using Cons.IH[of "p @ show_hex_byte b"] len by (simp add: hex_text_Cons)
  then show ?case
    using len by (subst payload_loop.simps) (simp add: hex_text_Cons parse_show_hex_byte)
qed

lemma strip_hex_text: "strip_payload (hex_text bs) = hex_text bs"
proof (rule strip_payload_plain)
  have "c \<noteq> CHR ''_''" if "c \<in> set (hex_text bs)" for c
    using hex_text_chars[OF that] by auto
  then show "list_all (\<lambda>c. plain_char c \<and> c \<noteq> CHR ''_'') (hex_text bs)"
    using plain_hex by (auto simp: list_all_iff)
qed

interpretation payload_codec: codec "\<lambda>bs. length bs \<le> 64" hex_text "\<lambda>s. res_opt (parse_data_hex s)"
  by unfold_locales
    (use payload_loop_text[of "[]"] in \<open>simp add: parse_data_hex_def strip_hex_text Let_def\<close>)

lemma payload_loop_length: "payload_loop s i = Inr bs \<Longrightarrow> length bs = (length s - i + 1) div 2"
proof (induction s i arbitrary: bs rule: payload_loop.induct)
  case (1 s i)
  show ?case
  proof (cases "length s \<le> i")
    case True
    then show ?thesis using "1.prems" by (subst (asm) payload_loop.simps) simp
  next
    case False
    then obtain v rest where "payload_loop s (i + 2) = Inr rest" "bs = v # rest"
      using "1.prems" by (subst (asm) payload_loop.simps) (auto simp: Let_def res_bind_Inr)
    moreover from this have "length rest = (length s - (i + 2) + 1) div 2"
      using "1.IH"[OF False refl] by simp
    ultimately show ?thesis using False by (simp only: list.size) presburger
  qed
qed

lemma parse_data_hex_length: "parse_data_hex s = Inr bs \<Longrightarrow> length bs \<le> 64"
  by (auto simp: parse_data_hex_def Let_def dest!: payload_loop_length split: if_splits)

section \<open>Frame round trip\<close>

text \<open>Every flag is one bit, so a frame's flags are read bit by bit.\<close>

lemma flags_exp:
  "CAN_FLAG_EXTENDED = 2 ^ 0" "CAN_FLAG_FD = 2 ^ 1" "CAN_FLAG_BRS = 2 ^ 2" "CAN_FLAG_ESI = 2 ^ 3"
  "CAN_FLAG_RTR = 2 ^ 4" "CANFD_BRS = 2 ^ 0" "CANFD_ESI = 2 ^ 1"
  "CAN_EFF_FLAG = 2 ^ 31" "CAN_RTR_FLAG = 2 ^ 30"
  by (simp_all add: can_flag_defs can_id_defs)

lemma flag_bits:
  "(w :: u8) AND CAN_FLAG_EXTENDED = 0 \<longleftrightarrow> \<not> bit w 0" "w AND CAN_FLAG_FD = 0 \<longleftrightarrow> \<not> bit w 1"
  "w AND CAN_FLAG_BRS = 0 \<longleftrightarrow> \<not> bit w 2" "w AND CAN_FLAG_ESI = 0 \<longleftrightarrow> \<not> bit w 3"
  "w AND CAN_FLAG_RTR = 0 \<longleftrightarrow> \<not> bit w 4"
  "w AND CANFD_BRS = 0 \<longleftrightarrow> \<not> bit w 0" "w AND CANFD_ESI = 0 \<longleftrightarrow> \<not> bit w 1"
  "(v :: u32) AND CAN_EFF_FLAG = 0 \<longleftrightarrow> \<not> bit v 31" "v AND CAN_RTR_FLAG = 0 \<longleftrightarrow> \<not> bit v 30"
  unfolding flags_exp by (rule and_exp_eq_0_iff_not_bit)+

lemma bit_flag:
  "bit CAN_FLAG_EXTENDED i \<longleftrightarrow> i = 0" "bit CAN_FLAG_FD i \<longleftrightarrow> i = 1"
  "bit CAN_FLAG_BRS i \<longleftrightarrow> i = 2" "bit CAN_FLAG_ESI i \<longleftrightarrow> i = 3"
  "bit CAN_FLAG_RTR i \<longleftrightarrow> i = 4" "bit CANFD_BRS i \<longleftrightarrow> i = 0" "bit CANFD_ESI i \<longleftrightarrow> i = 1"
  "bit CAN_EFF_FLAG i \<longleftrightarrow> i = 31" "bit CAN_RTR_FLAG i \<longleftrightarrow> i = 30"
  unfolding flags_exp bit_exp_iff by auto

lemma mask_consts:
  "CAN_SFF_MASK = mask 11" "CAN_EFF_MASK = mask 29"
  by (simp_all add: can_id_defs mask_eq_exp_minus_1)

lemma small_id: "unat (a :: u32) < 2 ^ n \<Longrightarrow> a AND mask n = a"
proof -
  assume "unat a < 2 ^ n"
  then have "take_bit n (unat a) = unat a" by (simp add: take_bit_nat_eq_self)
  then have "unat (take_bit n a) = unat a" by (metis unsigned_take_bit_eq)
  then show ?thesis by (simp add: word_unat_eq_iff take_bit_eq_mask)
qed

definition fd_of :: "sim_can_frame \<Rightarrow> bool" where
  "fd_of f = (bit (fr_flags f) 1 \<or> 8 < fr_len f)"

lemma bit_can_id:
  "bit (encode_can_id a w) 31 \<longleftrightarrow> bit w 0" "bit (encode_can_id a w) 30 \<longleftrightarrow> bit w 4"
  by (auto simp: encode_can_id_def mask_consts flag_bits bit_or_iff bit_and_iff bit_flag bit_mask_iff)

lemma decode_encode_id:
  assumes "if bit w 0 then unat a < 2 ^ 29 else unat a < 2 ^ 11"
  shows "decode_arb_id (encode_can_id a w) = a"
proof -
  have drop: "(a AND mask n OR x OR y) AND mask n = a"
    if "unat a < 2 ^ n" "n < 30" "\<And>i. bit x i \<Longrightarrow> 30 \<le> i" "\<And>i. bit y i \<Longrightarrow> 30 \<le> i" for n and x y :: u32
  proof (rule bit_word_eqI)
    fix i assume "i < LENGTH(32)"
    have "bit a i \<Longrightarrow> i < n"
      using small_id[OF that(1)] by (metis bit_and_iff bit_mask_iff)
    then show "bit ((a AND mask n OR x OR y) AND mask n) i = bit a i"
      using that(2-4) \<open>i < LENGTH(32)\<close> by (force simp: bit_and_iff bit_or_iff bit_mask_iff)
  qed
  have r: "bit CAN_RTR_FLAG i \<Longrightarrow> 30 \<le> i" for i by (simp add: bit_flag)
  have e: "bit CAN_EFF_FLAG i \<Longrightarrow> 30 \<le> i" for i by (simp add: bit_flag)
  have z: "bit (0 :: u32) i \<Longrightarrow> 30 \<le> i" for i by simp
  show ?thesis
  proof (cases "bit w 0")
    case True
    then show ?thesis
      using drop[of 29 CAN_EFF_FLAG CAN_RTR_FLAG, OF _ _ e r] drop[of 29 CAN_EFF_FLAG 0, OF _ _ e z] assms
      by (simp add: decode_arb_id_def flag_bits bit_can_id)
        (simp add: encode_can_id_def flag_bits mask_consts or.assoc)
  next
    case False
    then show ?thesis
      using drop[of 11 0 CAN_RTR_FLAG, OF _ _ z r] drop[of 11 0 0, OF _ _ z z] assms
      by (simp add: decode_arb_id_def flag_bits bit_can_id)
        (simp add: encode_can_id_def flag_bits mask_consts)
  qed
qed

lemma bit_common_flags:
  "bit (decode_common_flags (encode_can_id a w)) i \<longleftrightarrow> (i = 0 \<and> bit w 0) \<or> (i = 4 \<and> bit w 4)"
  by (auto simp: decode_common_flags_def flag_bits bit_can_id bit_or_iff bit_flag)

lemma bit_fd_flags:
  "bit (encode_fd_flags w) 0 \<longleftrightarrow> bit w 2" "bit (encode_fd_flags w) 1 \<longleftrightarrow> bit w 3"
  by (auto simp: encode_fd_flags_def flag_bits bit_or_iff bit_flag)

lemma reserved_bits: "w AND CAN_FLAG_RESERVED_MASK = 0 \<Longrightarrow> 5 \<le> i \<Longrightarrow> \<not> bit (w :: u8) i"
proof
  assume z: "w AND CAN_FLAG_RESERVED_MASK = 0" and i: "5 \<le> i" "bit w i"
  have m: "CAN_FLAG_RESERVED_MASK = push_bit 5 (mask 3)"
    by (simp add: can_flag_defs mask_eq_exp_minus_1 push_bit_eq_mult)
  have "i < 8" using i(2) bit_imp_le_length by fastforce
  then have "i - 5 < 3" using i(1) by linarith
  then have "bit (w AND CAN_FLAG_RESERVED_MASK) i"
    using i by (simp add: m bit_and_iff bit_push_bit_iff bit_mask_iff)
  then show False using z by simp
qed

lemma fd_len_le: "n \<in> fd_lengths \<Longrightarrow> n \<le> 64"
  by (auto simp: fd_lengths_def)

text \<open>What the checks say of a frame, bit by bit.\<close>

lemma validate_frame_Inr:
  "validate_frame bus fd_ok f = Inr () \<longleftrightarrow>
     fr_flags f AND CAN_FLAG_RESERVED_MASK = 0 \<and>
     (if bit (fr_flags f) 0 then unat (arb_id f) < 2 ^ 29 else unat (arb_id f) < 2 ^ 11) \<and>
     (if bit (fr_flags f) 1 \<or> bit (fr_flags f) 2 \<or> bit (fr_flags f) 3
      then fd_ok \<and> unat (fr_len f) \<in> fd_lengths \<and> \<not> bit (fr_flags f) 4
      else unat (fr_len f) \<le> 8)"
proof -
  have e: "(0x1FFFFFFF < a) = (\<not> unat a < 2 ^ 29)" "(0x7FF < a) = (\<not> unat a < 2 ^ 11)" for a :: u32
    by (simp_all add: word_less_nat_alt not_less) linarith+
  have l: "(64 < n) = (64 < unat n)" "(8 < n) = (8 < unat n)" for n :: u8
    by (simp_all add: word_less_nat_alt)
  have be: "w AND (CAN_FLAG_BRS OR CAN_FLAG_ESI) = 0 \<longleftrightarrow> \<not> bit w 2 \<and> \<not> bit w 3" for w :: u8
    by (simp add: bit.conj_disj_distrib or_eq_0_iff flag_bits)
  show ?thesis
    using fd_len_le[of "unat (fr_len f)"]
    by (auto simp: validate_frame_def Let_def flag_bits be e l)
qed

text \<open>
  C29: sending is faithful for the frames that pass the checks. On a bus with CAN FD, a frame that
  \<open>validate_frame\<close> accepts and that carries the FD flag whenever it carries BRS or ESI is read back
  from what \<open>send\<close> wrote with the same identifier, length, flags and payload, except that a frame
  longer than 8 bytes always comes back with the FD flag, which it had.
\<close>

theorem socketcan_roundtrip:
  assumes ok: "validate_frame bus fd_ok f = Inr ()" and wf: "frame_wf f"
    and fd: "bit (fr_flags f) 2 \<or> bit (fr_flags f) 3 \<Longrightarrow> bit (fr_flags f) 1"
  shows "arb_id (frame_of_linux (linux_of_frame f)) = arb_id f \<and>
    fr_len (frame_of_linux (linux_of_frame f)) = fr_len f \<and>
    fr_flags (frame_of_linux (linux_of_frame f)) = fr_flags f \<and>
    payload (frame_of_linux (linux_of_frame f)) = payload f"
proof -
  note v = ok[unfolded validate_frame_Inr]
  let ?w = "fr_flags f"
  have id: "decode_arb_id (encode_can_id (arb_id f) ?w) = arb_id f"
    by (rule decode_encode_id) (use v in blast)
  have high: "\<not> bit ?w i" if "5 \<le> i" for i using v reserved_bits that by blast
  have cases5: "i = 0 \<or> i = 1 \<or> i = 2 \<or> i = 3 \<or> i = 4 \<or> 5 \<le> i" for i :: nat by linarith
  have data: "length (fr_data f) = 64" using wf by (simp add: frame_wf_def)
  show ?thesis
  proof (cases "bit ?w 1")
    case True
    then have len: "fr_len f \<le> 64" "unat (fr_len f) \<le> 64" and r: "\<not> bit ?w 4"
      using v fd_len_le[of "unat (fr_len f)"] by (auto simp: word_le_nat_alt)
    have "decode_common_flags (encode_can_id (arb_id f) ?w) OR CAN_FLAG_FD OR
        (if bit ?w 2 then CAN_FLAG_BRS else 0) OR (if bit ?w 3 then CAN_FLAG_ESI else 0) = ?w"
      (is "?l = _")
    proof (rule bit_word_eqI)
      fix i
      show "bit ?l i = bit ?w i"
        using cases5[of i] by (elim disjE) (use True r high in \<open>auto simp: bit_or_iff bit_common_flags bit_flag\<close>)
    qed
    then show ?thesis
      using True len data id
      by (simp add: linux_of_frame_def frame_of_linux_def flag_bits bit_fd_flags[simplified] payload_def min_absorb1)
  next
    case False
    with fd have no: "\<not> bit ?w 2" "\<not> bit ?w 3" by auto
    with v False have len: "unat (fr_len f) \<le> 8" by simp
    then have len': "fr_len f \<le> 8" "\<not> 8 < fr_len f" by (simp_all add: word_le_nat_alt word_less_nat_alt)
    have "decode_common_flags (encode_can_id (arb_id f) ?w) = ?w"
    proof (rule bit_word_eqI)
      fix i
      show "bit (decode_common_flags (encode_can_id (arb_id f) ?w)) i = bit ?w i"
        using cases5[of i] by (elim disjE) (use False no high in \<open>auto simp: bit_common_flags\<close>)
    qed
    then show ?thesis
      using False no len len' data id
      by (simp add: linux_of_frame_def frame_of_linux_def flag_bits payload_def min_absorb1 Let_def)
  qed
qed

theorem socketcan_roundtrip_witness:
  "fr_flags (frame_of_linux (linux_of_frame
     \<lparr>arb_id = 0x123, fr_len = 12, fr_flags = 6, fr_data = replicate 64 7\<rparr>)) = 6"
  using socketcan_roundtrip[of "''vcan0''" True "\<lparr>arb_id = 0x123, fr_len = 12, fr_flags = 6, fr_data = replicate 64 7\<rparr>"]
  by (simp add: validate_frame_Inr frame_wf_def CAN_FLAG_RESERVED_MASK_def fd_lengths_def)

text \<open>
  A frame the checks accept as CAN FD can leave as a classic frame. For a frame of at most 8
  bytes without the FD flag, \<open>validate_frame\<close> treats BRS or ESI as a request for CAN FD (refused on a
  classic bus), but \<open>send\<close> looks at the FD flag and the length only: it writes a classic frame, and
  the flags are lost.
\<close>

theorem brs_without_fd_sent_classic:
  assumes "\<not> bit (fr_flags f) 1" and "bit (fr_flags f) 2 \<or> bit (fr_flags f) 3"
    and "unat (fr_len f) \<le> 8" and "fr_flags f AND CAN_FLAG_RESERVED_MASK = 0"
    and "if bit (fr_flags f) 0 then unat (arb_id f) < 2 ^ 29 else unat (arb_id f) < 2 ^ 11"
  shows "validate_frame bus False f = Inl (ClassicOnly bus) \<and>
    (validate_frame bus True f = Inr () \<longleftrightarrow> \<not> bit (fr_flags f) 4) \<and>
    (\<exists>can_id data. linux_of_frame f = LinuxCanFrame can_id (fr_len f) data) \<and>
    \<not> bit (fr_flags (frame_of_linux (linux_of_frame f))) 2 \<and>
    \<not> bit (fr_flags (frame_of_linux (linux_of_frame f))) 3"
proof -
  have len: "\<not> 8 < fr_len f" "\<not> 64 < fr_len f" using assms(3) by (simp_all add: word_less_nat_alt)
  have mem: "unat (fr_len f) \<in> fd_lengths"
    using assms(3) by (auto simp: fd_lengths_def le_Suc_eq numeral_eq_Suc)
  have "validate_frame bus False f = Inl (ClassicOnly bus)"
    using assms(2,4,5) len by (auto simp: validate_frame_def Let_def flag_bits word_less_nat_alt
        bit.conj_disj_distrib or_eq_0_iff not_less split: if_splits)
  moreover have "validate_frame bus True f = Inr () \<longleftrightarrow> \<not> bit (fr_flags f) 4"
    unfolding validate_frame_Inr using assms mem by (cases "bit (fr_flags f) 0") auto
  ultimately show ?thesis
    using assms(1) len by (simp add: linux_of_frame_def frame_of_linux_def flag_bits bit_common_flags Let_def)
qed

theorem brs_without_fd_sent_classic_witness:
  "\<not> bit (fr_flags (frame_of_linux (linux_of_frame
     \<lparr>arb_id = 5, fr_len = 1, fr_flags = 4, fr_data = replicate 64 9\<rparr>))) 2"
  using brs_without_fd_sent_classic[of "\<lparr>arb_id = 5, fr_len = 1, fr_flags = 4, fr_data = replicate 64 9\<rparr>"]
  by (simp add: CAN_FLAG_RESERVED_MASK_def)

end
