(* ===== verification/Dbc.thy ===== *)
theory Dbc
  imports Containers Sim_Types
begin

text \<open>
  DBC signals: \<open>can/dbc.rs\<close>. A DBC file names bit fields of CAN payloads and scales them. Reading
  the file and the DBC grammar (crate \<open>can_dbc\<close>) are parameters; the overlay that is built from the
  parsed file, the bit access in both byte orders, the signed reading and the scaling are modelled.
  Bit positions are natural numbers: the first access checks the position, so \<open>start_bit + idx\<close>
  and the casts of the Motorola order never wrap.
\<close>

unbundle bit_operations_syntax

section \<open>Definitions of signals\<close>

datatype byte_order = LittleEndian | BigEndian
datatype value_type = SignedType | UnsignedType

record dbc_signal_def =
  ds_name :: string
  ds_frame_key :: u32
  ds_arb_id :: u32
  ds_extended :: bool
  ds_message_size :: u8
  ds_start_bit :: u64
  ds_size :: u64
  ds_byte_order :: byte_order
  ds_value_type :: value_type
  ds_factor :: f64
  ds_offset :: f64
  ds_min :: f64
  ds_max :: f64
  ds_unit :: "string option"

datatype dbc_error =
  DbcReadFailed string
| DbcParseFailed string
| DbcMessageSize string u64
| DbcMessageTooLarge string u8
| DbcMultiplexed string string
| DbcInvalidSize string string u64
| DbcNotFinite string
| DbcOutOfRange f64 string
| DbcZeroFactor string
| DbcSignedRange int u64 string
| DbcNegative int string
| DbcUnsignedRange u64 u64 string
| DbcTooWide string u64
| DbcBitOutOfBounds nat

text \<open>What the DBC parser gives.\<close>

datatype message_id = StandardId u16 | ExtendedId u32

record parsed_signal =
  ps_name :: string
  ps_plain :: bool  \<comment> \<open>\<open>MultiplexIndicator::Plain\<close>\<close>
  ps_start_bit :: u64
  ps_size :: u64
  ps_byte_order :: byte_order
  ps_value_type :: value_type
  ps_factor :: f64
  ps_offset :: f64
  ps_min :: f64
  ps_max :: f64
  ps_unit :: string

record parsed_message =
  pm_id :: message_id
  pm_name :: string
  pm_size :: u64
  pm_signals :: "parsed_signal list"

type_synonym dbc_overlay = "(string, dbc_signal_def) hmap"

definition frame_key :: "u32 \<Rightarrow> bool \<Rightarrow> u32" where
  "frame_key arb extended = (if extended then arb OR push_bit 31 1 else arb)"

definition frame_key_from_frame :: "sim_can_frame \<Rightarrow> u32" where
  "frame_key_from_frame f = frame_key (arb_id f) (fr_flags f AND CAN_FLAG_EXTENDED \<noteq> 0)"

definition message_arb_id :: "message_id \<Rightarrow> u32 \<times> bool" where
  "message_arb_id i = (case i of StandardId n \<Rightarrow> (ucast n, False) | ExtendedId n \<Rightarrow> (n, True))"

definition signal_def_of :: "u32 \<Rightarrow> bool \<Rightarrow> u8 \<Rightarrow> parsed_signal \<Rightarrow> dbc_signal_def" where
  "signal_def_of arb extended message_size s =
     \<lparr>ds_name = ps_name s, ds_frame_key = frame_key arb extended, ds_arb_id = arb,
      ds_extended = extended, ds_message_size = message_size, ds_start_bit = ps_start_bit s,
      ds_size = ps_size s, ds_byte_order = ps_byte_order s, ds_value_type = ps_value_type s,
      ds_factor = ps_factor s, ds_offset = ps_offset s, ds_min = ps_min s, ds_max = ps_max s,
      ds_unit = (if ps_unit s = [] then None else Some (ps_unit s))\<rparr>"

fun overlay_signals ::
    "string \<Rightarrow> u32 \<Rightarrow> bool \<Rightarrow> u8 \<Rightarrow> parsed_signal list \<Rightarrow> dbc_overlay \<Rightarrow> dbc_error + dbc_overlay" where
  "overlay_signals msg arb extended message_size [] m = Inr m"
| "overlay_signals msg arb extended message_size (s # ss) m =
     (if \<not> ps_plain s then Inl (DbcMultiplexed msg (ps_name s))
      else if ps_size s = 0 \<or> 64 < ps_size s then Inl (DbcInvalidSize msg (ps_name s) (ps_size s))
      else overlay_signals msg arb extended message_size ss
             (hm_insert (ps_name s) (signal_def_of arb extended message_size s) m))"

fun overlay_messages :: "parsed_message list \<Rightarrow> dbc_overlay \<Rightarrow> dbc_error + dbc_overlay" where
  "overlay_messages [] m = Inr m"
| "overlay_messages (p # ps) m =
     (let (arb, extended) = message_arb_id (pm_id p) in
      if 255 < pm_size p then Inl (DbcMessageSize (pm_name p) (pm_size p))
      else let message_size = ucast (pm_size p) in
        if 64 < message_size then Inl (DbcMessageTooLarge (pm_name p) message_size)
        else res_bind (overlay_signals (pm_name p) arb extended message_size (pm_signals p) m)
               (overlay_messages ps))"

definition overlay_load ::
    "(string \<Rightarrow> string option) \<Rightarrow> (string \<Rightarrow> parsed_message list option) \<Rightarrow> string \<Rightarrow> dbc_error + dbc_overlay"
  where
  "overlay_load read_to_string parse_dbc path =
     res_bind (ok_or (DbcReadFailed path) (read_to_string path)) (\<lambda>content.
     res_bind (ok_or (DbcParseFailed path) (parse_dbc content)) (\<lambda>messages.
     overlay_messages messages []))"

definition overlay_signal :: "dbc_overlay \<Rightarrow> string \<Rightarrow> dbc_signal_def option" where
  "overlay_signal m name = hm_get m name"

definition overlay_signal_names :: "dbc_overlay \<Rightarrow> string list" where
  "overlay_signal_names m = map fst m"

section \<open>Bit access\<close>

definition get_bit :: "u8 list \<Rightarrow> nat \<Rightarrow> dbc_error + u8" where
  "get_bit data index =
     (let byte_index = index div 8 in
      if length data \<le> byte_index then Inl (DbcBitOutOfBounds index)
      else Inr (drop_bit (index mod 8) (data ! byte_index) AND 1))"

definition set_bit_at :: "nat \<Rightarrow> u8 \<Rightarrow> (u8 list, dbc_error, unit) act" where
  "set_bit_at index b data =
     (let byte_index = index div 8 in
      if length data \<le> byte_index then (Inl (DbcBitOutOfBounds index), data)
      else let mask = push_bit (index mod 8) 1 in
        (Inr (), data[byte_index := if b = 0 then data ! byte_index AND NOT mask
                                    else data ! byte_index OR mask]))"

definition next_motorola_bit :: "nat \<Rightarrow> nat" where
  "next_motorola_bit current = (if current mod 8 = 0 then current + 15 else current - 1)"

fun extract_le :: "u8 list \<Rightarrow> nat \<Rightarrow> nat \<Rightarrow> nat \<Rightarrow> u64 \<Rightarrow> dbc_error + u64" where
  \<comment> \<open>From \<open>idx\<close> on, with \<open>n\<close> bits left.\<close>
  "extract_le data start idx 0 raw = Inr raw"
| "extract_le data start idx (Suc n) raw =
     res_bind (get_bit data (start + idx)) (\<lambda>b.
     extract_le data start (idx + 1) n (raw OR push_bit idx (ucast b)))"

fun extract_be :: "u8 list \<Rightarrow> nat \<Rightarrow> nat \<Rightarrow> u64 \<Rightarrow> dbc_error + u64" where
  "extract_be data bit_pos 0 raw = Inr raw"
| "extract_be data bit_pos (Suc n) raw =
     res_bind (get_bit data bit_pos) (\<lambda>b.
     extract_be data (next_motorola_bit bit_pos) n (push_bit 1 raw OR ucast b))"

definition extract_raw :: "sim_can_frame \<Rightarrow> dbc_signal_def \<Rightarrow> dbc_error + u64" where
  "extract_raw frame s =
     (if 64 < ds_size s then Inl (DbcTooWide (ds_name s) (ds_size s))
      else case ds_byte_order s of
        LittleEndian \<Rightarrow> extract_le (fr_data frame) (unat (ds_start_bit s)) 0 (unat (ds_size s)) 0
      | BigEndian \<Rightarrow> extract_be (fr_data frame) (unat (ds_start_bit s)) (unat (ds_size s)) 0)"

fun insert_le :: "u64 \<Rightarrow> nat \<Rightarrow> nat \<Rightarrow> nat \<Rightarrow> (u8 list, dbc_error, unit) act" where
  "insert_le raw start idx 0 = a_ret ()"
| "insert_le raw start idx (Suc n) =
     a_bind (set_bit_at (start + idx) (ucast (drop_bit idx raw AND 1))) (\<lambda>_.
     insert_le raw start (idx + 1) n)"

fun insert_be :: "u64 \<Rightarrow> nat \<Rightarrow> nat \<Rightarrow> (u8 list, dbc_error, unit) act" where
  \<comment> \<open>With \<open>Suc n\<close> bits left, \<open>size - 1 - idx\<close> is \<open>n\<close>.\<close>
  "insert_be raw bit_pos 0 = a_ret ()"
| "insert_be raw bit_pos (Suc n) =
     a_bind (set_bit_at bit_pos (ucast (drop_bit n raw AND 1))) (\<lambda>_.
     insert_be raw (next_motorola_bit bit_pos) n)"

definition insert_data :: "dbc_signal_def \<Rightarrow> u64 \<Rightarrow> (u8 list, dbc_error, unit) act" where
  "insert_data s raw = (case ds_byte_order s of
      LittleEndian \<Rightarrow> insert_le raw (unat (ds_start_bit s)) 0 (unat (ds_size s))
    | BigEndian \<Rightarrow> insert_be raw (unat (ds_start_bit s)) (unat (ds_size s)))"

definition insert_raw :: "dbc_signal_def \<Rightarrow> u64 \<Rightarrow> (sim_can_frame, dbc_error, unit) act" where
  "insert_raw s raw frame = (case insert_data s raw (fr_data frame) of
     (r, data) \<Rightarrow> (r, frame\<lparr>fr_data := data\<rparr>))"

section \<open>Numbers\<close>

definition signed_from_raw :: "u64 \<Rightarrow> nat \<Rightarrow> int option" where
  \<comment> \<open>\<open>None\<close>: the \<open>i64\<close> subtraction overflows, which is a panic in a build with overflow checks.\<close>
  "signed_from_raw raw bits =
     (if bits = 0 then Some 0
      else if 64 \<le> bits then Some (sint raw)
      else if raw AND push_bit (bits - 1) 1 = 0 then Some (sint raw)
      else let d = sint raw - sint (push_bit bits 1 :: u64) in
        if - (2 ^ 63) \<le> d \<and> d < 2 ^ 63 then Some d else None)"

definition decode_signal :: "sim_can_frame \<Rightarrow> dbc_signal_def \<Rightarrow> dbc_error failure + f64" where
  "decode_signal frame s =
     res_bind (map_err Fails (extract_raw frame s)) (\<lambda>raw.
     res_bind (case ds_value_type s of
         SignedType \<Rightarrow> ok_or Panics (map_option f_of_int (signed_from_raw raw (unat (ds_size s))))
       | UnsignedType \<Rightarrow> Inr (f_of_int (uint raw))) (\<lambda>numeric.
     Inr (fadd (fmul numeric (ds_factor s)) (ds_offset s))))"

definition raw_number :: "dbc_signal_def \<Rightarrow> f64 \<Rightarrow> int" where
  \<comment> \<open>\<open>((value - offset) / factor).round() as i64\<close>, which saturates.\<close>
  "raw_number s v = f_as_i64 (fround (fdiv (fsub v (ds_offset s)) (ds_factor s)))"

definition raw_mask :: "nat \<Rightarrow> u64" where
  "raw_mask n = (if n = 64 then - 1 else push_bit n 1 - 1)"

definition raw_of_number :: "dbc_signal_def \<Rightarrow> int \<Rightarrow> dbc_error + u64" where
  "raw_of_number s raw_i64 =
     (let n = unat (ds_size s) in case ds_value_type s of
        SignedType \<Rightarrow>
          (let mn = - (2 ^ (n - 1)); mx = 2 ^ (n - 1) - 1 in
           if raw_i64 < mn \<or> mx < raw_i64 then Inl (DbcSignedRange raw_i64 (ds_size s) (ds_name s))
           else Inr (word_of_int raw_i64 AND raw_mask n))
      | UnsignedType \<Rightarrow>
          if raw_i64 < 0 then Inl (DbcNegative raw_i64 (ds_name s))
          else let raw = word_of_int raw_i64 in
            if raw_mask n < raw then Inl (DbcUnsignedRange raw (ds_size s) (ds_name s))
            else Inr raw)"

definition encode_checks :: "dbc_signal_def \<Rightarrow> f64 \<Rightarrow> dbc_error + unit" where
  "encode_checks s v =
     (if \<not> is_finite v then Inl (DbcNotFinite (ds_name s))
      else if (\<not> feq (ds_min s) (Fin 0) \<or> \<not> feq (ds_max s) (Fin 0)) \<and>
              (flt v (ds_min s) \<or> flt (ds_max s) v) then Inl (DbcOutOfRange v (ds_name s))
      else if feq (ds_factor s) (Fin 0) then Inl (DbcZeroFactor (ds_name s))
      else Inr ())"

definition encode_header :: "dbc_signal_def \<Rightarrow> sim_can_frame \<Rightarrow> sim_can_frame" where
  "encode_header s frame =
     (let len = max (ds_message_size s) (fr_len frame);
          fd = (if 8 < len then fr_flags frame OR CAN_FLAG_FD else fr_flags frame AND NOT CAN_FLAG_FD);
          flags = (if ds_extended s then fd OR CAN_FLAG_EXTENDED else fd AND NOT CAN_FLAG_EXTENDED)
      in frame\<lparr>fr_len := len, fr_flags := flags\<rparr>)"

definition encode_signal :: "dbc_signal_def \<Rightarrow> f64 \<Rightarrow> (sim_can_frame, dbc_error, unit) act" where
  "encode_signal s v =
     a_bind (a_lift (encode_checks s v)) (\<lambda>_.
     a_bind (a_lift (raw_of_number s (raw_number s v))) (\<lambda>raw_u64.
     a_bind (insert_raw s raw_u64) (\<lambda>_.
     a_mod (encode_header s))))"

section \<open>Bits of a payload\<close>

definition data_bit :: "u8 list \<Rightarrow> nat \<Rightarrow> bool" where
  "data_bit d j = bit (d ! (j div 8)) (j mod 8)"

lemma data_bit_ext:
  assumes "length d = 64" "length d' = 64" "\<And>j. j < 512 \<Longrightarrow> data_bit d j = data_bit d' j"
  shows "d = d'"
proof (rule nth_equalityI)
  fix i assume i: "i < length d"
  show "d ! i = d' ! i"
  proof (rule bit_word_eqI)
    fix k :: nat assume "k < LENGTH(8)"
    then show "bit (d ! i) k = bit (d' ! i) k"
      using assms(3)[of "8 * i + k"] i assms(1) by (simp add: data_bit_def)
  qed
qed (use assms in simp)

lemma get_bit_eq:
  "length d = 64 \<Longrightarrow>
    get_bit d j = (if j < 512 then Inr (of_bool (data_bit d j)) else Inl (DbcBitOutOfBounds j))"
  by (auto simp: get_bit_def data_bit_def Let_def and_one_eq bit_iff_odd_drop_bit mod2_eq_if)

definition put_bit :: "nat \<Rightarrow> bool \<Rightarrow> u8 list \<Rightarrow> u8 list" where
  "put_bit j b d = snd (set_bit_at j (of_bool b) d)"

lemma length_put_bit [simp]: "length (put_bit j b d) = length d"
  by (simp add: put_bit_def set_bit_at_def Let_def)

lemma set_bit_eq:
  "length d = 64 \<Longrightarrow> set_bit_at j (of_bool b) d =
    (if j < 512 then (Inr (), put_bit j b d) else (Inl (DbcBitOutOfBounds j), d))"
  by (auto simp: set_bit_at_def put_bit_def Let_def)

lemma data_bit_put:
  assumes "length d = 64" "j < 512" "k < 512"
  shows "data_bit (put_bit j b d) k = (if k = j then b else data_bit d k)"
proof -
  have same: "k div 8 = j div 8 \<Longrightarrow> k mod 8 = j mod 8 \<Longrightarrow> k = j"
    by (metis div_mult_mod_eq)
  have m: "bit (push_bit (j mod 8) 1 :: u8) i \<longleftrightarrow> i = j mod 8" for i
    by (auto simp: bit_exp_iff)
  have n: "k mod 8 < 8" and j: "j div 8 < length d" using assms by simp_all
  have byte: "put_bit j b d ! (k div 8) = (if k div 8 = j div 8
      then (if b then d ! (j div 8) OR push_bit (j mod 8) 1
            else d ! (j div 8) AND NOT (push_bit (j mod 8) 1)) else d ! (k div 8))"
    using j by (simp add: put_bit_def set_bit_at_def Let_def nth_list_update)
  show ?thesis
  proof (cases "k div 8 = j div 8")
    case True
    then show ?thesis
      unfolding data_bit_def byte using same n m[of "k mod 8"]
      by (cases b; cases "k mod 8 = j mod 8") (auto simp: bit_or_iff bit_and_iff bit_not_iff)
  next
    case False
    then show ?thesis unfolding data_bit_def byte by auto
  qed
qed

section \<open>Layouts\<close>

text \<open>
  A layout gives, for every bit of a raw value, its position in the payload. Reading and writing
  through a layout whose positions differ and lie in the payload are inverse, and writing leaves
  the other bits alone; both byte orders are instances.
\<close>

locale bit_layout =
  fixes n :: nat and pos :: "nat \<Rightarrow> nat"
  assumes width: "n \<le> 64"
    and distinct: "k < n \<Longrightarrow> l < n \<Longrightarrow> pos k = pos l \<Longrightarrow> k = l"
    and inside: "k < n \<Longrightarrow> pos k < 512"
begin

definition reads :: "u8 list \<Rightarrow> u64 \<Rightarrow> bool" where
  "reads d raw \<longleftrightarrow> (\<forall>k. bit raw k = (k < n \<and> data_bit d (pos k)))"

definition writes :: "u64 \<Rightarrow> u8 list \<Rightarrow> u8 list \<Rightarrow> bool" where
  "writes raw d d' \<longleftrightarrow> length d' = length d \<and> (\<forall>k<n. data_bit d' (pos k) = bit raw k) \<and>
     (\<forall>j<512. (\<forall>k<n. j \<noteq> pos k) \<longrightarrow> data_bit d' j = data_bit d j)"

lemma reads_unique: "reads d raw \<Longrightarrow> reads d raw' \<Longrightarrow> raw = raw'"
  by (rule bit_word_eqI) (simp add: reads_def)

lemma read_written: "writes raw d d' \<Longrightarrow> reads d' (take_bit n raw)"
  by (simp add: reads_def writes_def bit_take_bit_iff) blast

lemma write_read:
  assumes r: "reads d raw" and w: "writes raw d d'" and len: "length d = 64"
  shows "d' = d"
proof (rule data_bit_ext)
  fix j :: nat assume "j < 512"
  then show "data_bit d' j = data_bit d j"
    using r w by (cases "\<exists>k<n. j = pos k") (auto simp: reads_def writes_def)
qed (use w len in \<open>auto simp: writes_def\<close>)

lemma reads_small: "reads d raw \<Longrightarrow> take_bit n raw = raw"
  by (rule bit_word_eqI) (auto simp: reads_def bit_take_bit_iff)

end

section \<open>The two byte orders as layouts\<close>

definition lin :: "nat \<Rightarrow> nat" where
  \<comment> \<open>The Motorola order reads each byte from its highest bit down.\<close>
  "lin p = 8 * (p div 8) + (7 - p mod 8)"

lemma byte_split: "(s :: nat) < 8 \<Longrightarrow> (8 * q + s) div 8 = q \<and> (8 * q + s) mod 8 = s"
  by simp

lemma lin_byte: "s < 8 \<Longrightarrow> lin (8 * q + s) = 8 * q + (7 - s)"
  by (simp add: lin_def)

lemma lin_div_mod: "lin p div 8 = p div 8" "lin p mod 8 = 7 - p mod 8"
  using byte_split[of "7 - p mod 8" "p div 8"] by (simp_all add: lin_def)

lemma lin_next: "lin (next_motorola_bit p) = lin p + 1"
proof -
  define q s where "q = p div 8" and "s = p mod 8"
  have p: "p = 8 * q + s" and s: "s < 8" by (simp_all add: q_def s_def)
  show ?thesis
  proof (cases s)
    case 0
    then show ?thesis
      using lin_byte[of 0 q] lin_byte[of 7 "q + 1"] by (simp add: p next_motorola_bit_def algebra_simps)
  next
    case (Suc r)
    then show ?thesis
      using lin_byte[of s q] lin_byte[of r q] s byte_split[of s q] by (simp add: p next_motorola_bit_def)
  qed
qed

lemma lin_lin: "lin (lin p) = p"
proof -
  have "p mod 8 \<le> 7" by (simp add: less_Suc_eq_le[symmetric])
  then show ?thesis by (simp add: lin_def[of "lin p"] lin_div_mod)
qed

lemma lin_inj: "lin p = lin q \<Longrightarrow> p = q"
  by (metis lin_lin)

lemma lin_bound: "lin p < 512 \<longleftrightarrow> p < 512"
proof -
  have "x < 512 \<longleftrightarrow> x div 8 < 64" for x :: nat by linarith
  then show ?thesis by (simp only: lin_div_mod)
qed

definition le_pos :: "nat \<Rightarrow> nat \<Rightarrow> nat" where
  "le_pos start k = start + k"

definition be_pos :: "nat \<Rightarrow> nat \<Rightarrow> nat \<Rightarrow> nat" where
  \<comment> \<open>Bit \<open>k\<close> of a value of \<open>n\<close> bits whose highest bit is at \<open>start\<close>.\<close>
  "be_pos start n k = lin (lin start + (n - 1 - k))"

lemma be_pos_top: "be_pos start (Suc n) n = start"
  by (simp add: be_pos_def lin_lin)

lemma be_pos_next: "k < n \<Longrightarrow> be_pos (next_motorola_bit start) n k = be_pos start (Suc n) k"
proof -
  assume "k < n"
  then have "lin start + 1 + (n - 1 - k) = lin start + (Suc n - 1 - k)" by simp
  then show ?thesis by (simp only: be_pos_def lin_next)
qed

definition le_fits :: "nat \<Rightarrow> nat \<Rightarrow> bool" where
  "le_fits start n = (n \<le> 64 \<and> start + n \<le> 512)"

definition be_fits :: "nat \<Rightarrow> nat \<Rightarrow> bool" where
  "be_fits start n = (n \<le> 64 \<and> lin start + n \<le> 512)"

lemma bit_layout_le: "le_fits start n \<Longrightarrow> bit_layout n (le_pos start)"
  by unfold_locales (auto simp: le_fits_def le_pos_def)

lemma bit_layout_be: "be_fits start n \<Longrightarrow> bit_layout n (be_pos start n)"
proof
  assume f: "be_fits start n"
  then show "n \<le> 64" by (simp add: be_fits_def)
  show "k = l" if "k < n" "l < n" "be_pos start n k = be_pos start n l" for k l
    using that by (auto simp: be_pos_def dest!: lin_inj)
  show "be_pos start n k < 512" if "k < n" for k
    using that f unfolding be_pos_def lin_bound be_fits_def by linarith
qed

interpretation le8: bit_layout 8 "le_pos 0"
  by (rule bit_layout_le) (simp add: le_fits_def)

interpretation be64: bit_layout 64 "be_pos 7 64"
  by (rule bit_layout_be) (simp add: be_fits_def lin_def)

lemma extract_le_bits:
  assumes "length d = 64" "start + idx + n \<le> 512" "idx + n \<le> 64"
  shows "\<exists>r. extract_le d start idx n raw = Inr r \<and>
    (\<forall>k. bit r k = (bit raw k \<or> idx \<le> k \<and> k < idx + n \<and> data_bit d (start + k)))"
  using assms
proof (induction n arbitrary: idx raw)
  case 0
  then show ?case by auto
next
  case (Suc n)
  let ?b = "data_bit d (start + idx)"
  from Suc.IH[of "idx + 1" "raw OR push_bit idx (of_bool ?b)"] Suc.prems obtain r where
    r: "extract_le d start (idx + 1) n (raw OR push_bit idx (of_bool ?b)) = Inr r"
    and bits: "\<And>k. bit r k = (bit (raw OR push_bit idx (of_bool ?b)) k \<or>
        idx + 1 \<le> k \<and> k < idx + 1 + n \<and> data_bit d (start + k))"
    by auto
  have "extract_le d start idx (Suc n) raw = Inr r"
    using Suc.prems r by (cases ?b) (simp_all add: get_bit_eq)
  moreover have "bit (push_bit idx (of_bool ?b) :: u64) k = (k = idx \<and> ?b)" for k
    using Suc.prems by (auto simp: bit_push_bit_iff bit_of_bool_iff)
  then have "bit r k = (bit raw k \<or> idx \<le> k \<and> k < idx + Suc n \<and> data_bit d (start + k))" for k
    using bits by (auto simp: bit_or_iff less_Suc_eq_le Suc_le_eq le_less)
  ultimately show ?case by blast
qed

lemma bit_double_word: "bit (raw * 2 :: u64) k \<longleftrightarrow> 0 < k \<and> k < 64 \<and> bit raw (k - 1)"
  using bit_push_bit_iff[of 1 raw k] by (auto simp: Suc_le_eq)

lemma extract_be_bits:
  assumes "length d = 64" "lin pos + n \<le> 512" "bit_fits + n \<le> 64" "\<And>k. bit raw k \<Longrightarrow> k < bit_fits"
  shows "\<exists>r. extract_be d pos n raw = Inr r \<and>
    (\<forall>k. bit r k = (if k < n then data_bit d (be_pos pos n k) else bit raw (k - n)))"
  using assms
proof (induction n arbitrary: pos raw bit_fits)
  case 0
  then show ?case by auto
next
  case (Suc n)
  let ?raw = "push_bit 1 raw OR of_bool (data_bit d pos)"
  have pos: "pos < 512" using Suc.prems(2) lin_bound[of pos] by simp
  have b: "bit ?raw k = (if k = 0 then data_bit d pos else bit raw (k - 1))" for k
    using Suc.prems(3) Suc.prems(4)[of "k - 1"]
    by (cases "k = 0") (auto simp: bit_or_iff bit_double_word bit_of_bool_iff)
  have small: "bit ?raw k \<Longrightarrow> k < bit_fits + 1" for k
    unfolding b using Suc.prems(4)[of "k - 1"] by (cases "k = 0") auto
  from Suc.IH[of "next_motorola_bit pos" "bit_fits + 1" ?raw] Suc.prems small obtain r where
    r: "extract_be d (next_motorola_bit pos) n ?raw = Inr r"
    and bits: "\<And>k. bit r k = (if k < n then data_bit d (be_pos (next_motorola_bit pos) n k)
      else bit ?raw (k - n))"
    by (auto simp: lin_next)
  have "extract_be d pos (Suc n) raw = Inr r"
    using Suc.prems(1) pos r by (cases "data_bit d pos") (simp_all add: get_bit_eq)
  moreover have "bit r k = (if k < Suc n then data_bit d (be_pos pos (Suc n) k) else bit raw (k - Suc n))" for k
    unfolding bits b using be_pos_next[of k n pos] be_pos_top[of pos n] by (auto simp: less_Suc_eq)
  ultimately show ?case by blast
qed

lemma raw_bit: "ucast (drop_bit k (raw :: u64) AND 1) = (of_bool (bit raw k) :: u8)"
  by (simp add: and_one_eq bit_iff_odd_drop_bit mod2_eq_if)

lemma insert_le_bits:
  assumes "length d = 64" "start + idx + n \<le> 512"
  shows "\<exists>d'. insert_le raw start idx n d = (Inr (), d') \<and> length d' = 64 \<and>
    (\<forall>j<512. data_bit d' j =
      (if start + idx \<le> j \<and> j < start + idx + n then bit raw (j - start) else data_bit d j))"
  using assms
proof (induction n arbitrary: idx d)
  case 0
  then show ?case by auto
next
  case (Suc n)
  let ?d = "put_bit (start + idx) (bit raw idx) d"
  from Suc.IH[of ?d "idx + 1"] Suc.prems obtain d' where
    r: "insert_le raw start (idx + 1) n ?d = (Inr (), d')" "length d' = 64"
    and bits: "\<And>j. j < 512 \<Longrightarrow> data_bit d' j = (if start + (idx + 1) \<le> j \<and> j < start + (idx + 1) + n
      then bit raw (j - start) else data_bit ?d j)"
    by auto
  have "insert_le raw start idx (Suc n) d = (Inr (), d')"
    using Suc.prems r(1) by (simp add: raw_bit a_bind_def set_bit_eq)
  moreover have "data_bit d' j = (if start + idx \<le> j \<and> j < start + idx + Suc n
      then bit raw (j - start) else data_bit d j)" if "j < 512" for j
    using bits[OF that] Suc.prems that data_bit_put[of d "start + idx" j "bit raw idx"] by auto
  ultimately show ?case using r(2) by blast
qed

lemma insert_be_bits:
  assumes "length d = 64" "lin pos + n \<le> 512"
  shows "\<exists>d'. insert_be raw pos n d = (Inr (), d') \<and> length d' = 64 \<and>
    (\<forall>j<512. data_bit d' j =
      (if lin pos \<le> lin j \<and> lin j < lin pos + n then bit raw (n - 1 - (lin j - lin pos))
       else data_bit d j))"
  using assms
proof (induction n arbitrary: pos d)
  case 0
  then show ?case by auto
next
  case (Suc n)
  let ?d = "put_bit pos (bit raw n) d"
  have pos: "pos < 512" using Suc.prems(2) lin_bound[of pos] by simp
  from Suc.IH[of ?d "next_motorola_bit pos"] Suc.prems obtain d' where
    r: "insert_be raw (next_motorola_bit pos) n ?d = (Inr (), d')" "length d' = 64"
    and bits: "\<And>j. j < 512 \<Longrightarrow> data_bit d' j = (if lin pos + 1 \<le> lin j \<and> lin j < lin pos + 1 + n
      then bit raw (n - 1 - (lin j - (lin pos + 1))) else data_bit ?d j)"
    by (auto simp: lin_next)
  have "insert_be raw pos (Suc n) d = (Inr (), d')"
    using Suc.prems(1) pos r(1) by (simp add: raw_bit a_bind_def set_bit_eq)
  moreover have "data_bit d' j = (if lin pos \<le> lin j \<and> lin j < lin pos + Suc n
      then bit raw (Suc n - 1 - (lin j - lin pos)) else data_bit d j)" if "j < 512" for j
    using bits[OF that] Suc.prems(1) pos that data_bit_put[of d pos j "bit raw n"] lin_inj[of j pos]
    by (cases "j = pos") auto
  ultimately show ?case using r(2) by blast
qed

section \<open>Both byte orders meet the layout contract\<close>

definition signal_pos :: "dbc_signal_def \<Rightarrow> nat \<Rightarrow> nat" where
  "signal_pos s = (case ds_byte_order s of LittleEndian \<Rightarrow> le_pos (unat (ds_start_bit s))
     | BigEndian \<Rightarrow> be_pos (unat (ds_start_bit s)) (unat (ds_size s)))"

definition signal_fits :: "dbc_signal_def \<Rightarrow> bool" where
  "signal_fits s = (case ds_byte_order s of
     LittleEndian \<Rightarrow> le_fits (unat (ds_start_bit s)) (unat (ds_size s))
   | BigEndian \<Rightarrow> be_fits (unat (ds_start_bit s)) (unat (ds_size s)))"

lemma bit_layout_signal: "signal_fits s \<Longrightarrow> bit_layout (unat (ds_size s)) (signal_pos s)"
  by (cases "ds_byte_order s")
    (auto simp: signal_fits_def signal_pos_def bit_layout_le bit_layout_be)

lemma extract_raw_reads:
  assumes fits: "signal_fits s" and wf: "frame_wf f"
  shows "\<exists>r. extract_raw f s = Inr r \<and> bit_layout.reads (unat (ds_size s)) (signal_pos s) (fr_data f) r"
proof -
  let ?n = "unat (ds_size s)" and ?start = "unat (ds_start_bit s)"
  note reads = bit_layout.reads_def[OF bit_layout_signal[OF fits]]
  have len: "length (fr_data f) = 64" using wf by (simp add: frame_wf_def)
  have narrow: "\<not> 64 < ds_size s"
    using fits by (auto simp: signal_fits_def le_fits_def be_fits_def word_less_nat_alt split: byte_order.splits)
  show ?thesis
  proof (cases "ds_byte_order s")
    case LittleEndian
    then have pos: "signal_pos s = le_pos ?start" by (simp add: signal_pos_def)
    from LittleEndian show ?thesis
      using extract_le_bits[OF len, of ?start 0 ?n 0] fits narrow
      by (auto simp: signal_fits_def le_fits_def extract_raw_def reads[unfolded pos] pos le_pos_def)
  next
    case BigEndian
    then have pos: "signal_pos s = be_pos ?start ?n" by (simp add: signal_pos_def)
    from BigEndian show ?thesis
      using extract_be_bits[OF len, of ?start ?n 0 0] fits narrow
      by (auto simp: signal_fits_def be_fits_def extract_raw_def reads[unfolded pos] pos)
  qed
qed

lemma insert_data_writes:
  assumes fits: "signal_fits s" and len: "length d = 64"
  shows "\<exists>d'. insert_data s raw d = (Inr (), d') \<and>
    bit_layout.writes (unat (ds_size s)) (signal_pos s) raw d d'"
proof -
  let ?n = "unat (ds_size s)" and ?start = "unat (ds_start_bit s)"
  note writes = bit_layout.writes_def[OF bit_layout_signal[OF fits]]
  show ?thesis
  proof (cases "ds_byte_order s")
    case LittleEndian
    then obtain d' where d': "insert_data s raw d = (Inr (), d')" "length d' = 64"
      "\<And>j. j < 512 \<Longrightarrow> data_bit d' j =
        (if ?start \<le> j \<and> j < ?start + ?n then bit raw (j - ?start) else data_bit d j)"
      using insert_le_bits[OF len, of ?start 0 ?n raw] fits
      by (auto simp: signal_fits_def le_fits_def insert_data_def)
    have "bit_layout.writes ?n (signal_pos s) raw d d'"
      unfolding writes
    proof (intro conjI allI impI)
      show "data_bit d' (signal_pos s k) = bit raw k" if "k < ?n" for k
        using that fits d'(3)[of "?start + k"] LittleEndian
        by (simp add: signal_pos_def le_pos_def signal_fits_def le_fits_def)
      show "data_bit d' j = data_bit d j" if "j < 512" "\<forall>k<?n. j \<noteq> signal_pos s k" for j
      proof -
        have "\<not> (?start \<le> j \<and> j < ?start + ?n)"
        proof
          assume b: "?start \<le> j \<and> j < ?start + ?n"
          then have "j = signal_pos s (j - ?start)" using LittleEndian by (simp add: signal_pos_def le_pos_def)
          moreover have "j - ?start < ?n" using b by linarith
          ultimately show False using that(2) by blast
        qed
        then show ?thesis using d'(3)[OF that(1)] by auto
      qed
    qed (use d'(2) len in simp)
    with d'(1) show ?thesis by blast
  next
    case BigEndian
    then obtain d' where d': "insert_data s raw d = (Inr (), d')" "length d' = 64"
      "\<And>j. j < 512 \<Longrightarrow> data_bit d' j = (if lin ?start \<le> lin j \<and> lin j < lin ?start + ?n
        then bit raw (?n - 1 - (lin j - lin ?start)) else data_bit d j)"
      using insert_be_bits[OF len, of ?start ?n raw] fits
      by (auto simp: signal_fits_def be_fits_def insert_data_def)
    have pos: "signal_pos s = be_pos ?start ?n" using BigEndian by (simp add: signal_pos_def)
    have "bit_layout.writes ?n (signal_pos s) raw d d'"
      unfolding pos writes[unfolded pos]
    proof (intro conjI allI impI)
      show "data_bit d' (be_pos ?start ?n k) = bit raw k" if "k < ?n" for k
      proof -
        define e where "e = ?n - 1 - k"
        have "lin (be_pos ?start ?n k) = lin ?start + e" by (simp only: be_pos_def lin_lin e_def)
        moreover have "e < ?n" "?n - 1 - e = k" using that by (simp_all add: e_def)
        moreover have "be_pos ?start ?n k < 512"
          using bit_layout.inside[OF bit_layout_signal[OF fits] that] by (simp add: pos)
        ultimately show ?thesis using that d'(3)[of "be_pos ?start ?n k"] by simp
      qed
      show "data_bit d' j = data_bit d j" if "j < 512" "\<forall>k<?n. j \<noteq> be_pos ?start ?n k" for j
      proof -
        have "\<not> (lin ?start \<le> lin j \<and> lin j < lin ?start + ?n)"
        proof
          assume b: "lin ?start \<le> lin j \<and> lin j < lin ?start + ?n"
          then have "j = be_pos ?start ?n (?n - 1 - (lin j - lin ?start))"
            by (simp add: be_pos_def lin_lin)
          moreover have "?n - 1 - (lin j - lin ?start) < ?n" using b by linarith
          ultimately show False using that(2) by blast
        qed
        then show ?thesis using d'(3)[OF that(1)] by auto
      qed
    qed (use d'(2) len in simp)
    with d'(1) show ?thesis by blast
  qed
qed

section \<open>Access to a signal's bits\<close>

lemma extract_le_ok:
  "length d = 64 \<Longrightarrow> is_ok (extract_le d start idx n raw) \<longleftrightarrow> n = 0 \<or> start + idx + n \<le> 512"
  by (induction n arbitrary: idx raw) (auto simp: get_bit_eq)

lemma extract_be_ok:
  "length d = 64 \<Longrightarrow> is_ok (extract_be d pos n raw) \<longleftrightarrow> n = 0 \<or> lin pos + n \<le> 512"
proof (induction n arbitrary: pos raw)
  case (Suc n)
  then show ?case using lin_bound[of pos] by (auto simp: get_bit_eq lin_next)
qed simp

lemma extract_raw_ok:
  assumes "frame_wf f" "ds_size s \<noteq> 0"
  shows "is_ok (extract_raw f s) \<longleftrightarrow> signal_fits s"
proof -
  have "unat (ds_size s) \<noteq> 0" using assms(2) by (simp add: unat_eq_zero)
  moreover have "64 < ds_size s \<longleftrightarrow> \<not> unat (ds_size s) \<le> 64" by (simp add: word_less_nat_alt not_le)
  ultimately show ?thesis
    using assms(1)
    by (cases "ds_byte_order s")
      (auto simp: extract_raw_def signal_fits_def le_fits_def be_fits_def extract_le_ok extract_be_ok
        frame_wf_def)
qed

text \<open>
  C7: reading and writing a signal's bits are inverse in both byte orders. If the signal lies in
  the 64 bytes, writing a raw value succeeds, reading it back gives its low \<open>size\<close> bits, no other
  bit of the payload and no other field of the frame changes, and writing back what was read
  restores the frame; a signal that does not lie in the frame cannot be read.
\<close>

theorem dbc_bits_roundtrip:
  assumes wf: "frame_wf f" and fits: "signal_fits s"
  shows "\<exists>f'. insert_raw s raw f = (Inr (), f') \<and>
    extract_raw f' s = Inr (take_bit (unat (ds_size s)) raw) \<and>
    f'\<lparr>fr_data := fr_data f\<rparr> = f \<and>
    (\<forall>j. j < 512 \<and> j \<notin> signal_pos s ` {..<unat (ds_size s)} \<longrightarrow>
       data_bit (fr_data f') j = data_bit (fr_data f) j) \<and>
    (\<exists>old. extract_raw f s = Inr old \<and> insert_raw s old f' = (Inr (), f))"
proof -
  let ?n = "unat (ds_size s)" and ?d = "fr_data f"
  note lay = bit_layout_signal[OF fits]
  have len: "length ?d = 64" using wf by (simp add: frame_wf_def)
  obtain d' where d': "insert_data s raw ?d = (Inr (), d')"
    and w: "bit_layout.writes ?n (signal_pos s) raw ?d d'"
    using insert_data_writes[OF fits len] by blast
  let ?f = "f\<lparr>fr_data := d'\<rparr>"
  have len': "length d' = 64" using w len by (simp add: bit_layout.writes_def[OF lay])
  then have wf': "frame_wf ?f" by (simp add: frame_wf_def)
  obtain r where r: "extract_raw ?f s = Inr r" "bit_layout.reads ?n (signal_pos s) d' r"
    using extract_raw_reads[OF fits wf'] by auto
  have "r = take_bit ?n raw"
    using bit_layout.reads_unique[OF lay r(2) bit_layout.read_written[OF lay w]] .
  moreover obtain old where old: "extract_raw f s = Inr old"
    "bit_layout.reads ?n (signal_pos s) ?d old"
    using extract_raw_reads[OF fits wf] by auto
  moreover obtain d2 where d2: "insert_data s old d' = (Inr (), d2)"
    "bit_layout.writes ?n (signal_pos s) old d' d2"
    using insert_data_writes[OF fits len'] by blast
  moreover have "d2 = ?d"
  proof (rule data_bit_ext)
    show "length d2 = 64" using d2(2) len' by (simp add: bit_layout.writes_def[OF lay])
    show "data_bit d2 j = data_bit ?d j" if "j < 512" for j
      using that w d2(2) old(2)
      by (cases "\<exists>k<?n. j = signal_pos s k")
        (auto simp: bit_layout.writes_def[OF lay] bit_layout.reads_def[OF lay])
  qed (rule len)
  ultimately show ?thesis
    using d' r(1) w by (auto simp: insert_raw_def bit_layout.writes_def[OF lay])
qed

definition demo_signal :: dbc_signal_def where
  "demo_signal = \<lparr>ds_name = ''rpm'', ds_frame_key = 0x123, ds_arb_id = 0x123, ds_extended = False,
     ds_message_size = 8, ds_start_bit = 7, ds_size = 12, ds_byte_order = BigEndian,
     ds_value_type = SignedType, ds_factor = Fin 1, ds_offset = Fin 0, ds_min = Fin 0,
     ds_max = Fin 0, ds_unit = None\<rparr>"

definition demo_frame :: sim_can_frame where
  "demo_frame = \<lparr>arb_id = 0x123, fr_len = 8, fr_flags = 0, fr_data = replicate 64 0\<rparr>"

lemma demo_facts: "signal_fits demo_signal" "frame_wf demo_frame"
  by (simp_all add: demo_signal_def demo_frame_def signal_fits_def be_fits_def lin_def frame_wf_def)

theorem dbc_bits_roundtrip_witness:
  "\<exists>f'. insert_raw demo_signal 0xABC demo_frame = (Inr (), f') \<and>
     extract_raw f' demo_signal = Inr 0xABC"
  using dbc_bits_roundtrip[OF demo_facts(2,1), of "0xABC"]
  by (auto simp: demo_signal_def take_bit_eq_mask mask_eq_exp_minus_1)

section \<open>Signed values\<close>

lemma uint_exp: "n < 64 \<Longrightarrow> uint (2 ^ n :: u64) = 2 ^ n"
  using unsigned_push_bit_eq[of n "1 :: u64", where 'a = int]
  by (simp add: push_bit_eq_mult take_bit_int_eq_self)

lemma sint_small: "uint (raw :: u64) < 2 ^ 63 \<Longrightarrow> sint raw = uint raw"
  using signed_take_bit_int_eq_self[of 63 "uint raw"] uint_ge_0[of raw] by (simp add: sint_uint)

text \<open>
  The signed reading is two's complement. A raw value of 1 to 64 bits is read as the integer
  its low bits stand for; the one exception is 63 bits with the sign bit set, where the subtraction
  overflows \<open>i64\<close>.
\<close>

theorem signed_from_raw_correct:
  assumes "0 < n" "n \<le> 64" and small: "take_bit n raw = raw"
  shows "signed_from_raw raw n =
    (if n = 63 \<and> bit raw 62 then None else Some (signed_take_bit (n - 1) (uint raw)))"
proof (cases "n = 64")
  case True
  then show ?thesis by (simp add: signed_from_raw_def sint_uint)
next
  case False
  with assms have n: "n \<le> 63" by simp
  have u: "uint raw < 2 ^ n"
    using small by (metis take_bit_int_less_exp unsigned_take_bit_eq)
  then have "uint raw < 2 ^ 63" using power_increasing[OF n, of "2 :: int"] by linarith
  then have s: "sint raw = uint raw" by (rule sint_small)
  have bit: "raw AND push_bit (n - 1) 1 = 0 \<longleftrightarrow> \<not> bit raw (n - 1)"
    by (simp add: push_bit_eq_mult and_exp_eq_0_iff_not_bit)
  have stb: "signed_take_bit (n - 1) (uint raw) = (if bit raw (n - 1) then uint raw - 2 ^ n else uint raw)"
    using assms(1) n small less_imp_diff_less[of n 64 1]
    by (simp add: signed_take_bit_eq_take_bit_minus bit_uint_iff flip: unsigned_take_bit_eq)
  have top: "uint raw - 2 ^ n < 0" "0 \<le> uint raw" using u by simp_all
  show ?thesis
  proof (cases "n = 63")
    case True
    then show ?thesis
      using bit s top \<open>uint raw < 2 ^ 63\<close>
      by (auto simp: signed_from_raw_def stb[unfolded True, simplified] Let_def push_bit_eq_mult sint_uint)
  next
    case False
    then have "(2 :: int) ^ n \<le> 2 ^ 62" using n by (intro power_increasing) auto
    moreover have "sint (push_bit n 1 :: u64) = 2 ^ n"
      using \<open>(2 :: int) ^ n \<le> 2 ^ 62\<close> n False
      using sint_small[of "2 ^ n"] uint_exp[of n] by (simp add: push_bit_eq_mult)
    moreover have "- (2 ^ 63) \<le> uint raw - 2 ^ n" "uint raw - 2 ^ n < 2 ^ 63"
    proof -
      have "(2 :: int) ^ 63 = 2 * 2 ^ 62" by simp
      moreover have "(0 :: int) < 2 ^ 62" by simp
      ultimately show "- (2 ^ 63) \<le> uint raw - 2 ^ n" "uint raw - 2 ^ n < 2 ^ 63"
        using top \<open>(2 :: int) ^ n \<le> 2 ^ 62\<close> by linarith+
    qed
    ultimately show ?thesis
      using assms(1) n False bit s by (auto simp: signed_from_raw_def stb[simplified] Let_def)
  qed
qed

theorem signed_from_raw_correct_witness:
  "signed_from_raw 0xFFE 12 = Some (- 2)"
  using signed_from_raw_correct[of 12 "0xFFE"]
  by (simp add: take_bit_eq_mask mask_eq_exp_minus_1 signed_take_bit_eq_take_bit_minus)

section \<open>Encoding and decoding\<close>

lemma raw_mask_mask: "n \<le> 64 \<Longrightarrow> raw_mask n = mask n"
  by (auto simp: raw_mask_def mask_eq_decr_exp push_bit_eq_mult)

lemma signed_take_bit_range:
  "0 < n \<Longrightarrow> - (2 ^ (n - 1)) \<le> x \<Longrightarrow> x < 2 ^ (n - 1) \<Longrightarrow> signed_take_bit (n - 1) x = (x :: int)"
  by (rule signed_take_bit_int_eq_self)

lemma f_as_i64_range: "- (2 ^ 63) \<le> f_as_i64 x \<and> f_as_i64 x < 2 ^ 63"
  by (auto simp: f_as_i64_def split: f64.splits)

text \<open>A raw value that passes the range checks stands for its number.\<close>

lemma raw_of_number_stands:
  assumes "0 < unat (ds_size s)" "unat (ds_size s) \<le> 64"
    and ok: "raw_of_number s x = Inr raw" and x: "x < 2 ^ 63"
  shows "take_bit (unat (ds_size s)) raw = raw"
    and "ds_value_type s = UnsignedType \<Longrightarrow> uint raw = x"
    and "ds_value_type s = SignedType \<Longrightarrow> signed_take_bit (unat (ds_size s) - 1) (uint raw) = x"
    and "ds_value_type s = SignedType \<Longrightarrow> bit raw (unat (ds_size s) - 1) \<longleftrightarrow> x < 0"
proof -
  let ?n = "unat (ds_size s)"
  note m = raw_mask_mask[OF assms(2)]
  show "take_bit ?n raw = raw"
  proof (cases "ds_value_type s")
    case SignedType
    then show ?thesis using ok by (auto simp: raw_of_number_def Let_def m take_bit_eq_mask split: if_splits)
  next
    case UnsignedType
    then have "raw \<le> mask ?n" using ok by (auto simp: raw_of_number_def Let_def m split: if_splits)
    then have "uint raw \<le> mask ?n" using assms(2) by (simp add: word_le_def uint_mask_eq min_absorb2)
    then have "uint raw < 2 ^ ?n" by (simp add: mask_eq_exp_minus_1)
    then have "uint (take_bit ?n raw) = uint raw" by (simp add: unsigned_take_bit_eq take_bit_int_eq_self)
    then show ?thesis by (rule word_uint_eqI)
  qed
  show "uint raw = x" if "ds_value_type s = UnsignedType"
    using that ok x by (auto simp: raw_of_number_def Let_def uint_word_of_int_eq take_bit_int_eq_self split: if_splits)
  assume S: "ds_value_type s = SignedType"
  then have raw: "raw = take_bit ?n (word_of_int x)" and r: "- (2 ^ (?n - 1)) \<le> x" "x < 2 ^ (?n - 1)"
    using ok by (auto simp: raw_of_number_def Let_def m take_bit_eq_mask split: if_splits)
  have u: "uint raw = take_bit ?n x"
    unfolding raw using assms(2) by (simp add: unsigned_take_bit_eq uint_word_of_int_eq min_absorb1)
  show stb: "signed_take_bit (?n - 1) (uint raw) = x"
  proof -
    have "\<not> ?n \<le> ?n - 1" using assms(1) by linarith
    then show ?thesis
      unfolding u signed_take_bit_take_bit using signed_take_bit_range[OF assms(1) r] by (simp only: if_False)
  qed
  show "bit raw (?n - 1) \<longleftrightarrow> x < 0"
  proof -
    have "?n - 1 < 64" using assms(1,2) by linarith
    then show ?thesis
      using signed_take_bit_negative_iff[of "?n - 1" "uint raw"] by (simp only: stb bit_uint_iff) simp
  qed
qed

lemma encode_header_fields [simp]:
  "fr_data (encode_header s g) = fr_data g" "arb_id (encode_header s g) = arb_id g"
  "fr_len (encode_header s g) = max (ds_message_size s) (fr_len g)"
  by (simp_all add: encode_header_def Let_def)

lemma encode_header_flags:
  "bit (fr_flags (encode_header s g)) 1 \<longleftrightarrow> 8 < fr_len (encode_header s g)"
  "bit (fr_flags (encode_header s g)) 0 \<longleftrightarrow> ds_extended s"
proof -
  have m: "bit CAN_FLAG_FD i \<longleftrightarrow> i = 1" "bit CAN_FLAG_EXTENDED i \<longleftrightarrow> i = 0" for i
    using bit_exp_iff[of 1 i, where 'a = u8] bit_exp_iff[of 0 i, where 'a = u8]
    by (auto simp: CAN_FLAG_FD_def CAN_FLAG_EXTENDED_def)
  show "bit (fr_flags (encode_header s g)) 1 \<longleftrightarrow> 8 < fr_len (encode_header s g)"
    "bit (fr_flags (encode_header s g)) 0 \<longleftrightarrow> ds_extended s"
    by (auto simp: encode_header_def Let_def bit_or_iff bit_and_iff bit_not_iff m)
qed

text \<open>
  C28: what is encoded is decoded. If \<open>encode_signal\<close> accepts a value for a signal that lies in the
  frame, decoding the new frame gives the physical value of the rounded raw number, rounded the way
  the decoder computes it, in both byte orders, signed or not; only a negative 63-bit value
  overflows in the decoder. The identifier stays, the length covers the message, and the FD and
  extended flags follow the length and the signal.
\<close>

theorem dbc_encode_decode:
  assumes wf: "frame_wf f" and fits: "signal_fits s" and size: "ds_size s \<noteq> 0"
    and enc: "encode_signal s v f = (Inr (), f')"
  shows "decode_signal f' s =
      (if ds_value_type s = SignedType \<and> ds_size s = 63 \<and> raw_number s v < 0 then Inl Panics
       else Inr (fadd (fmul (f_of_int (raw_number s v)) (ds_factor s)) (ds_offset s))) \<and>
    arb_id f' = arb_id f \<and> fr_len f' = max (ds_message_size s) (fr_len f) \<and>
    (bit (fr_flags f') 1 \<longleftrightarrow> 8 < fr_len f') \<and> (bit (fr_flags f') 0 \<longleftrightarrow> ds_extended s)"
proof -
  let ?n = "unat (ds_size s)" and ?x = "raw_number s v"
  have n: "0 < ?n" "?n \<le> 64"
    using size fits by (auto simp: unat_gt_0 signal_fits_def le_fits_def be_fits_def split: byte_order.splits)
  obtain raw g where raw: "raw_of_number s ?x = Inr raw" and g: "insert_raw s raw f = (Inr (), g)"
    and f': "f' = encode_header s g"
    using enc by (auto simp: encode_signal_def a_bind_Inr)
  have x: "?x < 2 ^ 63" using f_as_i64_range by (simp only: raw_number_def)
  note stands = raw_of_number_stands[OF n raw x]
  have ex: "extract_raw g s = Inr raw" and same: "g\<lparr>fr_data := fr_data f\<rparr> = f"
    using dbc_bits_roundtrip[OF wf fits, of raw] g stands(1) by auto
  have "extract_raw f' s = extract_raw g s"
    by (simp add: f' extract_raw_def split: byte_order.split)
  moreover have "?n = 63 \<longleftrightarrow> ds_size s = 63" by (auto simp: word_unat_eq_iff)
  ultimately have "decode_signal f' s =
      (if ds_value_type s = SignedType \<and> ds_size s = 63 \<and> ?x < 0 then Inl Panics
       else Inr (fadd (fmul (f_of_int ?x) (ds_factor s)) (ds_offset s)))"
    using ex stands signed_from_raw_correct[OF n stands(1)]
    by (cases "ds_value_type s") (auto simp: decode_signal_def)
  moreover have "arb_id g = arb_id f" "fr_len g = fr_len f"
    using arg_cong[OF same, of arb_id] arg_cong[OF same, of fr_len] by simp_all
  ultimately show ?thesis
    using encode_header_flags[of s g] by (simp add: f')
qed

text \<open>Integers of up to 53 bits survive a unit scale exactly.\<close>

lemma unit_scale:
  assumes "ds_factor s = Fin 1" "ds_offset s = Fin 0" "\<bar>z\<bar> \<le> 2 ^ 53"
  shows "raw_number s (Fin (of_int z)) = z"
    and "fadd (fmul (f_of_int z) (ds_factor s)) (ds_offset s) = Fin (of_int z)"
proof -
  have sub: "fsub (Fin (of_int z)) (Fin 0) = Fin (of_int z)"
    using rnd64_int[OF assms(3), of False]
    by (auto simp: fsub_def fadd_def fminus_def is_inf_def is_zero_def fneg_def fzero_def fval_def)
  have div: "fdiv (Fin (of_int z)) (Fin 1) = Fin (of_int z)"
    using rnd64_int[OF assms(3)]
    by (auto simp: fdiv_def is_inf_def is_zero_def fneg_def fzero_def fval_def Let_def)
  have "\<lfloor>\<bar>of_int z\<bar> + 1 / 2 :: rat\<rfloor> = \<bar>z\<bar>" by (intro floor_unique) (auto simp: abs_if)
  then have "fround (Fin (of_int z)) = Fin (of_int z)" by (auto simp: fround_def Let_def)
  moreover have "f_as_i64 (Fin (of_int z)) = z"
    using assms(3) by (auto simp: f_as_i64_def trunc_rat_def min_def max_def)
  ultimately show "raw_number s (Fin (of_int z)) = z"
    by (simp add: raw_number_def assms(1,2) sub div)
  have mul: "fmul (Fin (of_int z)) (Fin 1) = Fin (of_int z)"
    using rnd64_int[OF assms(3)]
    by (auto simp: fmul_def is_inf_def is_zero_def fneg_def fzero_def fval_def Let_def)
  show "fadd (fmul (f_of_int z) (ds_factor s)) (ds_offset s) = Fin (of_int z)"
    using rnd64_int[OF assms(3), of False] assms(3)
    by (auto simp: assms(1,2) f_of_int_exact mul fadd_def is_inf_def is_zero_def fneg_def fzero_def fval_def)
qed

theorem dbc_encode_decode_witness:
  "\<exists>f'. encode_signal demo_signal (Fin (- 5)) demo_frame = (Inr (), f') \<and>
     decode_signal f' demo_signal = Inr (Fin (- 5))"
proof -
  have "ds_factor demo_signal = Fin 1" "ds_offset demo_signal = Fin 0" by (simp_all add: demo_signal_def)
  note unit = unit_scale[OF this, of "- 5", simplified]
  have "raw_of_number demo_signal (- 5) = Inr 0xFFB"
    by (simp add: raw_of_number_def demo_signal_def raw_mask_def)
  moreover have "encode_checks demo_signal (Fin (- 5)) = Inr ()"
    by (simp add: encode_checks_def demo_signal_def is_finite_def feq_def is_inf_def fval_def)
  moreover obtain g where "insert_raw demo_signal 0xFFB demo_frame = (Inr (), g)"
    using dbc_bits_roundtrip[OF demo_facts(2,1)] by blast
  ultimately have enc: "encode_signal demo_signal (Fin (- 5)) demo_frame = (Inr (), encode_header demo_signal g)"
    by (simp add: encode_signal_def a_bind_def unit)
  moreover have "ds_size demo_signal = 12" by (simp add: demo_signal_def)
  ultimately show ?thesis
    using dbc_encode_decode[OF demo_facts(2,1) _ enc] unit by simp
qed

section \<open>The overlay\<close>

lemma hm_insert_all: "list_all P m \<Longrightarrow> P (k, v) \<Longrightarrow> list_all P (hm_insert k v m)"
  unfolding hm_insert_def by (induction m) auto

definition overlay_entry_ok :: "string \<times> dbc_signal_def \<Rightarrow> bool" where
  "overlay_entry_ok e = (case e of (name, s) \<Rightarrow>
     ds_name s = name \<and> 0 < ds_size s \<and> ds_size s \<le> 64 \<and> ds_message_size s \<le> 64 \<and>
     ds_frame_key s = frame_key (ds_arb_id s) (ds_extended s) \<and>
     (\<not> ds_extended s \<longrightarrow> ds_arb_id s < 0x10000))"

lemma entry_ok_signal:
  "ps_size s \<noteq> 0 \<Longrightarrow> \<not> 64 < ps_size s \<Longrightarrow> msz \<le> 64 \<Longrightarrow> (\<not> ext \<longrightarrow> arb < 0x10000) \<Longrightarrow>
    overlay_entry_ok (ps_name s, signal_def_of arb ext msz s)"
  by (simp add: overlay_entry_ok_def signal_def_of_def not_less word_gt_0)

lemma overlay_signals_ok:
  "overlay_signals msg arb ext msz ss m = Inr m' \<Longrightarrow> list_all overlay_entry_ok m \<Longrightarrow>
    msz \<le> 64 \<Longrightarrow> (\<not> ext \<longrightarrow> arb < 0x10000) \<Longrightarrow> list_all overlay_entry_ok m'"
  by (induction msg arb ext msz ss m rule: overlay_signals.induct)
    (simp_all add: hm_insert_all entry_ok_signal split: if_splits)

lemma overlay_messages_ok:
  "overlay_messages ps m = Inr m' \<Longrightarrow> list_all overlay_entry_ok m \<Longrightarrow> list_all overlay_entry_ok m'"
proof (induction ps m rule: overlay_messages.induct)
  case (2 p ps m)
  obtain arb ext where id: "message_arb_id (pm_id p) = (arb, ext)" by fastforce
  have small: "arb < 0x10000" if "\<not> ext"
  proof (cases "pm_id p")
    case (StandardId n)
    then have "arb = ucast n" using id by (simp add: message_arb_id_def)
    moreover have n: "unat n < 2 ^ 16" using unsigned_less[of n, where ?'a = nat] by simp
    then have "unat (ucast n :: u32) = unat n" by (simp add: unsigned_ucast_eq take_bit_nat_eq_self)
    ultimately show ?thesis using n by (simp add: word_less_nat_alt)
  qed (use id that in \<open>simp add: message_arb_id_def\<close>)
  from "2.prems" id obtain m1 where
    s: "overlay_signals (pm_name p) arb ext (ucast (pm_size p)) (pm_signals p) m = Inr m1"
      "\<not> 255 < pm_size p" "(ucast (pm_size p) :: u8) \<le> 64" and rest: "overlay_messages ps m1 = Inr m'"
    by (auto simp: Let_def res_simps not_less split: if_splits)
  have "list_all overlay_entry_ok m1"
    using overlay_signals_ok[OF s(1) "2.prems"(2) s(3)] small by blast
  then show ?case using "2.IH" rest id s by (auto simp: Let_def)
qed simp

text \<open>
  An overlay that loads is well formed. Every signal is stored under its own name, has 1 to 64
  bits and a message of at most 64 bytes, and its frame key belongs to its identifier; a standard
  identifier fits 16 bits.
\<close>

theorem overlay_load_valid:
  assumes "overlay_load read_to_string parse_dbc path = Inr m"
  shows "list_all overlay_entry_ok m \<and>
    (\<forall>name s. overlay_signal m name = Some s \<longrightarrow> ds_name s = name \<and> ds_size s \<noteq> 0)"
proof -
  obtain ps where "overlay_messages ps [] = Inr m"
    using assms by (auto simp: overlay_load_def res_simps)
  then have ok: "list_all overlay_entry_ok m" by (rule overlay_messages_ok) simp
  then have "ds_name s = name \<and> ds_size s \<noteq> 0" if "overlay_signal m name = Some s" for name s
    using map_of_SomeD[OF that[unfolded overlay_signal_def]]
    by (auto simp: list_all_iff overlay_entry_ok_def)
  with ok show ?thesis by blast
qed

theorem overlay_load_valid_witness:
  "overlay_entry_ok (''rpm'', demo_signal)"
proof -
  let ?s = "\<lparr>ps_name = ''rpm'', ps_plain = True, ps_start_bit = 7, ps_size = 12,
    ps_byte_order = BigEndian, ps_value_type = SignedType, ps_factor = Fin 1, ps_offset = Fin 0,
    ps_min = Fin 0, ps_max = Fin 0, ps_unit = []\<rparr>"
  let ?m = "\<lparr>pm_id = StandardId 0x123, pm_name = ''Engine'', pm_size = 8, pm_signals = [?s]\<rparr>"
  have "overlay_load (\<lambda>_. Some ''text'') (\<lambda>_. Some [?m]) ''engine.dbc'' = Inr [(''rpm'', demo_signal)]"
    by (simp add: overlay_load_def message_arb_id_def signal_def_of_def demo_signal_def frame_key_def
        hm_insert_def)
  from overlay_load_valid[OF this] show ?thesis by simp
qed

end
