(* ===== verification/Protocol.thy ===== *)
theory Protocol
  imports Flash Can Time_Engine
begin

text \<open>
  The messages between the command line, the instance daemon and the environment daemon:
  \<open>protocol.rs\<close>. Requests and responses are datatypes with the source's constructors; the JSON text
  (serde) is not modelled. The conversions of CAN frames and the parsing of durations are code and
  modelled here.
\<close>

section \<open>Requests\<close>

type_synonym uuid = "128 word"

record load_spec =
  ls_libpath :: string
  ls_env_tag :: "string option"
  ls_flash :: "flash_region list"

datatype instance_action =
  IPing
| ILoad load_spec
| IInfo
| ISignals
| IReset
| IGet "string list"
| ISample "string list"
| ISet "(string \<times> string) list"  \<comment> \<open>a \<open>BTreeMap\<close>: in key order\<close>
| ITraceStart string string  \<comment> \<open>path, period\<close>
| ITraceStop
| ITraceClear
| ITraceStatus
| ITimeStart
| ITimePause
| ITimeStep string
| ITimeSpeed "f64 option"
| ITimeStatus
| ICanBuses
| ICanAttach string string  \<comment> \<open>bus, interface\<close>
| ICanDetach string
| ICanLoadDbc string string  \<comment> \<open>bus, path\<close>
| ISharedList
| ISharedAttach string string bool string  \<comment> \<open>channel, path, writer, writer session\<close>
| ISharedGet string
| ICanSend string u32 string "u8 option"  \<comment> \<open>bus, identifier, payload text, flags\<close>
| IInstanceStatus
| IInstanceList
| IClose

datatype worker_action =
  WCanBuses
| WCanAttach string string
| WReadSignals "u32 list"
| WCanDiscardPendingRx
| WStep

text \<open>The first argument of an environment action is the environment's name.\<close>

datatype env_action =
  EStatus string
| EReset string
| ETimeStart string
| ETimePause string
| ETimeStep string string
| ETimeSpeed string "f64 option"
| ETimeStatus string
| ECanBuses string
| ECanLoadDbc string string string
| ECanSend string string u32 string "u8 option"
| ECanInspect string string
| ECanScheduleAdd string string "string option" u32 string string "u8 option"
    \<comment> \<open>bus, job id, identifier, payload text, period, flags\<close>
| ECanScheduleUpdate string string u32 string string "u8 option"
| ECanScheduleRemove string string
| ECanScheduleStop string string
| ECanScheduleStart string string
| ECanScheduleList string "string option"
| ETraceStart string string string
| ETraceStop string
| ETraceClear string
| ETraceStatus string
| ESignals string "string list"
| EGet string "string list"
| EClose string

datatype request_action =
  RInstance instance_action
| RWorker worker_action
| REnv env_action

record request =
  rq_id :: uuid
  rq_action :: request_action

section \<open>Responses\<close>

record signal_value_data =
  sv_id :: u32
  sv_name :: string
  sv_type :: signal_type
  sv_value :: signal_value
  sv_units :: "string option"

record env_signal_data =
  es_instance :: string
  es_local_id :: u32
  es_name :: string
  es_type :: signal_type
  es_units :: "string option"

record env_signal_value_data = env_signal_data +
  es_value :: signal_value

record instance_info_data =
  ii_name :: string
  ii_socket_path :: string
  ii_running :: bool
  ii_env :: "string option"

record can_bus_data =
  cb_id :: u32
  cb_name :: string
  cb_bitrate :: u32
  cb_bitrate_data :: u32
  cb_fd_capable :: bool
  cb_attached_iface :: "string option"

record can_frame_wire =
  cw_arb_id :: u32
  cw_len :: u8
  cw_flags :: u8
  cw_data :: "u8 list"

record can_frame_data =
  cf_arb_id :: u32
  cf_len :: u8
  cf_flags :: u8
  cf_data_hex :: string

record can_schedule_data =
  cs_job_id :: string
  cs_bus :: string
  cs_arb_id :: u32
  cs_data_hex :: string
  cs_flags :: u8
  cs_every_ticks :: u64
  cs_next_due_tick :: u64
  cs_enabled :: bool

datatype step_kind = KSet | KStep | KPrint | KSpeed | KReset | KSleep | KAssert | KForIteration

record step_result_data =
  st_kind :: step_kind
  st_instance :: "string option"
  st_detail :: string

datatype response_data =
  Ack
| Loaded string nat
| ProjectInfo string u32 nat
| Signals "signal_meta list"
| SignalValues "signal_value_data list"
| WorkerSignalValues "(u32 \<times> signal_value) list"
| SignalSample u64 u64 "signal_value_data list"
| SetResult nat
| TimeStatus time_status
| TimeAdvanced step_result
| Speed f64
| CanBuses "can_bus_data list"
| CanSent string u32 u8
| CanInspect string "can_frame_data list"
| CanSchedules "can_schedule_data list"
| DbcLoaded string nat
| SharedChannels "sim_shared_desc list"
| SharedValues string "(u32 \<times> signal_type \<times> signal_value) list"
| TraceStatus bool "string option" u64 nat "u64 option"
| RecipeResult string bool nat "step_result_data list"
| EnvStatus string bool nat u32
| EnvSignals "env_signal_data list"
| EnvSignalValues "env_signal_value_data list"
| InstanceStatus string string bool "string option"
| InstanceList "instance_info_data list"

text \<open>Messages of errors are values of a type \<open>'e\<close>; the text they print is not modelled.\<close>

record 'e response =
  rp_id :: uuid
  rp_success :: bool
  rp_data :: "response_data option"
  rp_error :: "'e option"

definition response_ok :: "uuid \<Rightarrow> response_data \<Rightarrow> 'e response" where
  "response_ok i d = \<lparr>rp_id = i, rp_success = True, rp_data = Some d, rp_error = None\<rparr>"

definition response_err :: "uuid \<Rightarrow> 'e \<Rightarrow> 'e response" where
  "response_err i e = \<lparr>rp_id = i, rp_success = False, rp_data = None, rp_error = Some e\<rparr>"

section \<open>Frames on the wire\<close>

datatype wire_error = WirePayloadTooLong nat | WireLengthMismatch u8 nat

definition wire_of_frame :: "sim_can_frame \<Rightarrow> can_frame_wire" where
  "wire_of_frame f = \<lparr>cw_arb_id = arb_id f, cw_len = fr_len f, cw_flags = fr_flags f,
     cw_data = payload f\<rparr>"

definition frame_of_wire :: "can_frame_wire \<Rightarrow> wire_error + sim_can_frame" where
  "frame_of_wire v =
     (if 64 < length (cw_data v) then Inl (WirePayloadTooLong (length (cw_data v)))
      else let data = cw_data v @ replicate (64 - length (cw_data v)) 0 in
        if unat (cw_len v) \<noteq> length (cw_data v)
        then Inl (WireLengthMismatch (cw_len v) (length (cw_data v)))
        else Inr \<lparr>arb_id = cw_arb_id v, fr_len = cw_len v, fr_flags = cw_flags v, fr_data = data\<rparr>)"

section \<open>Durations\<close>

datatype protocol_error = InvalidDuration string | InvalidRequest string

datatype time_unit = UnitS | UnitMs | UnitUs

definition split_unit :: "string \<Rightarrow> (string \<times> time_unit) option" where
  "split_unit trimmed =
     (case strip_suffix ''ms'' trimmed of
        Some v \<Rightarrow> Some (trim v, UnitMs)
      | None \<Rightarrow> (case strip_suffix ''us'' trimmed of
          Some v \<Rightarrow> Some (trim v, UnitUs)
        | None \<Rightarrow> (case strip_suffix ''s'' trimmed of
            Some v \<Rightarrow> Some (trim v, UnitS)
          | None \<Rightarrow> None)))"

definition unit_us :: "time_unit \<Rightarrow> f64 \<Rightarrow> f64" where
  "unit_us u v = (case u of UnitS \<Rightarrow> fmul v (Fin 1000000) | UnitMs \<Rightarrow> fmul v (Fin 1000) | UnitUs \<Rightarrow> v)"

definition U64_MAX_F64 :: f64 where
  \<comment> \<open>\<open>u64::MAX as f64\<close>: rounded up to 2 ^ 64.\<close>
  "U64_MAX_F64 = f_of_int (2 ^ 64 - 1)"

definition parse_duration_us :: "string \<Rightarrow> protocol_error + u64" where
  "parse_duration_us input =
     (let trimmed = trim input; invalid = InvalidDuration trimmed in
      res_bind (ok_or invalid (split_unit trimmed)) (\<lambda>(value_part, unit).
      res_bind (ok_or invalid (parse_f64 value_part)) (\<lambda>v.
      if \<not> is_finite v \<or> flt v (Fin 0) then Inl invalid
      else let us = unit_us unit v in
        if flt U64_MAX_F64 us then Inl invalid else Inr (f_as_u64 (ffloor us)))))"

section \<open>Frames: round trip\<close>

lemma wire_codec_frame:
  assumes "frame_wf f" "fr_len f \<le> 64"
  shows "frame_of_wire (wire_of_frame f) =
    Inr (f\<lparr>fr_data := payload f @ replicate (64 - unat (fr_len f)) 0\<rparr>)"
proof -
  have "unat (fr_len f) \<le> 64" using assms(2) by (simp add: word_le_nat_alt)
  then have "length (payload f) = unat (fr_len f)" "\<not> 64 < unat (fr_len f)"
    using length_payload[OF assms(1)] by simp_all
  then show ?thesis by (simp add: frame_of_wire_def wire_of_frame_def)
qed

text \<open>
  Frames cross the socket unharmed. A frame of at most 64 bytes is read back from its wire form
  with the same identifier, length, flags and payload, and the bytes behind the payload are zero;
  a wire form is accepted exactly when its length byte equals the number of its bytes and that is
  at most 64, and then it is the wire form of the frame it gives.
\<close>

theorem wire_frame_roundtrip:
  "(frame_wf f \<and> fr_len f \<le> 64 \<longrightarrow>
      frame_of_wire (wire_of_frame f) =
        Inr (f\<lparr>fr_data := payload f @ replicate (64 - unat (fr_len f)) 0\<rparr>)) \<and>
   (is_ok (frame_of_wire v) \<longleftrightarrow> unat (cw_len v) = length (cw_data v) \<and> length (cw_data v) \<le> 64) \<and>
   (frame_of_wire v = Inr g \<longrightarrow> frame_wf g \<and> wire_of_frame g = v)"
  using wire_codec_frame[of f]
  by (auto simp: frame_of_wire_def wire_of_frame_def frame_wf_def payload_def Let_def split: if_splits)

theorem wire_frame_roundtrip_witness:
  "frame_of_wire (wire_of_frame \<lparr>arb_id = 7, fr_len = 2, fr_flags = 0, fr_data = [1, 2] @ replicate 62 9\<rparr>) =
     Inr \<lparr>arb_id = 7, fr_len = 2, fr_flags = 0, fr_data = [1, 2] @ replicate 62 0\<rparr>"
  using wire_frame_roundtrip[of "\<lparr>arb_id = 7, fr_len = 2, fr_flags = 0, fr_data = [1, 2] @ replicate 62 9\<rparr>"]
  by (simp add: frame_wf_def payload_def)

section \<open>Durations: exactness and limits\<close>

lemma show_nat_digits: "list_all is_ascii_digit (show_nat n)"
proof -
  have "is_ascii_digit c" if c: "c \<in> set (show_nat n)" for c
  proof -
    obtain d where "d < 10" "c = digit_char d" using show_nat_chars[OF c] by blast
    then show ?thesis by (simp add: is_ascii_digit_def digit_char_def)
  qed
  then show ?thesis by (simp add: list_all_iff)
qed

lemma nat_of_digits_show: "nat_of_digits (show_nat n) = n"
proof (induction n rule: show_nat.induct)
  case (1 n)
  show ?case
  proof (cases "n < 10")
    case True
    then show ?thesis by (subst show_nat.simps) (simp add: nat_of_digits_def digit_char_def)
  next
    case False
    then show ?thesis
      using 1[OF False] by (subst show_nat.simps) (simp add: nat_of_digits_def digit_char_def)
  qed
qed

lemma parse_f64_show_nat: "parse_f64 (show_nat n) = Some (f_of_int (int n))"
proof -
  have tw: "takeWhile is_ascii_digit (show_nat n) = show_nat n" "dropWhile is_ascii_digit (show_nat n) = []"
    using show_nat_digits[of n] by (simp_all add: list_all_iff)
  obtain c cs where s: "show_nat n = c # cs" by (cases "show_nat n") auto
  then obtain d where "d < 10" "c = digit_char d" using show_nat_chars[of c n] by auto
  then have sign: "c \<noteq> CHR ''+''" "c \<noteq> CHR ''-''" using digit_char_not_sign by auto
  have "parse_decimal (show_nat n) = Some (of_nat n)"
    unfolding parse_decimal_def tw Let_def by (simp add: nat_of_digits_show pow10_def)
  then show ?thesis
    using sign by (simp add: parse_f64_def parse_float_def s f_of_int_def)
qed

definition unit_text :: "time_unit \<Rightarrow> string" where
  "unit_text u = (case u of UnitS \<Rightarrow> ''s'' | UnitMs \<Rightarrow> ''ms'' | UnitUs \<Rightarrow> ''us'')"

definition unit_factor :: "time_unit \<Rightarrow> nat" where
  "unit_factor u = (case u of UnitS \<Rightarrow> 1000000 | UnitMs \<Rightarrow> 1000 | UnitUs \<Rightarrow> 1)"

lemma unit_last: "unit_text u \<noteq> []" "last (unit_text u) = CHR ''s''" "plain_char CHR ''s''"
  by (cases u; simp add: unit_text_def) (simp_all add: unit_text_def plain_char_def ascii_ws_def split: time_unit.splits)

lemma split_unit_show: "split_unit (show_nat n @ unit_text u) = Some (show_nat n, u)"
proof -
  obtain s d where s: "show_nat n = s @ [digit_char d]" "d < 10"
    by (cases "n < 10") (subst (asm) show_nat.simps; force)+
  have b: "byte (digit_char d) = 48 + d" using s(2) by (simp add: digit_char_def)
  have "digit_char d \<noteq> CHR ''m''" "digit_char d \<noteq> CHR ''u''" "digit_char d \<noteq> CHR ''s''"
    using b s(2) by auto
  then show ?thesis
    using s trim_show_nat[of n]
    by (cases u) (auto simp: split_unit_def unit_text_def strip_suffix_def Suc_diff_le)
qed

lemma trim_show_unit: "trim (show_nat n @ unit_text u) = show_nat n @ unit_text u"
proof (rule trim_plain)
  obtain c cs where s: "show_nat n = c # cs" by (cases "show_nat n") auto
  then obtain d where "d < 10" "c = digit_char d" using show_nat_chars[of c n] by auto
  then show "plain_char (hd (show_nat n @ unit_text u)) \<and> plain_char (last (show_nat n @ unit_text u))"
    using s unit_last(1,2)[of u] unit_last(3) by simp
qed

lemma unit_us_int:
  assumes "int n * int (unit_factor u) \<le> 2 ^ 53"
  shows "unit_us u (f_of_int (int n)) = Fin (of_nat (n * unit_factor u))"
proof -
  have "n \<le> n * unit_factor u" by (cases u) (simp_all add: unit_factor_def)
  then have "int n \<le> 2 ^ 53" using assms by (metis of_nat_le_iff of_nat_mult order_trans)
  then have f: "f_of_int (int n) = Fin (of_nat n)" using f_of_int_exact[of "int n"] by simp
  have r: "rnd64 False (of_int (int n * int (unit_factor u))) = Fin (of_nat (n * unit_factor u))"
    using rnd64_int[of "int n * int (unit_factor u)" False] assms by (auto simp: fzero_def)
  show ?thesis
  proof (cases u)
    case UnitUs
    then show ?thesis by (simp add: unit_us_def f unit_factor_def)
  next
    case UnitMs
    have "fmul (Fin (of_nat n)) (Fin 1000) = rnd64 False (of_nat n * 1000)"
      by (simp add: fmul_def fneg_def is_inf_def fval_def)
    then show ?thesis using r UnitMs by (simp add: unit_us_def f unit_factor_def)
  next
    case UnitS
    have "fmul (Fin (of_nat n)) (Fin 1000000) = rnd64 False (of_nat n * 1000000)"
      by (simp add: fmul_def fneg_def is_inf_def fval_def)
    then show ?thesis using r UnitS by (simp add: unit_us_def f unit_factor_def)
  qed
qed

lemma pow2_64: "pow2 64 = 2 ^ 64" "pow2 63 = 2 ^ 63" "pow2 11 = 2048"
  by (simp_all add: pow2_def)

lemma f_of_int_2_64: "f_of_int (2 ^ 64) = Fin (2 ^ 64)"
proof -
  have "(2 ^ 64 :: rat) < pow2 1024" using pow2_strict_mono[of 64 1024] by (simp add: pow2_64)
  moreover have "(1 :: rat) < pow2 53" using pow2_strict_mono[of 0 53] by simp
  ultimately show ?thesis
    unfolding f_of_int_def rnd64_def
    using rnd_fmt_exact[of "2 ^ 64" 1 64 53 "- 1074" 1024 False] by (simp add: pow2_64)
qed

lemma U64_MAX_F64_eq: "U64_MAX_F64 = Fin (2 ^ 64)"
proof -
  let ?q = "2 ^ 64 - 1 :: rat"
  have "flog2 ?q < 64" by (rule flog2_less) (simp_all add: pow2_64)
  moreover have "pow2 63 < pow2 (flog2 ?q + 1)"
    using flog2_spec[of ?q] by (simp add: pow2_64)
  then have "63 < flog2 ?q + 1" by (simp only: pow2_less_iff)
  ultimately have e: "max (flog2 ?q - (53 - 1)) (- 1074) = 11" by simp
  have "\<lfloor>?q / 2048\<rfloor> = 2 ^ 53 - 1" by (rule floor_unique) simp_all
  then have r: "round_even (?q / 2048) = 2 ^ 53" by (simp add: round_even_def)
  have "(2 ^ 64 :: rat) < pow2 1024" using pow2_strict_mono[of 64 1024] by (simp add: pow2_64)
  then have "rnd_fmt 53 (- 1074) 1024 False ?q = Fin (2 ^ 64)"
    unfolding rnd_fmt_def Let_def using e r by (simp add: pow2_64)
  then show ?thesis by (simp add: U64_MAX_F64_def f_of_int_def rnd64_def)
qed

lemma f_as_u64_Fin:
  assumes "0 \<le> q"
  shows "uint (f_as_u64 (ffloor (Fin q))) = min \<lfloor>q\<rfloor> (2 ^ 64 - 1)"
proof -
  have z: "0 \<le> \<lfloor>q\<rfloor>" using assms by simp
  show ?thesis
  proof (cases "2 ^ 64 \<le> \<lfloor>q\<rfloor>")
    case True
    moreover have "(of_int \<lfloor>q\<rfloor> :: rat) > 0"
      using True by (metis less_le_trans of_int_0_less_iff zero_less_numeral zero_less_power)
    moreover have "uint (- 1 :: u64) = 2 ^ 64 - 1" by (simp add: unsigned_minus_1_eq_mask mask_eq_exp_minus_1)
    ultimately show ?thesis by (simp add: ffloor_def f_as_u64_def min_absorb2 not_le)
  next
    case False
    then show ?thesis
      using z by (auto simp: ffloor_def f_as_u64_def uint_word_of_int_eq take_bit_int_eq_self min_absorb1
          floor_eq_iff)
  qed
qed

lemma parse_duration_int:
  assumes "n * unit_factor u \<le> 2 ^ 53"
  shows "parse_duration_us (show_nat n @ unit_text u) = Inr (of_nat (n * unit_factor u))"
proof -
  have a: "int n * int (unit_factor u) \<le> 2 ^ 53"
    using assms by (metis of_nat_le_iff of_nat_mult of_nat_numeral of_nat_power)
  have "n \<le> n * unit_factor u" by (cases u) (simp_all add: unit_factor_def)
  then have "n \<le> 2 ^ 53" using assms by linarith
  then have "int n \<le> 2 ^ 53" by simp
  then have f: "f_of_int (int n) = Fin (of_nat n)" using f_of_int_exact[of "int n"] by simp
  have "(of_nat (n * unit_factor u) :: rat) \<le> of_nat (2 ^ 53)" using assms by (simp only: of_nat_le_iff)
  then have big: "\<not> flt U64_MAX_F64 (Fin (of_nat (n * unit_factor u)))" by (simp add: U64_MAX_F64_eq)
  have "uint (f_as_u64 (ffloor (Fin (of_nat (n * unit_factor u))))) = int (n * unit_factor u)"
  proof -
    have "\<lfloor>of_nat (n * unit_factor u) :: rat\<rfloor> = int (n * unit_factor u)" by (rule floor_of_nat)
    then show ?thesis
      using f_as_u64_Fin[of "of_nat (n * unit_factor u)"] a by (simp only: of_nat_0_le_iff min_absorb1) simp
  qed
  moreover have "uint (of_nat (n * unit_factor u) :: u64) = int (n * unit_factor u)"
    using assms by (simp add: unsigned_of_nat take_bit_nat_eq_self del: of_nat_mult)
  ultimately have "f_as_u64 (ffloor (Fin (of_nat (n * unit_factor u)))) = of_nat (n * unit_factor u)"
    by (simp only: word_uint_eq_iff)
  then show ?thesis
    using big by (simp add: parse_duration_us_def trim_show_unit split_unit_show parse_f64_show_nat f
        is_finite_def unit_us_int[OF a, unfolded f] Let_def)
qed

text \<open>
  The three units agree. A whole number of seconds, the thousandfold in milliseconds and the
  millionfold in microseconds are read as the same number of microseconds, exactly, up to 2 ^ 53
  microseconds (285 years).
\<close>

theorem duration_units_agree:
  assumes "n * 1000000 \<le> 2 ^ 53"
  shows "parse_duration_us (show_nat n @ ''s'') = Inr (of_nat (n * 1000000)) \<and>
    parse_duration_us (show_nat (n * 1000) @ ''ms'') = parse_duration_us (show_nat n @ ''s'') \<and>
    parse_duration_us (show_nat (n * 1000000) @ ''us'') = parse_duration_us (show_nat n @ ''s'')"
  using parse_duration_int[of n UnitS] parse_duration_int[of "n * 1000" UnitMs]
    parse_duration_int[of "n * 1000000" UnitUs] assms
  by (simp add: unit_factor_def unit_text_def algebra_simps)

theorem duration_units_agree_witness:
  "parse_duration_us (show_nat 2 @ ''s'') = Inr 2000000 \<and>
   parse_duration_us (show_nat (2 * 1000) @ ''ms'') = Inr 2000000"
  using duration_units_agree[of 2] by simp

lemma unit_us_nonneg:
  assumes "nonneg x" "is_finite x"
  shows "nonneg (unit_us u x)"
proof -
  have "nonneg (fmul x (Fin c)) \<or> fmul x (Fin c) = NZero" if "0 < c" for c
    using assms that by (intro fmul_nonneg) (auto simp: nonneg_def is_finite_def is_inf_def is_zero_def split: f64.splits)
  from this[of 1000] this[of 1000000] show ?thesis
    using assms by (cases u) (auto simp: unit_us_def nonneg_def[of NZero])
qed

text \<open>
  C30: what a duration means, and its limit. An accepted text is a finite, non-negative number with
  a unit; its value is the scaled number rounded down to whole microseconds. The limit is checked
  against \<open>u64::MAX as f64\<close>, which is 2 ^ 64: that value itself passes the check and is read as
  2 ^ 64 - 1 instead of being refused.
\<close>

theorem duration_floor_and_limit:
  "(parse_duration_us s = Inr d \<longrightarrow>
     (\<exists>v u x q. split_unit (trim s) = Some (v, u) \<and> parse_f64 v = Some x \<and> is_finite x \<and>
        \<not> flt x (Fin 0) \<and> (unit_us u x = Fin q \<or> unit_us u x = NZero \<and> q = 0) \<and> 0 \<le> q \<and> q \<le> 2 ^ 64 \<and>
        uint d = (if q = 2 ^ 64 then 2 ^ 64 - 1 else \<lfloor>q\<rfloor>))) \<and>
   parse_duration_us (show_nat (2 ^ 64) @ ''us'') = Inr (- 1)"
proof -
  let ?t = "trim s"
  have "\<exists>v u x q. split_unit ?t = Some (v, u) \<and> parse_f64 v = Some x \<and> is_finite x \<and>
      \<not> flt x (Fin 0) \<and> (unit_us u x = Fin q \<or> unit_us u x = NZero \<and> q = 0) \<and> 0 \<le> q \<and> q \<le> 2 ^ 64 \<and>
      uint d = (if q = 2 ^ 64 then 2 ^ 64 - 1 else \<lfloor>q\<rfloor>)"
    if ok: "parse_duration_us s = Inr d"
  proof -
    from ok obtain v u x where p: "split_unit ?t = Some (v, u)" "parse_f64 v = Some x"
      and fin: "is_finite x" "\<not> flt x (Fin 0)"
      and lim: "\<not> flt U64_MAX_F64 (unit_us u x)" and d: "d = f_as_u64 (ffloor (unit_us u x))"
      by (auto simp: parse_duration_us_def Let_def res_simps split: if_splits)
    have "nonneg x" using fin by (cases x) (auto simp: nonneg_def is_finite_def)
    then have "nonneg (unit_us u x)" using unit_us_nonneg fin(1) by blast
    then consider q where "unit_us u x = Fin q" "0 \<le> q" "q \<le> 2 ^ 64" | "unit_us u x = NZero"
      using lim by (cases "unit_us u x") (auto simp: nonneg_def U64_MAX_F64_eq flt_def fval_def)
    then show ?thesis
    proof cases
      case 1
      then have "\<lfloor>q\<rfloor> \<le> 2 ^ 64" using floor_mono[of q "2 ^ 64"] by simp
      moreover have "q \<noteq> 2 ^ 64 \<Longrightarrow> \<lfloor>q\<rfloor> < 2 ^ 64" using 1(3) by (simp add: floor_less_iff)
      ultimately have "uint d = (if q = 2 ^ 64 then 2 ^ 64 - 1 else \<lfloor>q\<rfloor>)"
        using f_as_u64_Fin[OF 1(2)] by (auto simp: d 1(1) min_absorb1)
      then show ?thesis using p fin 1 by blast
    next
      case 2
      then have "uint d = (if (0 :: rat) = 2 ^ 64 then 2 ^ 64 - 1 else \<lfloor>0 :: rat\<rfloor>)"
        by (simp add: d ffloor_def f_as_u64_def)
      then show ?thesis using p fin 2 by fastforce
    qed
  qed
  moreover have "parse_duration_us (show_nat (2 ^ 64) @ ''us'') = Inr (- 1)"
  proof -
    show ?thesis
      using f_of_int_2_64 trim_show_unit[of "2 ^ 64" UnitUs] split_unit_show[of "2 ^ 64" UnitUs]
      by (simp add: parse_duration_us_def unit_text_def parse_f64_show_nat is_finite_def unit_us_def
          U64_MAX_F64_eq ffloor_def f_as_u64_def Let_def)
  qed
  ultimately show ?thesis by blast
qed

theorem duration_floor_and_limit_witness:
  "\<exists>v u x q. split_unit (trim (show_nat 7 @ ''us'')) = Some (v, u) \<and> parse_f64 v = Some x \<and>
     (unit_us u x = Fin q \<or> unit_us u x = NZero \<and> q = 0) \<and> \<lfloor>q\<rfloor> = 7"
proof -
  have "parse_duration_us (show_nat 7 @ ''us'') = Inr 7"
    using parse_duration_int[of 7 UnitUs] by (simp add: unit_factor_def unit_text_def)
  then obtain v u x q where "split_unit (trim (show_nat 7 @ ''us'')) = Some (v, u)" "parse_f64 v = Some x"
    "unit_us u x = Fin q \<or> unit_us u x = NZero \<and> q = 0"
    "uint (7 :: u64) = (if q = 2 ^ 64 then 2 ^ 64 - 1 else \<lfloor>q\<rfloor>)"
    using duration_floor_and_limit[of "show_nat 7 @ ''us''" 7] by blast
  then show ?thesis by (intro exI[of _ v] exI[of _ u] exI[of _ x] exI[of _ q]) (auto split: if_splits)
qed

end
