(* ===== verification/Trace.thy ===== *)
theory Trace
  imports Sim_Types
begin

text \<open>
  The CSV trace of an instance or an environment: \<open>trace.rs\<close>. The file system is a parameter:
  creating, writing, flushing, testing and removing a file, each with the world before and after and
  whether it succeeded. Floating-point values are printed as \<open>Display\<close> does, with the shortest digits
  that read back as the value. \<open>csv_fields\<close> is an independent reader of one CSV record; the header
  that \<open>csv_create\<close> writes is shown to be read back by it.
\<close>

section \<open>Printing values\<close>

definition dec_exp :: "rat \<Rightarrow> int" where
  \<comment> \<open>The largest \<open>k\<close> with \<open>10\<^sup>k \<le> q\<close>, for \<open>0 < q\<close>.\<close>
  "dec_exp q =
     (if 1 \<le> q then int (length (show_nat (nat \<lfloor>q\<rfloor>))) - 1
      else - int (length (show_nat (nat (\<lceil>1 / q\<rceil> - 1)))))"

fun shortest_digits :: "(rat \<Rightarrow> f64) \<Rightarrow> rat \<Rightarrow> nat \<Rightarrow> nat \<Rightarrow> nat \<times> int" where
  \<comment> \<open>The nearest decimal of the least number of digits that reads back as \<open>q\<close>; \<open>left\<close> is how many
    more digits may be tried.\<close>
  "shortest_digits rnd q n left =
     (let s = dec_exp q - int n; lo = nat \<lfloor>q / pow10 s\<rfloor>; hi = lo + 1;
          fits = (\<lambda>d. rnd (of_nat d * pow10 s) = Fin q);
          low_nearer = (q - of_nat lo * pow10 s \<le> of_nat hi * pow10 s - q)
      in if fits lo \<and> (low_nearer \<or> \<not> fits hi) then (lo, s)
         else if fits hi then (hi, s)
         else case left of 0 \<Rightarrow> (lo, s) | Suc m \<Rightarrow> shortest_digits rnd q (Suc n) m)"

declare shortest_digits.simps [simp del]

definition show_decimal :: "nat \<Rightarrow> int \<Rightarrow> string" where
  \<comment> \<open>\<open>d * 10\<^sup>s\<close> without an exponent.\<close>
  "show_decimal d s =
     (if 0 \<le> s then show_nat d @ replicate (nat s) CHR ''0''
      else let p = 10 ^ nat (- s); digits = show_nat (d mod p);
               frac = replicate (nat (- s) - length digits) CHR ''0'' @ digits;
               shown = rev (dropWhile (\<lambda>c. c = CHR ''0'') (rev frac))
        in show_nat (d div p) @ (if shown = [] then [] else CHR ''.'' # shown))"

definition show_float :: "(rat \<Rightarrow> f64) \<Rightarrow> f64 \<Rightarrow> string" where
  "show_float rnd x = (case x of
      NaN \<Rightarrow> ''NaN'' | PInf \<Rightarrow> ''inf'' | NInf \<Rightarrow> ''-inf'' | NZero \<Rightarrow> ''-0''
    | Fin q \<Rightarrow>
        if q = 0 then ''0''
        else (if q < 0 then ''-'' else []) @
          (case shortest_digits rnd \<bar>q\<bar> 0 17 of (d, s) \<Rightarrow> show_decimal d s))"

definition show_signal_value :: "signal_value \<Rightarrow> string" where
  \<comment> \<open>\<open>write_signal_value\<close>\<close>
  "show_signal_value v = (case v of
      VBool b \<Rightarrow> if b then ''true'' else ''false''
    | VU32 n \<Rightarrow> show_nat (unat n)
    | VI32 n \<Rightarrow> show_int (sint n)
    | VF32 b \<Rightarrow> show_float (rnd32 False) (f32_of_bits b)
    | VF64 b \<Rightarrow> show_float (rnd64 False) (f64_of_bits b))"

section \<open>Cells\<close>

definition quote_char :: char where "quote_char = CHR 0x22"
definition newline :: char where "newline = CHR 0x0A"
definition carriage_return :: char where "carriage_return = CHR 0x0D"

definition double_quotes :: "string \<Rightarrow> string" where
  \<comment> \<open>\<open>value.replace('"', "\"\"")\<close>\<close>
  "double_quotes v = concat (map (\<lambda>c. if c = quote_char then [c, c] else [c]) v)"

definition escape_csv_cell :: "string \<Rightarrow> string" where
  "escape_csv_cell v =
     (if CHR '','' \<in> set v \<or> quote_char \<in> set v \<or> newline \<in> set v \<or> carriage_return \<in> set v
      then quote_char # double_quotes v @ [quote_char] else v)"

section \<open>The writer\<close>

record 'w files =
  fs_create_parent :: "string \<Rightarrow> 'w \<Rightarrow> bool \<times> 'w"
    \<comment> \<open>\<open>create_dir_all\<close> of the parent, when there is one and it is not empty\<close>
  fs_create :: "string \<Rightarrow> 'w \<Rightarrow> bool \<times> 'w"
  fs_write :: "string \<Rightarrow> string \<Rightarrow> 'w \<Rightarrow> bool \<times> 'w"
  fs_flush :: "string \<Rightarrow> 'w \<Rightarrow> bool \<times> 'w"
  fs_exists :: "string \<Rightarrow> 'w \<Rightarrow> bool"
  fs_remove :: "string \<Rightarrow> 'w \<Rightarrow> bool \<times> 'w"

datatype trace_error =
  TraceDirFailed
| TraceCreateFailed string
| TraceHeaderFailed
| TraceRowFailed
| TraceFlushFailed

record csv_writer =
  tw_path :: string
  tw_row_count :: u64

definition io_step :: "('w \<Rightarrow> bool \<times> 'w) \<Rightarrow> 'e \<Rightarrow> ('w, 'e, unit) act" where
  "io_step f e w = (case f w of (ok, w') \<Rightarrow> (guard_err (\<not> ok) e, w'))"

definition csv_create :: "'w files \<Rightarrow> string \<Rightarrow> string list \<Rightarrow> ('w, trace_error, csv_writer) act" where
  "csv_create fs path headers =
     (let put = (\<lambda>t. io_step (fs_write fs path t) TraceHeaderFailed) in
      a_bind (io_step (fs_create_parent fs path) TraceDirFailed) (\<lambda>_.
      a_bind (io_step (fs_create fs path) (TraceCreateFailed path)) (\<lambda>_.
      a_bind (put ''tick,time_us'') (\<lambda>_.
      a_bind (a_for headers (\<lambda>h. a_bind (put '','') (\<lambda>_. put (escape_csv_cell h)))) (\<lambda>_.
      a_bind (put [newline]) (\<lambda>_.
      a_bind (io_step (fs_flush fs path) TraceHeaderFailed) (\<lambda>_.
      a_ret \<lparr>tw_path = path, tw_row_count = 0\<rparr>)))))))"

definition csv_write_row ::
    "'w files \<Rightarrow> csv_writer \<Rightarrow> u64 \<Rightarrow> u64 \<Rightarrow> signal_value list \<Rightarrow> ('w, trace_error, csv_writer) act" where
  "csv_write_row fs wr tick time_us values =
     (let put = (\<lambda>t. io_step (fs_write fs (tw_path wr) t) TraceRowFailed) in
      a_bind (put (show_nat (unat tick) @ '','' @ show_nat (unat time_us))) (\<lambda>_.
      a_bind (a_for values (\<lambda>v. a_bind (put '','') (\<lambda>_. put (show_signal_value v)))) (\<lambda>_.
      a_bind (put [newline]) (\<lambda>_.
      a_ret (wr\<lparr>tw_row_count := tw_row_count wr + 1\<rparr>)))))"

definition csv_flush :: "'w files \<Rightarrow> csv_writer \<Rightarrow> ('w, trace_error, unit) act" where
  "csv_flush fs wr = io_step (fs_flush fs (tw_path wr)) TraceFlushFailed"

section \<open>Reading back\<close>

fun csv_fields :: "bool \<Rightarrow> string \<Rightarrow> string \<Rightarrow> string list" where
  \<comment> \<open>The cells of one record; the flag says that a quoted cell is open.\<close>
  "csv_fields q cell [] = [cell]"
| "csv_fields False cell (c # cs) =
     (if c = CHR '','' then cell # csv_fields False [] cs
      else if c = quote_char \<and> cell = [] then csv_fields True [] cs
      else csv_fields False (cell @ [c]) cs)"
| "csv_fields True cell (c # cs) =
     (if c \<noteq> quote_char then csv_fields True (cell @ [c]) cs
      else case cs of
        [] \<Rightarrow> [cell]
      | d # ds \<Rightarrow> if d = quote_char then csv_fields True (cell @ [quote_char]) ds
                  else cell # csv_fields False [] ds)"

definition header_text :: "string list \<Rightarrow> string" where
  "header_text headers = ''tick,time_us'' @ concat (map (\<lambda>h. CHR '','' # escape_csv_cell h) headers)"

lemma csv_plain_end:
  "CHR '','' \<notin> set v \<Longrightarrow> quote_char \<notin> set v \<Longrightarrow> csv_fields False cell v = [cell @ v]"
  by (induction v arbitrary: cell) auto

lemma csv_plain_more:
  "CHR '','' \<notin> set v \<Longrightarrow> quote_char \<notin> set v \<Longrightarrow>
    csv_fields False cell (v @ CHR '','' # rest) = (cell @ v) # csv_fields False [] rest"
  by (induction v arbitrary: cell) auto

lemma quote_not_comma [simp]: "quote_char \<noteq> CHR '',''" "CHR '','' \<noteq> quote_char"
  by (simp_all add: quote_char_def)

lemma csv_quoted_end: "csv_fields True cell (double_quotes v @ [quote_char]) = [cell @ v]"
  by (induction v arbitrary: cell) (simp_all add: double_quotes_def)

lemma csv_quoted_more:
  "csv_fields True cell (double_quotes v @ quote_char # CHR '','' # rest) =
    (cell @ v) # csv_fields False [] rest"
  by (induction v arbitrary: cell) (simp_all add: double_quotes_def)

lemma csv_cells: "csv_fields False [] (escape_csv_cell h @ concat (map (\<lambda>h. CHR '','' # escape_csv_cell h) hs)) = h # hs"
proof (induction hs arbitrary: h)
  case Nil
  then show ?case by (simp add: escape_csv_cell_def csv_plain_end csv_quoted_end)
next
  case (Cons g hs)
  show ?case
  proof (cases "CHR '','' \<in> set h \<or> quote_char \<in> set h \<or> newline \<in> set h \<or> carriage_return \<in> set h")
    case True
    then show ?thesis
      using csv_quoted_more[of "[]" h "escape_csv_cell g @ concat (map (\<lambda>h. CHR '','' # escape_csv_cell h) hs)"]
        Cons[of g] by (simp add: escape_csv_cell_def[of h])
  next
    case False
    then show ?thesis
      using csv_plain_more[of h "[]" "escape_csv_cell g @ concat (map (\<lambda>h. CHR '','' # escape_csv_cell h) hs)"]
        Cons[of g] by (simp add: escape_csv_cell_def[of h])
  qed
qed

text \<open>A file system that keeps what is written: created files are empty, writes append.\<close>

definition reliable :: "'w files \<Rightarrow> string \<Rightarrow> ('w \<Rightarrow> string) \<Rightarrow> bool" where
  "reliable fs path content \<longleftrightarrow>
     (\<forall>w. fst (fs_create_parent fs path w) \<and> fst (fs_create fs path w) \<and> fst (fs_flush fs path w) \<and>
        content (snd (fs_create fs path w)) = [] \<and>
        content (snd (fs_flush fs path w)) = content w) \<and>
     (\<forall>t w. fst (fs_write fs path t w) \<and> content (snd (fs_write fs path t w)) = content w @ t)"

lemma io_step_ok: "fst (f w) \<Longrightarrow> io_step f e w = (Inr (), snd (f w))"
  by (cases "f w") (simp add: io_step_def guard_err_def)

lemma put_all:
  assumes "\<And>w x. \<exists>w'. body x w = (Inr (), w') \<and> content w' = content w @ piece x"
  shows "\<exists>w'. a_for xs body w = (Inr (), w') \<and> content w' = content w @ concat (map piece xs)"
proof (induction xs arbitrary: w)
  case Nil
  then show ?case by (simp add: a_ret_def)
next
  case (Cons x xs)
  obtain w1 where w1: "body x w = (Inr (), w1)" "content w1 = content w @ piece x" using assms by blast
  obtain w2 where "a_for xs body w1 = (Inr (), w2)" "content w2 = content w1 @ concat (map piece xs)"
    using Cons by blast
  with w1 show ?case by (simp add: a_bind_def)
qed

lemma reliable_put:
  assumes "reliable fs path content"
  shows "\<exists>w'. io_step (fs_write fs path t) e w = (Inr (), w') \<and> content w' = content w @ t"
proof (intro exI conjI)
  show "io_step (fs_write fs path t) e w = (Inr (), snd (fs_write fs path t w))"
    using assms by (intro io_step_ok) (simp add: reliable_def)
qed (use assms in \<open>simp add: reliable_def\<close>)

lemma reliable_putE:
  assumes "reliable fs path content"
  obtains w' where "io_step (fs_write fs path t) e w = (Inr (), w')" "content w' = content w @ t"
  using reliable_put[OF assms, of t e w] by blast

lemma reliable_cell:
  assumes "reliable fs path content"
  shows "\<exists>w'. a_bind (io_step (fs_write fs path '','') e) (\<lambda>_. io_step (fs_write fs path t) e) w = (Inr (), w') \<and>
    content w' = content w @ CHR '','' # t"
proof -
  obtain w1 where "io_step (fs_write fs path '','') e w = (Inr (), w1)" "content w1 = content w @ '',''"
    by (rule reliable_putE[OF assms])
  moreover obtain w2 where "io_step (fs_write fs path t) e w1 = (Inr (), w2)" "content w2 = content w1 @ t"
    by (rule reliable_putE[OF assms])
  ultimately show ?thesis by (simp add: a_bind_def)
qed

lemma reliable_cells:
  assumes "reliable fs path content"
  obtains w' where "a_for xs (\<lambda>x. a_bind (io_step (fs_write fs path '','') e)
      (\<lambda>_. io_step (fs_write fs path (f x)) e)) w = (Inr (), w')"
    "content w' = content w @ concat (map (\<lambda>x. CHR '','' # f x) xs)"
proof -
  let ?body = "\<lambda>x. a_bind (io_step (fs_write fs path '','') e) (\<lambda>_. io_step (fs_write fs path (f x)) e)"
  have "\<exists>w'. ?body x w = (Inr (), w') \<and> content w' = content w @ (CHR '','' # f x)" for w x
    by (rule reliable_cell[OF assms])
  then show ?thesis using put_all[of ?body content "\<lambda>x. CHR '','' # f x" xs w] that by blast
qed

definition row_text :: "u64 \<Rightarrow> u64 \<Rightarrow> signal_value list \<Rightarrow> string" where
  "row_text tick time_us values = show_nat (unat tick) @ '','' @ show_nat (unat time_us) @
     concat (map (\<lambda>v. CHR '','' # show_signal_value v) values) @ [newline]"

lemma csv_write_row_text:
  assumes "reliable fs (tw_path wr) content"
  shows "\<exists>w'. csv_write_row fs wr tick time_us values w =
      (Inr (wr\<lparr>tw_row_count := tw_row_count wr + 1\<rparr>), w') \<and>
    content w' = content w @ row_text tick time_us values"
proof -
  let ?p = "tw_path wr" and ?e = TraceRowFailed
  obtain w1 where 1: "io_step (fs_write fs ?p (show_nat (unat tick) @ '','' @ show_nat (unat time_us))) ?e w = (Inr (), w1)"
    "content w1 = content w @ show_nat (unat tick) @ '','' @ show_nat (unat time_us)"
    by (rule reliable_putE[OF assms])
  obtain w2 where 2: "a_for values (\<lambda>v. a_bind (io_step (fs_write fs ?p '','') ?e)
      (\<lambda>_. io_step (fs_write fs ?p (show_signal_value v)) ?e)) w1 = (Inr (), w2)"
    "content w2 = content w1 @ concat (map (\<lambda>v. CHR '','' # show_signal_value v) values)"
    by (rule reliable_cells[OF assms])
  obtain w3 where 3: "io_step (fs_write fs ?p [newline]) ?e w2 = (Inr (), w3)" "content w3 = content w2 @ [newline]"
    by (rule reliable_putE[OF assms])
  show ?thesis
    using 1 2 3 by (simp add: csv_write_row_def a_bind_def row_text_def)
qed

text \<open>
  C31: a trace file holds what was traced. On a file system that keeps what is written, creating a
  trace empties the file and leaves one header record; an independent CSV reader finds the columns
  tick, time_us and the signal names in it, whatever characters the names contain. Each row that is
  written then appends one record and is counted.
\<close>

theorem trace_file_readable:
  assumes "reliable fs path content"
  shows "\<exists>w1. csv_create fs path headers w = (Inr \<lparr>tw_path = path, tw_row_count = 0\<rparr>, w1) \<and>
    content w1 = header_text headers @ [newline] \<and>
    csv_fields False [] (header_text headers) = ''tick'' # ''time_us'' # headers \<and>
    (\<exists>w2. csv_write_row fs \<lparr>tw_path = path, tw_row_count = 0\<rparr> tick time_us values w1 =
        (Inr \<lparr>tw_path = path, tw_row_count = 1\<rparr>, w2) \<and>
      content w2 = content w1 @ row_text tick time_us values)"
proof -
  let ?e = TraceHeaderFailed
  obtain wp where p: "io_step (fs_create_parent fs path) TraceDirFailed w = (Inr (), wp)"
    using assms io_step_ok[of "fs_create_parent fs path" w TraceDirFailed] by (simp add: reliable_def)
  obtain wc where c: "io_step (fs_create fs path) (TraceCreateFailed path) wp = (Inr (), wc)" "content wc = []"
    using assms io_step_ok[of "fs_create fs path" wp "TraceCreateFailed path"] by (simp add: reliable_def)
  obtain wh where h: "io_step (fs_write fs path ''tick,time_us'') ?e wc = (Inr (), wh)"
    "content wh = content wc @ ''tick,time_us''"
    by (rule reliable_putE[OF assms])
  obtain wl where l: "a_for headers (\<lambda>h. a_bind (io_step (fs_write fs path '','') ?e)
      (\<lambda>_. io_step (fs_write fs path (escape_csv_cell h)) ?e)) wh = (Inr (), wl)"
    "content wl = content wh @ concat (map (\<lambda>h. CHR '','' # escape_csv_cell h) headers)"
    by (rule reliable_cells[OF assms])
  obtain wn where n: "io_step (fs_write fs path [newline]) ?e wl = (Inr (), wn)" "content wn = content wl @ [newline]"
    by (rule reliable_putE[OF assms])
  obtain wf where f: "io_step (fs_flush fs path) ?e wn = (Inr (), wf)" "content wf = content wn"
    using assms io_step_ok[of "fs_flush fs path" wn ?e] by (simp add: reliable_def)
  have "csv_create fs path headers w = (Inr \<lparr>tw_path = path, tw_row_count = 0\<rparr>, wf)"
    using p c(1) h(1) l(1) n(1) f(1) by (simp add: csv_create_def a_bind_def)
  moreover have "content wf = header_text headers @ [newline]"
    using c h l n f by (simp add: header_text_def)
  moreover have "csv_fields False [] (header_text headers) = ''tick'' # ''time_us'' # headers"
    using csv_cells[of "''tick''" "''time_us'' # headers"]
    by (simp add: header_text_def escape_csv_cell_def quote_char_def newline_def carriage_return_def)
  ultimately show ?thesis
    using csv_write_row_text[of fs "\<lparr>tw_path = path, tw_row_count = 0\<rparr>" content tick time_us "values" wf] assms
    by simp
qed

definition memory_file :: "string files" where
  \<comment> \<open>A file system of one file, whose content is the state.\<close>
  "memory_file = \<lparr>fs_create_parent = (\<lambda>_ w. (True, w)), fs_create = (\<lambda>_ _. (True, [])),
     fs_write = (\<lambda>_ t w. (True, w @ t)), fs_flush = (\<lambda>_ w. (True, w)),
     fs_exists = (\<lambda>_ _. True), fs_remove = (\<lambda>_ _. (True, []))\<rparr>"

lemma memory_file_reliable: "reliable memory_file path (\<lambda>w. w)"
  by (simp add: reliable_def memory_file_def)

theorem trace_file_readable_witness:
  "csv_fields False [] (header_text [''a,b'', ''c'']) = [''tick'', ''time_us'', ''a,b'', ''c'']"
  using trace_file_readable[OF memory_file_reliable, where headers = "[''a,b'', ''c'']"] by blast

end
