(* ===== verification/Selectors.thy ===== *)
theory Selectors
  imports Sim_Project "HOL-Library.Multiset"
begin

text \<open>
  Signal selectors: \<open>signal_selectors.rs\<close>. A selector names signals of one instance (\<open>*\<close>, \<open>#id\<close>, a
  name or a glob) or of an environment (\<open>instance:signal\<close>, each part a name or a glob). The glob
  engine (crate \<open>globset\<close>) is the parameter \<open>glob\<close>: a pattern gives a predicate on names, or \<open>None\<close>
  when it is malformed. A \<open>BTreeSet\<close> is an ordered map to \<open>unit\<close>.
\<close>

type_synonym glob_engine = "string \<Rightarrow> (string \<Rightarrow> bool) option"

datatype selector_error =
  NoSelectors
| BadIdSelector string
| SignalNotFound string
| BadGlob string
| GlobMatchedNothing string
| ReservedColon string string
| BadQualifiedName string string
| DuplicateQualified string nat nat
| MalformedSelector string
| LocalIdSelector string

definition contains_glob :: "string \<Rightarrow> bool" where
  "contains_glob v = (CHR ''*'' \<in> set v \<or> CHR ''?'' \<in> set v \<or> CHR ''['' \<in> set v)"

definition string_matches :: "string \<Rightarrow> string \<Rightarrow> (string \<Rightarrow> bool) option \<Rightarrow> bool" where
  "string_matches v selector g = (case g of Some m \<Rightarrow> m v | None \<Rightarrow> v = selector)"

definition compile_glob :: "glob_engine \<Rightarrow> string \<Rightarrow> selector_error + (string \<Rightarrow> bool)" where
  "compile_glob glob pattern = ok_or (BadGlob pattern) (glob pattern)"

section \<open>Selectors of an instance\<close>

type_synonym id_set = "(u32, unit) btree"

definition set_add :: "id_set \<Rightarrow> u32 \<Rightarrow> id_set" where
  "set_add ids i = bt_insert i () ids"

definition select_one ::
    "glob_engine \<Rightarrow> 'w project \<Rightarrow> id_set \<Rightarrow> string \<Rightarrow> selector_error + id_set" where
  \<comment> \<open>One pass of the loop.\<close>
  "select_one glob p ids selector =
     (if selector = ''*'' then Inr (foldl set_add ids (map sig_id (p_signals p)))
      else case strip_prefix ''#'' selector of
        Some raw_id \<Rightarrow>
          res_bind (ok_or (BadIdSelector selector) (parse_u32 raw_id)) (\<lambda>i.
          if signal_by_id p i = None then Inl (SignalNotFound selector) else Inr (set_add ids i))
      | None \<Rightarrow>
          if contains_glob selector then
            res_bind (compile_glob glob selector) (\<lambda>matcher.
            let matched = filter (\<lambda>s. matcher (sig_name s)) (p_signals p) in
            if matched = [] then Inl (GlobMatchedNothing selector)
            else Inr (foldl set_add ids (map sig_id matched)))
          else case signal_id_by_name p selector of
            Some i \<Rightarrow> Inr (set_add ids i)
          | None \<Rightarrow> Inl (SignalNotFound selector))"

fun select_loop ::
    "glob_engine \<Rightarrow> 'w project \<Rightarrow> id_set \<Rightarrow> string list \<Rightarrow> selector_error + id_set" where
  "select_loop glob p ids [] = Inr ids"
| "select_loop glob p ids (s # ss) = res_bind (select_one glob p ids s) (\<lambda>ids'. select_loop glob p ids' ss)"

definition select_instance_signal_ids ::
    "glob_engine \<Rightarrow> 'w project \<Rightarrow> string list \<Rightarrow> selector_error + u32 list" where
  "select_instance_signal_ids glob p selectors =
     (if selectors = [] then Inl NoSelectors
      else res_bind (select_loop glob p [] selectors) (\<lambda>ids. Inr (map fst ids)))"

section \<open>The catalog of an environment\<close>

record catalog_entry =
  ce_instance :: string
  ce_local_id :: u32
  ce_signal_name :: string
  ce_qualified :: string
  ce_type :: signal_type
  ce_units :: "string option"

record env_catalog =
  cat_entries :: "catalog_entry list"
  cat_index :: "(string, nat) hmap"

definition catalog_check ::
    "nat \<Rightarrow> catalog_entry \<Rightarrow> (string, nat) hmap \<Rightarrow> selector_error + (string, nat) hmap" where
  "catalog_check idx e index =
     (if CHR '':'' \<in> set (ce_signal_name e) then Inl (ReservedColon (ce_signal_name e) (ce_instance e))
      else if \<not> starts_with (ce_instance e) (ce_qualified e) \<or>
              \<not> starts_with '':'' (drop (length (ce_instance e)) (ce_qualified e))
      then Inl (BadQualifiedName (ce_qualified e) (ce_instance e))
      else case hm_get index (ce_qualified e) of
        Some existing \<Rightarrow> Inl (DuplicateQualified (ce_qualified e) existing idx)
      | None \<Rightarrow> Inr (hm_insert (ce_qualified e) idx index))"

fun catalog_loop ::
    "nat \<Rightarrow> catalog_entry list \<Rightarrow> (string, nat) hmap \<Rightarrow> selector_error + (string, nat) hmap" where
  "catalog_loop idx [] index = Inr index"
| "catalog_loop idx (e # es) index =
     res_bind (catalog_check idx e index) (\<lambda>index'. catalog_loop (Suc idx) es index')"

definition catalog_build :: "catalog_entry list \<Rightarrow> selector_error + env_catalog" where
  "catalog_build entries =
     (let sorted = sort_key ce_qualified entries in
      res_bind (catalog_loop 0 sorted []) (\<lambda>index. Inr \<lparr>cat_entries = sorted, cat_index = index\<rparr>))"

definition selector_glob ::
    "glob_engine \<Rightarrow> string \<Rightarrow> selector_error + (string \<Rightarrow> bool) option" where
  "selector_glob glob s =
     (if contains_glob s then res_bind (compile_glob glob s) (\<lambda>m. Inr (Some m)) else Inr None)"

definition resolve_glob ::
    "glob_engine \<Rightarrow> env_catalog \<Rightarrow> string \<Rightarrow> string \<Rightarrow> string \<Rightarrow> selector_error + nat list" where
  "resolve_glob glob c selector inst sig =
     res_bind (selector_glob glob inst) (\<lambda>inst_glob.
     res_bind (selector_glob glob sig) (\<lambda>sig_glob.
     let out = filter (\<lambda>i. string_matches (ce_instance (cat_entries c ! i)) inst inst_glob \<and>
                           string_matches (ce_signal_name (cat_entries c ! i)) sig sig_glob)
                 [0..<length (cat_entries c)]
     in if out = [] then Inl (GlobMatchedNothing selector) else Inr out))"

definition resolve_selector_indices ::
    "glob_engine \<Rightarrow> env_catalog \<Rightarrow> string \<Rightarrow> selector_error + nat list" where
  "resolve_selector_indices glob c selector =
     (if selector = ''*'' then Inr [0..<length (cat_entries c)]
      else case split_once CHR '':'' selector of
        None \<Rightarrow> Inl (MalformedSelector selector)
      | Some (inst, sig) \<Rightarrow>
          if inst = [] \<or> sig = [] then Inl (MalformedSelector selector)
          else if starts_with ''#'' sig then Inl (LocalIdSelector selector)
          else if \<not> contains_glob inst \<and> \<not> contains_glob sig then
            (case hm_get (cat_index c) (inst @ CHR '':'' # sig) of
               Some i \<Rightarrow> Inr [i]
             | None \<Rightarrow> Inl (SignalNotFound selector))
          else resolve_glob glob c selector inst sig)"

fun insert_new :: "nat list \<Rightarrow> nat list \<Rightarrow> nat list" where
  \<comment> \<open>\<open>seen\<close> holds exactly what is in \<open>resolved\<close>.\<close>
  "insert_new resolved [] = resolved"
| "insert_new resolved (i # is) = insert_new (if i \<in> set resolved then resolved else resolved @ [i]) is"

fun resolve_loop ::
    "glob_engine \<Rightarrow> env_catalog \<Rightarrow> nat list \<Rightarrow> string list \<Rightarrow> selector_error + nat list" where
  "resolve_loop glob c resolved [] = Inr resolved"
| "resolve_loop glob c resolved (s # ss) =
     res_bind (resolve_selector_indices glob c s) (\<lambda>is. resolve_loop glob c (insert_new resolved is) ss)"

definition resolve_selectors ::
    "glob_engine \<Rightarrow> env_catalog \<Rightarrow> string list \<Rightarrow> selector_error + nat list" where
  "resolve_selectors glob c selectors =
     (if selectors = [] then Inl NoSelectors else resolve_loop glob c [] selectors)"

section \<open>What instance selectors select\<close>

definition selects :: "glob_engine \<Rightarrow> string \<Rightarrow> signal_meta \<Rightarrow> bool" where
  \<comment> \<open>The reference: what a selector says about one signal.\<close>
  "selects glob selector s =
     (if selector = ''*'' then True
      else case strip_prefix ''#'' selector of
        Some raw_id \<Rightarrow> parse_u32 raw_id = Some (sig_id s)
      | None \<Rightarrow>
          if contains_glob selector then (case glob selector of Some m \<Rightarrow> m (sig_name s) | None \<Rightarrow> False)
          else sig_name s = selector)"

lemma set_add_keys: "set (map fst (foldl set_add ids is)) = set (map fst ids) \<union> set is"
  by (induction "is" arbitrary: ids) (auto simp: set_add_def bt_insert_keys[simplified])

lemma set_add_inv: "bt_inv ids \<Longrightarrow> bt_inv (foldl set_add ids is)"
  by (induction "is" arbitrary: ids) (auto simp: set_add_def bt_inv_insert)

lemma set_add_one: "set (map fst (set_add ids i)) = insert i (set (map fst ids))" "bt_inv ids \<Longrightarrow> bt_inv (set_add ids i)"
  by (simp_all add: set_add_def bt_insert_keys[simplified] bt_inv_insert)

lemma select_one_set:
  assumes p: "project_inv p" and ok: "select_one glob p ids selector = Inr ids'" and inv: "bt_inv ids"
  shows "bt_inv ids' \<and> set (map fst ids') =
    set (map fst ids) \<union> sig_id ` {s \<in> set (p_signals p). selects glob selector s}"
proof (cases "selector = ''*''")
  case True
  then show ?thesis
    using ok inv set_add_keys[of ids "map sig_id (p_signals p)"] set_add_inv[OF inv]
    by (auto simp: select_one_def selects_def)
next
  case star: False
  show ?thesis
  proof (cases "strip_prefix ''#'' selector")
    case (Some raw)
    then obtain i where i: "parse_u32 raw = Some i" "signal_by_id p i \<noteq> None" "ids' = set_add ids i"
      using ok star by (auto simp: select_one_def res_simps split: if_splits)
    then obtain s where "s \<in> set (p_signals p)" "sig_id s = i"
      using signal_by_id_inv[OF p] by fastforce
    then have "sig_id ` {s \<in> set (p_signals p). selects glob selector s} = {i}"
      using i Some star by (auto simp: selects_def)
    then show ?thesis using i set_add_one[of ids i] inv by auto
  next
    case None
    show ?thesis
    proof (cases "contains_glob selector")
      case True
      then obtain m where m: "glob selector = Some m"
        "ids' = foldl set_add ids (map sig_id (filter (\<lambda>s. m (sig_name s)) (p_signals p)))"
        using ok star None
        by (auto simp: select_one_def compile_glob_def res_simps Let_def split: if_splits)
      then have "{s \<in> set (p_signals p). selects glob selector s} = set (filter (\<lambda>s. m (sig_name s)) (p_signals p))"
        using True star None by (auto simp: selects_def)
      then show ?thesis
        using m set_add_keys[of ids "map sig_id (filter (\<lambda>s. m (sig_name s)) (p_signals p))"]
          set_add_inv[OF inv] by simp
    next
      case False
      then obtain i where i: "signal_id_by_name p selector = Some i" "ids' = set_add ids i"
        using ok star None by (auto simp: select_one_def split: option.splits)
      then obtain s where s: "s \<in> set (p_signals p)" "sig_name s = selector" "sig_id s = i"
        using signal_id_by_name_inv[OF p] by blast
      have "i' = i" if "t \<in> set (p_signals p)" "sig_name t = selector" "sig_id t = i'" for t i'
        using that i(1) signal_id_by_name_inv[OF p, of selector i'] by auto
      then have "sig_id ` {s \<in> set (p_signals p). selects glob selector s} = {i}"
        using s False star None by (auto simp: selects_def)
      then show ?thesis using i set_add_one[of ids i] inv by auto
    qed
  qed
qed

lemma select_loop_set:
  "project_inv p \<Longrightarrow> select_loop glob p ids ss = Inr ids' \<Longrightarrow> bt_inv ids \<Longrightarrow>
    bt_inv ids' \<and> set (map fst ids') =
      set (map fst ids) \<union> sig_id ` {s \<in> set (p_signals p). \<exists>sel \<in> set ss. selects glob sel s}"
proof (induction glob p ids ss rule: select_loop.induct)
  case (2 glob p ids s ss)
  then obtain ids1 where 1: "select_one glob p ids s = Inr ids1" "select_loop glob p ids1 ss = Inr ids'"
    by (auto simp: res_simps)
  note one = select_one_set[OF "2.prems"(1) 1(1) "2.prems"(3)]
  show ?case using "2.IH"[OF "2.prems"(1) 1(2)] one by auto
qed auto

text \<open>
  Selectors of an instance select what they say. If the selectors of a loaded project resolve,
  the result lists, in increasing order and once each, exactly the identifiers of the signals that
  at least one selector matches, and every glob and name matched something.
\<close>

theorem instance_selection:
  assumes "project_inv p" and "select_instance_signal_ids glob p selectors = Inr ids"
  shows "sorted ids \<and> distinct ids \<and>
    set ids = sig_id ` {s \<in> set (p_signals p). \<exists>sel \<in> set selectors. selects glob sel s}"
proof -
  obtain m where m: "select_loop glob p [] selectors = Inr m" "ids = map fst m"
    using assms(2) by (auto simp: select_instance_signal_ids_def res_simps split: if_splits)
  have "bt_inv ([] :: id_set)" by (simp add: bt_inv_def)
  then show ?thesis using select_loop_set[OF assms(1) m(1)] m(2) by (auto simp: bt_inv_def)
qed

theorem instance_selection_witness:
  "set (projr (select_instance_signal_ids (\<lambda>_. None) demo_project [''count'', ''*''])) = {7}"
proof -
  let ?s = "\<lparr>sig_id = 7, sig_name = ''count'', sig_type = TU32, sig_units = None\<rparr> :: signal_meta"
  have sigs: "p_signals demo_project = [?s]" by code_simp
  have inv: "project_inv demo_project" by (rule project_load_inv[OF demo_load_project])
  have "signal_id_by_name demo_project ''count'' = Some 7"
    using signal_id_by_name_inv[OF inv, of "''count''" 7] sigs by simp
  then have "select_instance_signal_ids (\<lambda>_. None) demo_project [''count'', ''*''] = Inr [7]"
    by (simp add: select_instance_signal_ids_def select_one_def strip_prefix_def starts_with_def
        contains_glob_def sigs set_add_def)
  from instance_selection[OF inv this] this show ?thesis by (simp add: sigs selects_def)
qed

section \<open>The catalog\<close>

definition entry_ok :: "catalog_entry \<Rightarrow> bool" where
  "entry_ok e \<longleftrightarrow> CHR '':'' \<notin> set (ce_signal_name e) \<and>
     (\<exists>rest. ce_qualified e = ce_instance e @ CHR '':'' # rest)"

lemma qualified_ok:
  "starts_with a q \<and> starts_with '':'' (drop (length a) q) \<longleftrightarrow> (\<exists>rest. q = a @ CHR '':'' # rest)"
proof
  assume s: "starts_with a q \<and> starts_with '':'' (drop (length a) q)"
  then obtain rest where "drop (length a) q = CHR '':'' # rest"
    by (cases "drop (length a) q") (auto simp: starts_with_def)
  then show "\<exists>rest. q = a @ CHR '':'' # rest"
    using s append_take_drop_id[of "length a" q] by (auto simp: starts_with_def intro!: exI[of _ rest])
qed (auto simp: starts_with_def)

lemma catalog_check_Inr:
  "catalog_check idx e m = Inr m' \<longleftrightarrow>
    entry_ok e \<and> hm_get m (ce_qualified e) = None \<and> m' = hm_insert (ce_qualified e) idx m"
  using qualified_ok[of "ce_instance e" "ce_qualified e"]
  by (auto simp: catalog_check_def entry_ok_def split: option.splits)

lemma catalog_loop_index:
  "catalog_loop k es m = Inr m' \<Longrightarrow> hm_inv m \<Longrightarrow>
    list_all entry_ok es \<and> distinct (map ce_qualified es) \<and>
    (\<forall>e \<in> set es. hm_get m (ce_qualified e) = None) \<and>
    (\<forall>q i. hm_get m' q = Some i \<longleftrightarrow>
       hm_get m q = Some i \<or> (\<exists>j < length es. i = k + j \<and> q = ce_qualified (es ! j)))"
proof (induction k es m rule: catalog_loop.induct)
  case (2 k e es m)
  then obtain m1 where c: "catalog_check k e m = Inr m1" "catalog_loop (Suc k) es m1 = Inr m'"
    by (auto simp: res_simps)
  then have e: "entry_ok e" "hm_get m (ce_qualified e) = None" "m1 = hm_insert (ce_qualified e) k m"
    by (simp_all add: catalog_check_Inr)
  have g: "hm_get m1 q = (if q = ce_qualified e then Some k else hm_get m q)" for q
    using hm.get_insert[OF "2.prems"(2)] e(3) by simp
  have inv1: "hm_inv m1" using hm.inv_insert[OF "2.prems"(2)] e(3) by simp
  from "2.IH"[OF c(2) inv1] have ih: "list_all entry_ok es" "distinct (map ce_qualified es)"
    "\<forall>e \<in> set es. hm_get m1 (ce_qualified e) = None"
    "\<And>q i. hm_get m' q = Some i \<longleftrightarrow>
       hm_get m1 q = Some i \<or> (\<exists>j < length es. i = Suc k + j \<and> q = ce_qualified (es ! j))"
    by simp_all
  have new: "ce_qualified e \<notin> ce_qualified ` set es" "\<forall>e \<in> set es. hm_get m (ce_qualified e) = None"
    using ih(3) g by (fastforce split: if_splits)+
  have "hm_get m' q = Some i \<longleftrightarrow>
      hm_get m q = Some i \<or> (\<exists>j < length (e # es). i = k + j \<and> q = ce_qualified ((e # es) ! j))" for q i
  proof -
    have E: "(\<exists>j < length (e # es). i = k + j \<and> q = ce_qualified ((e # es) ! j)) \<longleftrightarrow>
        i = k \<and> q = ce_qualified e \<or> (\<exists>j < length es. i = Suc k + j \<and> q = ce_qualified (es ! j))"
      by (auto simp: less_Suc_eq_0_disj)
    define R where "R = (\<exists>j < length es. i = Suc k + j \<and> q = ce_qualified (es ! j))"
    show ?thesis
      unfolding ih(4) E g R_def[symmetric] by (cases "q = ce_qualified e") (auto simp: e(2))
  qed
  then show ?case using e ih new by simp
qed auto

lemma catalog_build_index:
  assumes "catalog_build es = Inr c"
  shows "mset (cat_entries c) = mset es \<and> sorted (map ce_qualified (cat_entries c)) \<and>
    distinct (map ce_qualified (cat_entries c)) \<and> list_all entry_ok (cat_entries c) \<and>
    (hm_get (cat_index c) q = Some i \<longleftrightarrow> i < length (cat_entries c) \<and> ce_qualified (cat_entries c ! i) = q)"
proof -
  let ?s = "sort_key ce_qualified es"
  obtain m where m: "catalog_loop 0 ?s [] = Inr m" "c = \<lparr>cat_entries = ?s, cat_index = m\<rparr>"
    using assms by (auto simp: catalog_build_def Let_def res_simps)
  have "hm_inv ([] :: (string, nat) hmap)" by (simp add: hm_inv_def)
  note loop = catalog_loop_index[OF m(1) this]
  have "sorted (map ce_qualified ?s)" "mset ?s = mset es" by simp_all
  then show ?thesis using loop m(2) by auto
qed

text \<open>
  A catalog that builds is sound. Its entries are the given ones sorted by qualified name, no
  two share a qualified name, every name has the form \<open>instance:signal\<close> without a further colon in
  the signal, and the index finds a name exactly at its entry's position.
\<close>

theorem catalog_build_sound:
  assumes "catalog_build es = Inr c"
  shows "mset (cat_entries c) = mset es \<and> sorted (map ce_qualified (cat_entries c)) \<and>
    distinct (map ce_qualified (cat_entries c)) \<and> list_all entry_ok (cat_entries c) \<and>
    (hm_get (cat_index c) q = Some i \<longleftrightarrow> i < length (cat_entries c) \<and> ce_qualified (cat_entries c ! i) = q)"
  by (rule catalog_build_index[OF assms])

theorem catalog_build_sound_witness:
  "cat_entries (projr (catalog_build
     [\<lparr>ce_instance = ''b'', ce_local_id = 1, ce_signal_name = ''x'', ce_qualified = ''b:x'',
       ce_type = TU32, ce_units = None\<rparr>])) ! 0 =
     \<lparr>ce_instance = ''b'', ce_local_id = 1, ce_signal_name = ''x'', ce_qualified = ''b:x'',
       ce_type = TU32, ce_units = None\<rparr>"
proof -
  let ?e = "\<lparr>ce_instance = ''b'', ce_local_id = 1, ce_signal_name = ''x'', ce_qualified = ''b:x'',
       ce_type = TU32, ce_units = None\<rparr>"
  have "catalog_build [?e] = Inr \<lparr>cat_entries = [?e], cat_index = [(''b:x'', 0)]\<rparr>"
    by (simp add: catalog_build_def catalog_check_def starts_with_def hm_insert_def)
  from catalog_build_sound[OF this] this show ?thesis by simp
qed

section \<open>Order of resolved selectors\<close>

definition keep_first :: "nat list \<Rightarrow> nat list" where
  "keep_first xs = rev (remdups (rev xs))"

lemma keep_first_snoc: "keep_first (xs @ [x]) = (if x \<in> set xs then keep_first xs else keep_first xs @ [x])"
  by (simp add: keep_first_def)

lemma set_keep_first [simp]: "set (keep_first xs) = set xs" "distinct (keep_first xs)"
  by (simp_all add: keep_first_def)

lemma insert_new_keep_first: "insert_new (keep_first xs) is = keep_first (xs @ is)"
proof (induction "is" arbitrary: xs)
  case (Cons i "is")
  then show ?case using Cons[of "xs @ [i]"] by (simp add: keep_first_snoc)
qed simp

lemma resolve_loop_keep_first:
  "resolve_loop glob c (keep_first xs) ss = Inr r \<longleftrightarrow>
    (\<exists>iss. map_res (resolve_selector_indices glob c) ss = Inr iss \<and> r = keep_first (xs @ concat iss))"
proof (induction ss arbitrary: xs)
  case Nil
  then show ?case by auto
next
  case (Cons s ss)
  show ?case
  proof (cases "resolve_selector_indices glob c s")
    case (Inl e)
    then show ?thesis by simp
  next
    case (Inr "is")
    have "resolve_loop glob c (keep_first xs) (s # ss) = Inr r \<longleftrightarrow>
        (\<exists>iss. map_res (resolve_selector_indices glob c) ss = Inr iss \<and> r = keep_first ((xs @ is) @ concat iss))"
      using Cons[of "xs @ is"] by (simp only: resolve_loop.simps Inr res_bind_simps insert_new_keep_first)
    also have "\<dots> \<longleftrightarrow> (\<exists>iss. map_res (resolve_selector_indices glob c) (s # ss) = Inr iss \<and>
        r = keep_first (xs @ concat iss))"
      by (force simp: Inr res_bind_Inr)
    finally show ?thesis .
  qed
qed

lemma resolve_selector_range:
  assumes "catalog_build es = Inr c" "resolve_selector_indices glob c s = Inr is"
  shows "list_all (\<lambda>i. i < length (cat_entries c)) is"
proof -
  have "i < length (cat_entries c)" if "hm_get (cat_index c) q = Some i" for q i
    using catalog_build_index[OF assms(1)] that by blast
  then show ?thesis
    using assms(2)
    by (auto simp: resolve_selector_indices_def resolve_glob_def res_simps list_all_iff Let_def
        split: if_splits option.splits prod.splits)
qed

text \<open>
  Environment selectors resolve in order of first mention. Resolving several selectors gives
  the concatenation of what each resolves to, an index kept at its first place only; it fails
  exactly when there is no selector or one of them fails, and every index lies in the catalog.
\<close>

theorem env_selection_order:
  assumes "catalog_build es = Inr c" and "selectors \<noteq> []"
  shows "(resolve_selectors glob c selectors = Inr r \<longleftrightarrow>
      (\<exists>iss. map_res (resolve_selector_indices glob c) selectors = Inr iss \<and> r = keep_first (concat iss))) \<and>
    (resolve_selectors glob c selectors = Inr r \<longrightarrow>
      distinct r \<and> list_all (\<lambda>i. i < length (cat_entries c)) r)"
proof -
  have k: "keep_first [] = []" by (simp add: keep_first_def)
  have iff: "resolve_selectors glob c selectors = Inr r \<longleftrightarrow>
      (\<exists>iss. map_res (resolve_selector_indices glob c) selectors = Inr iss \<and> r = keep_first (concat iss))"
    using resolve_loop_keep_first[of glob c "[]" selectors r] assms(2) by (simp add: k resolve_selectors_def)
  moreover have "list_all (\<lambda>i. i < length (cat_entries c)) (concat iss)"
    if "map_res (resolve_selector_indices glob c) selectors = Inr iss" for iss
  proof -
    have "list_all (\<lambda>is. list_all (\<lambda>i. i < length (cat_entries c)) is) iss"
      using that resolve_selector_range[OF assms(1)]
      by (force simp: map_res_Inr list_all2_conv_all_nth list_all_length)
    then show ?thesis by (auto simp: list_all_iff)
  qed
  ultimately show ?thesis by (metis list_all_iff set_keep_first(1) set_keep_first(2))
qed

theorem env_selection_order_witness:
  "resolve_selectors (\<lambda>_. None) \<lparr>cat_entries = [], cat_index = []\<rparr> [''*'', ''*''] = Inr []"
proof -
  have "catalog_build [] = Inr \<lparr>cat_entries = [], cat_index = []\<rparr>" by (simp add: catalog_build_def)
  from env_selection_order[OF this, of "[''*'', ''*'']" "\<lambda>_. None" "[]"]
  show ?thesis by (simp add: resolve_selector_indices_def keep_first_def)
qed

end
