(* ===== verification/Daemon.thy ===== *)
theory Daemon
  imports Protocol Trace Selectors Dbc Shared_Region
begin

text \<open>
  The instance daemon: \<open>daemon/server.rs\<close> with \<open>can_ops.rs\<close>, \<open>shared_ops.rs\<close> and the step functions
  of \<open>action_router.rs\<close>. One daemon owns one simulation, its time engine, the CAN buses and shared
  channels attached to it, and a trace. \<open>daemon\<close> is \<open>DaemonState\<close> plus the world outside; what
  the operating system, the DBC grammar and the glob engine do is the record \<open>daemon_sys\<close>. Memory
  that processes share is in the world, under the path it is mapped from. Hash maps are iterated in
  the order of their list, which is arbitrary.
\<close>

section \<open>State\<close>

record 'w daemon_sys =
  sys_now :: "'w \<Rightarrow> nat \<times> 'w"  \<comment> \<open>\<open>Instant::now\<close>, in nanoseconds\<close>
  sys_glob :: glob_engine
  sys_files :: "'w files"
  sys_can_open :: "string \<Rightarrow> u32 \<Rightarrow> u32 \<Rightarrow> bool \<Rightarrow> 'w \<Rightarrow> bool \<times> 'w"
  sys_can_recv :: "string \<Rightarrow> 'w \<Rightarrow> recv_result list \<times> 'w"
  sys_can_send :: "string \<Rightarrow> linux_frame \<Rightarrow> 'w \<Rightarrow> bool \<times> 'w"
  sys_read_text :: "'w \<Rightarrow> string \<Rightarrow> string option"
  sys_parse_dbc :: "string \<Rightarrow> parsed_message list option"
  sys_region_file :: "string \<Rightarrow> 'w \<Rightarrow> region_file option"
  sys_region_load :: "string \<Rightarrow> 'w \<Rightarrow> shared_region"
  sys_region_store :: "string \<Rightarrow> shared_region \<Rightarrow> 'w \<Rightarrow> 'w"
  sys_list_instances :: "'w \<Rightarrow> instance_info_data list option \<times> 'w"

record attached_can_bus =
  ac_meta :: sim_can_bus_desc
  ac_iface :: string

record attached_shared_channel =
  as_meta :: sim_shared_desc
  as_region :: string  \<comment> \<open>the path the region is mapped from\<close>
  as_writer :: bool

record active_daemon_trace =
  at_writer :: csv_writer
  at_signal_ids :: "u32 list"
  at_period_ticks :: u64
  at_period_us :: u64
  at_next_due_tick :: u64

record daemon_trace_state =
  tr_active :: "active_daemon_trace option"
  tr_last_path :: "string option"
  tr_last_row_count :: u64
  tr_last_signal_count :: nat
  tr_last_period_us :: "u64 option"

record 'w daemon =
  dm_session :: string
  dm_socket_path :: string
  dm_env :: "string option"
  dm_project :: "'w project"
  dm_can_attached :: "(string, attached_can_bus) hmap"
  dm_dbc_overlays :: "(string, dbc_overlay) hmap"
  dm_shared_attached :: "(string, attached_shared_channel) hmap"
  dm_frame_state :: "(string, (u32, sim_can_frame) hmap) hmap"
  dm_trace :: daemon_trace_state
  dm_time :: time_engine
  dm_backlog :: u64
  dm_shutdown :: bool
  dm_world :: 'w

datatype daemon_error =
  DSim sim_error
| DTime time_error
| DSelector selector_error  \<comment> \<open>wrapped in \<open>SimError::InvalidSignal\<close>\<close>
| DUnknownId u32
| DDuration protocol_error
| DCanProjection
| DEnvOwnsTime string
| DEnvOwnsCan
| DBusAttached string
| DBusNotAttached string
| DBusUndeclared string
| DSocketOpen string
| DSocket socket_error
| DFrame frame_error
| DPayload payload_error
| DDbc dbc_error
| DCanRx string sim_error
| DCanTx string sim_error
| DChannelAttached string
| DChannelNotAttached string
| DChannelUndeclared string
| DRegionOpen shared_open_error
| DSharedWrite string sim_error
| DSharedPrime string publish_error
| DSharedPublish string publish_error
| DSharedSnapshot string snapshot_error
| DSharedRead string sim_error
| DReadCount nat nat
| DTypeMismatch string signal_type signal_type
| DTraceActive
| DTraceRelative string
| DTracePeriodZero
| DTrace trace_error
| DTraceRemove string
| DBound string
| DListInstances
| DEnvAction

type_synonym ('w, 'a) dact = "('w daemon, daemon_error, 'a) act"

definition daemon_new :: "string \<Rightarrow> string \<Rightarrow> 'w project \<Rightarrow> string option \<Rightarrow> 'w \<Rightarrow> 'w daemon" where
  "daemon_new session socket_path project env w =
     \<lparr>dm_session = session, dm_socket_path = socket_path, dm_env = env, dm_project = project,
      dm_can_attached = [], dm_dbc_overlays = [], dm_shared_attached = [], dm_frame_state = [],
      dm_trace = \<lparr>tr_active = None, tr_last_path = None, tr_last_row_count = 0,
        tr_last_signal_count = 0, tr_last_period_us = None\<rparr>,
      dm_time = engine_default, dm_backlog = 0, dm_shutdown = False, dm_world = w\<rparr>"

definition on_world :: "('e \<Rightarrow> daemon_error) \<Rightarrow> ('w, 'e, 'a) act \<Rightarrow> ('w, 'a) dact" where
  "on_world f m s = (case m (dm_world s) of (r, w) \<Rightarrow> (map_err f r, s\<lparr>dm_world := w\<rparr>))"

definition on_time :: "(time_engine, time_error, 'a) act \<Rightarrow> ('w, 'a) dact" where
  "on_time m s = (case m (dm_time s) of (r, e) \<Rightarrow> (map_err DTime r, s\<lparr>dm_time := e\<rparr>))"

definition read_clock :: "'w daemon_sys \<Rightarrow> ('w, nat) dact" where
  "read_clock sys = on_world id (\<lambda>w. case sys_now sys w of (t, w') \<Rightarrow> (Inr t, w'))"

definition tick_us :: "'w daemon \<Rightarrow> u32" where
  "tick_us s = p_tick_duration_us (dm_project s)"

definition time_status :: "'w daemon \<Rightarrow> time_status" where
  "time_status s = te_status (tick_us s) (dm_time s)"

section \<open>Values\<close>

definition parse_value :: "signal_type \<Rightarrow> string \<Rightarrow> sim_error + signal_value" where
  "parse_value type raw = (case type of
      TBool \<Rightarrow>
        if raw \<in> {''true'', ''1'', ''True'', ''TRUE''} then Inr (VBool True)
        else if raw \<in> {''false'', ''0'', ''False'', ''FALSE''} then Inr (VBool False)
        else Inl (InvalidArg (''invalid bool value '' @ raw))
    | TU32 \<Rightarrow> ok_or (InvalidArg (''invalid u32 value '' @ raw)) (map_option VU32 (parse_u32 raw))
    | TI32 \<Rightarrow> ok_or (InvalidArg (''invalid i32 value '' @ raw)) (map_option VI32 (parse_i32 raw))
    | TF32 \<Rightarrow> ok_or (InvalidArg (''invalid f32 value '' @ raw))
        (map_option (\<lambda>x. VF32 (bits_of_f32 x)) (parse_f32 raw))
    | TF64 \<Rightarrow> ok_or (InvalidArg (''invalid f64 value '' @ raw))
        (map_option (\<lambda>x. VF64 (bits_of_f64 x)) (parse_f64 raw)))"

section \<open>CAN\<close>

definition find_can_bus_meta :: "'w daemon \<Rightarrow> string \<Rightarrow> daemon_error + sim_can_bus_desc" where
  "find_can_bus_meta s name =
     ok_or (DBusUndeclared name) (find (\<lambda>b. bus_name b = name) (p_can_buses (dm_project s)))"

definition record_frame :: "string \<Rightarrow> sim_can_frame \<Rightarrow> 'w daemon \<Rightarrow> 'w daemon" where
  "record_frame name frame s =
     (let frames = (case hm_get (dm_frame_state s) name of Some m \<Rightarrow> m | None \<Rightarrow> []) in
      s\<lparr>dm_frame_state := hm_insert name (hm_insert (frame_key_from_frame frame) frame frames)
          (dm_frame_state s)\<rparr>)"

definition socket_recv :: "'w daemon_sys \<Rightarrow> string \<Rightarrow> ('w, socket_error, sim_can_frame list) act" where
  "socket_recv sys iface w = (case sys_can_recv sys iface w of (results, w') \<Rightarrow> (recv_all results, w'))"

definition socket_send :: "'w daemon_sys \<Rightarrow> string \<Rightarrow> sim_can_frame \<Rightarrow> ('w, socket_error, unit) act" where
  "socket_send sys iface = send_frame (sys_can_send sys iface)"

definition check_frame :: "attached_can_bus \<Rightarrow> sim_can_frame \<Rightarrow> daemon_error + unit" where
  "check_frame att frame =
     map_err DFrame (validate_frame (bus_name (ac_meta att)) (fd_capable (ac_meta att)) frame)"

type_synonym received = "string \<times> u32 \<times> sim_can_frame list"

definition recv_bus ::
    "'w daemon_sys \<Rightarrow> string \<times> attached_can_bus \<Rightarrow> ('w, received) dact" where
  "recv_bus sys bus = (case bus of (name, att) \<Rightarrow>
     a_bind (on_world DSocket (socket_recv sys (ac_iface att))) (\<lambda>frames.
     a_bind (a_for frames (\<lambda>f. a_lift (check_frame att f))) (\<lambda>_.
     a_ret (name, bus_id (ac_meta att), frames))))"

definition recv_can_frames :: "'w daemon_sys \<Rightarrow> ('w, received list) dact" where
  "recv_can_frames sys =
     a_bind (a_get dm_can_attached) (\<lambda>buses.
     a_bind (a_mapM buses (recv_bus sys)) (\<lambda>all.
     a_ret (filter (\<lambda>(_, _, frames). frames \<noteq> []) all)))"

definition deliver_can_frames :: "received list \<Rightarrow> ('w, unit) dact" where
  "deliver_can_frames updates =
     a_bind (a_get dm_project) (\<lambda>p.
     a_bind (a_for updates (\<lambda>(name, bus, frames). on_world (DCanRx name) (can_rx p bus frames))) (\<lambda>_.
     a_mod (\<lambda>s. foldl (\<lambda>s (name, _, frames). foldl (\<lambda>s f. record_frame name f s) s frames) s updates)))"

definition process_can_rx :: "'w daemon_sys \<Rightarrow> ('w, unit) dact" where
  "process_can_rx sys = a_bind (recv_can_frames sys) deliver_can_frames"

definition discard_can_rx :: "'w daemon_sys \<Rightarrow> ('w, unit) dact" where
  "discard_can_rx sys = a_bind (recv_can_frames sys) (\<lambda>_. a_ret ())"

definition tx_bus ::
    "'w daemon_sys \<Rightarrow> string \<times> attached_can_bus \<Rightarrow> ('w, (string \<times> sim_can_frame) list) dact" where
  "tx_bus sys bus = (case bus of (name, att) \<Rightarrow>
     a_bind (a_get dm_project) (\<lambda>p.
     a_bind (on_world (DCanTx name) (can_tx p (bus_id (ac_meta att)))) (\<lambda>frames.
     a_mapM frames (\<lambda>f.
       a_bind (a_lift (check_frame att f)) (\<lambda>_.
       a_bind (on_world DSocket (socket_send sys (ac_iface att) f)) (\<lambda>_.
       a_ret (name, f)))))))"

definition process_can_tx :: "'w daemon_sys \<Rightarrow> ('w, unit) dact" where
  "process_can_tx sys =
     a_bind (a_get dm_can_attached) (\<lambda>buses.
     a_bind (a_mapM buses (tx_bus sys)) (\<lambda>updates.
     a_mod (\<lambda>s. foldl (\<lambda>s (name, f). record_frame name f s) s (concat updates))))"

definition attach_can_bus :: "'w daemon_sys \<Rightarrow> string \<Rightarrow> string \<Rightarrow> ('w, unit) dact" where
  "attach_can_bus sys name iface =
     a_bind (a_get (\<lambda>s. hm_get (dm_can_attached s) name)) (\<lambda>old.
     if old \<noteq> None then a_fail (DBusAttached name)
     else a_bind (\<lambda>s. (find_can_bus_meta s name, s)) (\<lambda>meta.
       a_bind (on_world id (io_step
         (sys_can_open sys iface (bitrate meta) (bitrate_data meta) (fd_capable meta))
         (DSocketOpen iface))) (\<lambda>_.
       a_mod (\<lambda>s. s\<lparr>dm_can_attached := hm_insert name \<lparr>ac_meta = meta, ac_iface = iface\<rparr>
         (dm_can_attached s)\<rparr>))))"

section \<open>Shared channels\<close>

definition find_shared_channel_meta :: "'w daemon \<Rightarrow> string \<Rightarrow> daemon_error + sim_shared_desc" where
  "find_shared_channel_meta s name =
     ok_or (DChannelUndeclared name) (find (\<lambda>c. ch_name c = name) (p_shared_channels (dm_project s)))"

definition region_publish ::
    "'w daemon_sys \<Rightarrow> string \<Rightarrow> sim_shared_slot list \<Rightarrow> ('w, publish_error, unit) act" where
  "region_publish sys path slots w =
     (case publish slots (sys_region_load sys path w) of (r, region) \<Rightarrow>
        (r, sys_region_store sys path region w))"

definition region_snapshot ::
    "'w daemon_sys \<Rightarrow> string \<Rightarrow> ('w, snapshot_error, sim_shared_slot list) act" where
  "region_snapshot sys path w = (read_snapshot (sys_region_load sys path w), w)"

definition shared_rx_one ::
    "'w daemon_sys \<Rightarrow> string \<times> attached_shared_channel \<Rightarrow> ('w, unit) dact" where
  "shared_rx_one sys channel = (case channel of (name, att) \<Rightarrow>
     if as_writer att then a_ret ()
     else a_bind (on_world (DSharedSnapshot name) (region_snapshot sys (as_region att))) (\<lambda>slots.
       if slots = [] then a_ret ()
       else a_bind (a_get dm_project) (\<lambda>p.
         on_world (DSharedRead name) (shared_read p (ch_id (as_meta att)) slots))))"

definition process_shared_rx :: "'w daemon_sys \<Rightarrow> ('w, unit) dact" where
  "process_shared_rx sys =
     a_bind (a_get dm_shared_attached) (\<lambda>channels. a_for channels (shared_rx_one sys))"

definition shared_tx_one ::
    "'w daemon_sys \<Rightarrow> string \<times> attached_shared_channel \<Rightarrow> ('w, unit) dact" where
  "shared_tx_one sys channel = (case channel of (name, att) \<Rightarrow>
     if \<not> as_writer att then a_ret ()
     else a_bind (a_get dm_project) (\<lambda>p.
       a_bind (on_world (DSharedWrite name) (shared_write p (ch_id (as_meta att)))) (\<lambda>slots.
       if slots = [] then a_ret ()
       else on_world (DSharedPublish name) (region_publish sys (as_region att) slots))))"

definition process_shared_tx :: "'w daemon_sys \<Rightarrow> ('w, unit) dact" where
  "process_shared_tx sys =
     a_bind (a_get dm_shared_attached) (\<lambda>channels. a_for channels (shared_tx_one sys))"

section \<open>The trace\<close>

definition update_trace_history :: "'w daemon \<Rightarrow> 'w daemon" where
  "update_trace_history s = (case tr_active (dm_trace s) of
      None \<Rightarrow> s
    | Some a \<Rightarrow> s\<lparr>dm_trace := (dm_trace s)
        \<lparr>tr_last_path := Some (tw_path (at_writer a)), tr_last_row_count := tw_row_count (at_writer a),
         tr_last_signal_count := length (at_signal_ids a), tr_last_period_us := Some (at_period_us a)\<rparr>\<rparr>)"

definition set_active :: "active_daemon_trace option \<Rightarrow> 'w daemon \<Rightarrow> 'w daemon" where
  "set_active a s = s\<lparr>dm_trace := (dm_trace s)\<lparr>tr_active := a\<rparr>\<rparr>"

definition sample_instance_trace :: "'w daemon_sys \<Rightarrow> u64 \<Rightarrow> ('w, unit) dact" where
  \<comment> \<open>\<open>sample_instance_trace_after_tick\<close>\<close>
  "sample_instance_trace sys sample_tick =
     a_bind (a_get (\<lambda>s. tr_active (dm_trace s))) (\<lambda>active. case active of
       None \<Rightarrow> a_ret ()
     | Some a \<Rightarrow>
         if sample_tick < at_next_due_tick a then a_ret ()
         else a_bind (a_get dm_project) (\<lambda>p.
           let time_us = sat_mul sample_tick (ucast (p_tick_duration_us p)) in
           a_bind (on_world DSim (read_many p (at_signal_ids a))) (\<lambda>vals.
           a_bind (on_world DTrace
               (csv_write_row (sys_files sys) (at_writer a) sample_tick time_us vals)) (\<lambda>wr.
           a_mod (\<lambda>s. update_trace_history (set_active (Some (a\<lparr>at_writer := wr,
             at_next_due_tick := sat_add sample_tick (at_period_ticks a)\<rparr>)) s))))))"

section \<open>One tick\<close>

text \<open>An error of a tick carries whether the simulation had already advanced.\<close>

type_synonym tick_step_error = "daemon_error \<times> bool"

definition pre_tick :: "daemon_error \<Rightarrow> tick_step_error" where "pre_tick e = (e, False)"
definition post_tick :: "daemon_error \<Rightarrow> tick_step_error" where "post_tick e = (e, True)"

definition sample_tick_of :: "'w daemon \<Rightarrow> u64" where
  "sample_tick_of s = sat_add (ts_elapsed_ticks (time_status s)) 1"

definition tick_before :: "'w daemon_sys \<Rightarrow> ('w, unit) dact" where
  \<comment> \<open>Up to and including \<open>sim_tick\<close>.\<close>
  "tick_before sys =
     a_bind (process_can_rx sys) (\<lambda>_.
     a_bind (process_shared_rx sys) (\<lambda>_.
     a_bind (a_get dm_project) (\<lambda>p. on_world DSim (project_tick p))))"

definition tick_after :: "'w daemon_sys \<Rightarrow> ('w, unit) dact" where
  "tick_after sys =
     a_bind (a_get sample_tick_of) (\<lambda>t.
     a_bind (sample_instance_trace sys t) (\<lambda>_.
     a_bind (process_can_tx sys) (\<lambda>_.
     process_shared_tx sys)))"

definition advance_single_project_tick :: "'w daemon_sys \<Rightarrow> ('w daemon, tick_step_error, unit) act" where
  "advance_single_project_tick sys =
     a_bind (a_map_err pre_tick (tick_before sys)) (\<lambda>_. a_map_err post_tick (tick_after sys))"

definition count_tick :: "'w daemon \<Rightarrow> 'w daemon" where
  "count_tick s = s\<lparr>dm_time := advance_ticks 1 (dm_time s)\<rparr>"

fun advance_project_ticks :: "'w daemon_sys \<Rightarrow> nat \<Rightarrow> ('w, unit) dact" where
  \<comment> \<open>Also \<open>advance_project_ticks_for_request\<close>, which has the same text.\<close>
  "advance_project_ticks sys 0 = a_ret ()"
| "advance_project_ticks sys (Suc n) = (\<lambda>s.
     case advance_single_project_tick sys s of
       (Inl (e, advance_tick), s') \<Rightarrow> (Inl e, if advance_tick then count_tick s' else s')
     | (Inr _, s') \<Rightarrow> advance_project_ticks sys n (count_tick s'))"

end
