(* ===== verification/Daemon_Actions.thy ===== *)
theory Daemon_Actions
  imports Daemon
begin

text \<open>
  The actions of the instance daemon and its task loop: \<open>daemon/server/action_router.rs\<close> (one
  definition per branch of \<open>dispatch_instance_action\<close> and \<open>dispatch_worker_action\<close>),
  \<open>handle_action\<close> of \<open>daemon/server.rs\<close>, and \<open>daemon/server/tick_ops.rs\<close>, whose loop is one turn
  over the two queues of waiting messages.
\<close>

section \<open>Guards\<close>

definition reject_local_time_control :: "('w, unit) dact" where
  "reject_local_time_control s =
     (case dm_env s of Some env \<Rightarrow> (Inl (DEnvOwnsTime env), s) | None \<Rightarrow> (Inr (), s))"

definition reject_local_can_control :: "('w, unit) dact" where
  "reject_local_can_control s = (guard_err (dm_env s \<noteq> None) DEnvOwnsCan, s)"

definition is_can_selector :: "string \<Rightarrow> bool" where
  "is_can_selector selector = starts_with ''can.'' selector"

section \<open>Reading and writing signals\<close>

definition select_ids :: "'w daemon_sys \<Rightarrow> string \<Rightarrow> ('w, u32 list) dact" where
  "select_ids sys selector =
     a_bind (a_get dm_project) (\<lambda>p.
     a_lift (map_err DSelector (select_instance_signal_ids (sys_glob sys) p [selector])))"

definition signal_of_id :: "u32 \<Rightarrow> ('w, signal_meta) dact" where
  "signal_of_id i = a_bind (a_get dm_project) (\<lambda>p. a_lift (ok_or (DUnknownId i) (signal_by_id p i)))"

definition read_signal_data :: "u32 \<Rightarrow> ('w, signal_value_data) dact" where
  "read_signal_data i =
     a_bind (signal_of_id i) (\<lambda>s.
     a_bind (a_get dm_project) (\<lambda>p.
     a_bind (on_world DSim (project_read p s)) (\<lambda>v.
     a_ret \<lparr>sv_id = sig_id s, sv_name = sig_name s, sv_type = sig_type s, sv_value = v,
       sv_units = sig_units s\<rparr>)))"

definition read_selector :: "'w daemon_sys \<Rightarrow> string \<Rightarrow> ('w, signal_value_data list) dact" where
  "read_selector sys selector =
     (if is_can_selector selector then a_fail DCanProjection
      else a_bind (select_ids sys selector) (\<lambda>ids. a_mapM ids read_signal_data))"

definition read_selected_signal_values ::
    "'w daemon_sys \<Rightarrow> string list \<Rightarrow> ('w, signal_value_data list) dact" where
  "read_selected_signal_values sys selectors =
     a_bind (a_mapM selectors (read_selector sys)) (\<lambda>vals. a_ret (concat vals))"

definition check_read_value :: "u32 \<times> signal_value \<Rightarrow> ('w, u32 \<times> signal_value) dact" where
  "check_read_value iv = (case iv of (i, v) \<Rightarrow>
     a_bind (signal_of_id i) (\<lambda>s.
     if sig_type s \<noteq> value_signal_type v
     then a_fail (DTypeMismatch (sig_name s) (sig_type s) (value_signal_type v)) else a_ret (i, v)))"

definition read_signal_values_by_ids :: "u32 list \<Rightarrow> ('w, (u32 \<times> signal_value) list) dact" where
  "read_signal_values_by_ids ids =
     a_bind (a_get dm_project) (\<lambda>p.
     a_bind (on_world DSim (read_many p ids)) (\<lambda>vals.
     if length vals \<noteq> length ids then a_fail (DReadCount (length vals) (length ids))
     else a_mapM (zip ids vals) check_read_value))"

definition write_id :: "string \<Rightarrow> u32 \<Rightarrow> ('w, unit) dact" where
  "write_id raw i =
     a_bind (signal_of_id i) (\<lambda>s.
     a_bind (a_lift (map_err DSim (parse_value (sig_type s) raw))) (\<lambda>v.
     a_bind (a_get dm_project) (\<lambda>p. on_world DSim (project_write p s v))))"

definition write_selector :: "'w daemon_sys \<Rightarrow> string \<times> string \<Rightarrow> ('w, nat) dact" where
  \<comment> \<open>One entry of the map; the number of writes.\<close>
  "write_selector sys write = (case write of (selector, raw) \<Rightarrow>
     if is_can_selector selector then a_fail DCanProjection
     else a_bind (select_ids sys selector) (\<lambda>ids.
       a_bind (a_for ids (write_id raw)) (\<lambda>_. a_ret (length ids))))"

definition i_set :: "'w daemon_sys \<Rightarrow> (string \<times> string) list \<Rightarrow> ('w, response_data) dact" where
  "i_set sys writes =
     a_bind (a_mapM writes (write_selector sys)) (\<lambda>applied. a_ret (SetResult (sum_list applied)))"

section \<open>Traces\<close>

definition is_absolute_path :: "string \<Rightarrow> bool" where
  "is_absolute_path p = starts_with ''/'' p"

definition trace_period :: "string \<Rightarrow> daemon_error + u64" where
  "trace_period period =
     res_bind (map_err DDuration (parse_duration_us period)) (\<lambda>us.
     if us = 0 then Inl DTracePeriodZero else Inr us)"

definition start_instance_trace :: "'w daemon_sys \<Rightarrow> string \<Rightarrow> string \<Rightarrow> ('w, unit) dact" where
  "start_instance_trace sys path period =
     a_bind (a_get (\<lambda>s. tr_active (dm_trace s))) (\<lambda>active.
     if active \<noteq> None then a_fail DTraceActive
     else if \<not> is_absolute_path path then a_fail (DTraceRelative path)
     else a_bind (a_lift (trace_period period)) (\<lambda>period_us.
       a_bind (a_get dm_project) (\<lambda>p.
       let ids = map sig_id (p_signals p); headers = map sig_name (p_signals p);
           period_ticks = div_ceil period_us (ucast (p_tick_duration_us p)) in
       a_bind (a_get time_status) (\<lambda>status.
       a_bind (on_world DTrace (csv_create (sys_files sys) path headers)) (\<lambda>wr.
       a_bind (on_world DSim (read_many p ids)) (\<lambda>vals.
       a_bind (on_world DTrace (csv_write_row (sys_files sys) wr
           (ts_elapsed_ticks status) (ts_elapsed_time_us status) vals)) (\<lambda>wr'.
       a_mod (\<lambda>s. update_trace_history (set_active (Some
         \<lparr>at_writer = wr', at_signal_ids = ids, at_period_ticks = period_ticks,
          at_period_us = period_us,
          at_next_due_tick = sat_add (ts_elapsed_ticks status) period_ticks\<rparr>) s)))))))))"

definition stop_instance_trace :: "'w daemon_sys \<Rightarrow> ('w, unit) dact" where
  "stop_instance_trace sys =
     a_bind (a_get (\<lambda>s. tr_active (dm_trace s))) (\<lambda>active. case active of
       None \<Rightarrow> a_ret ()
     | Some a \<Rightarrow> a_bind (on_world DTrace (csv_flush (sys_files sys) (at_writer a))) (\<lambda>_.
         a_mod (\<lambda>s. set_active None (update_trace_history s))))"

definition clear_trace_history :: "'w daemon \<Rightarrow> 'w daemon" where
  "clear_trace_history s = s\<lparr>dm_trace := (dm_trace s)\<lparr>tr_last_path := None, tr_last_row_count := 0,
     tr_last_signal_count := 0, tr_last_period_us := None\<rparr>\<rparr>"

definition remove_trace_file :: "'w daemon_sys \<Rightarrow> string option \<Rightarrow> ('w, unit) dact" where
  "remove_trace_file sys path = (case path of
      None \<Rightarrow> a_ret ()
    | Some p \<Rightarrow> a_bind (a_get (\<lambda>s. fs_exists (sys_files sys) p (dm_world s))) (\<lambda>there.
        if there then on_world id (io_step (fs_remove (sys_files sys) p) (DTraceRemove p))
        else a_ret ()))"

definition clear_instance_trace :: "'w daemon_sys \<Rightarrow> ('w, unit) dact" where
  "clear_instance_trace sys =
     a_bind (a_get dm_trace) (\<lambda>trace.
     a_bind (case tr_active trace of
         Some a \<Rightarrow> a_bind (on_world DTrace (csv_flush (sys_files sys) (at_writer a))) (\<lambda>_.
           a_ret (Some (tw_path (at_writer a))))
       | None \<Rightarrow> a_ret (tr_last_path trace)) (\<lambda>path.
     a_bind (a_mod (set_active None)) (\<lambda>_.
     a_bind (remove_trace_file sys path) (\<lambda>_.
     a_mod clear_trace_history))))"

definition trace_status_response :: "'w daemon \<Rightarrow> response_data" where
  "trace_status_response s = (case tr_active (dm_trace s) of
      Some a \<Rightarrow> TraceStatus True (Some (tw_path (at_writer a))) (tw_row_count (at_writer a))
        (length (at_signal_ids a)) (Some (at_period_us a))
    | None \<Rightarrow> TraceStatus False (tr_last_path (dm_trace s)) (tr_last_row_count (dm_trace s))
        (tr_last_signal_count (dm_trace s)) (tr_last_period_us (dm_trace s)))"

definition then_trace_status :: "('w, unit) dact \<Rightarrow> ('w, response_data) dact" where
  "then_trace_status m = a_bind m (\<lambda>_. a_get trace_status_response)"

section \<open>Actions of an instance\<close>

definition i_load :: "load_spec \<Rightarrow> ('w, response_data) dact" where
  "i_load spec =
     a_bind (a_get dm_project) (\<lambda>p.
     if ls_libpath spec \<noteq> libpath p then a_fail (DBound (libpath p))
     else a_ret (Loaded (libpath p) (length (p_signals p))))"

definition i_info :: "('w, response_data) dact" where
  "i_info = a_get (\<lambda>s. ProjectInfo (libpath (dm_project s)) (tick_us s) (length (p_signals (dm_project s))))"

definition i_signals :: "('w, response_data) dact" where
  "i_signals = a_get (\<lambda>s. Signals (p_signals (dm_project s)))"

definition i_reset :: "('w, response_data) dact" where
  "i_reset =
     a_bind (a_get dm_project) (\<lambda>p.
     a_bind (on_world DSim (project_reset p)) (\<lambda>_.
     a_bind (a_mod (\<lambda>s. s\<lparr>dm_time := te_reset (dm_time s), dm_backlog := 0\<rparr>)) (\<lambda>_.
     a_ret Ack)))"

definition i_get :: "'w daemon_sys \<Rightarrow> string list \<Rightarrow> ('w, response_data) dact" where
  "i_get sys selectors =
     a_bind (read_selected_signal_values sys selectors) (\<lambda>vals. a_ret (SignalValues vals))"

definition i_sample :: "'w daemon_sys \<Rightarrow> string list \<Rightarrow> ('w, response_data) dact" where
  "i_sample sys selectors =
     a_bind (read_selected_signal_values sys selectors) (\<lambda>vals.
     a_get (\<lambda>s. SignalSample (ts_elapsed_ticks (time_status s)) (ts_elapsed_time_us (time_status s)) vals))"

definition clear_backlog :: "('w, unit) dact" where
  "clear_backlog = a_mod (\<lambda>s. s\<lparr>dm_backlog := 0\<rparr>)"

definition time_status_response :: "('w, response_data) dact" where
  "time_status_response = a_get (\<lambda>s. TimeStatus (time_status s))"

definition i_time_start :: "'w daemon_sys \<Rightarrow> ('w, response_data) dact" where
  "i_time_start sys =
     a_bind reject_local_time_control (\<lambda>_.
     a_bind (read_clock sys) (\<lambda>now.
     a_bind (on_time (te_start now)) (\<lambda>_.
     a_bind clear_backlog (\<lambda>_. time_status_response))))"

definition i_time_pause :: "('w, response_data) dact" where
  "i_time_pause =
     a_bind reject_local_time_control (\<lambda>_.
     a_bind (on_time te_pause) (\<lambda>_.
     a_bind clear_backlog (\<lambda>_. time_status_response)))"

definition i_time_step :: "'w daemon_sys \<Rightarrow> string \<Rightarrow> ('w, response_data) dact" where
  "i_time_step sys duration =
     a_bind reject_local_time_control (\<lambda>_.
     a_bind (a_lift (map_err DDuration (parse_duration_us duration))) (\<lambda>us.
     a_bind clear_backlog (\<lambda>_.
     a_bind (\<lambda>s. (map_err DTime (step_ticks (tick_us s) us (dm_time s)), s)) (\<lambda>step.
     a_bind (advance_project_ticks sys (unat (advanced_ticks step))) (\<lambda>_.
     a_ret (TimeAdvanced step))))))"

definition i_time_speed :: "f64 option \<Rightarrow> ('w, response_data) dact" where
  "i_time_speed multiplier =
     a_bind reject_local_time_control (\<lambda>_.
     a_bind (case multiplier of None \<Rightarrow> a_ret () | Some m \<Rightarrow> on_time (te_set_speed m)) (\<lambda>_.
     a_get (\<lambda>s. Speed (te_speed (dm_time s)))))"

definition can_bus_row :: "string option \<Rightarrow> sim_can_bus_desc \<Rightarrow> can_bus_data" where
  "can_bus_row iface b =
     \<lparr>cb_id = bus_id b, cb_name = bus_name b, cb_bitrate = bitrate b, cb_bitrate_data = bitrate_data b,
      cb_fd_capable = fd_capable b, cb_attached_iface = iface\<rparr>"

definition i_can_buses :: "('w, response_data) dact" where
  "i_can_buses =
     a_bind reject_local_can_control (\<lambda>_.
     a_get (\<lambda>s. CanBuses (map (\<lambda>b.
       can_bus_row (map_option ac_iface (hm_get (dm_can_attached s) (bus_name b))) b)
       (p_can_buses (dm_project s)))))"

definition i_can_attach :: "'w daemon_sys \<Rightarrow> string \<Rightarrow> string \<Rightarrow> ('w, response_data) dact" where
  "i_can_attach sys name iface =
     a_bind reject_local_can_control (\<lambda>_. a_bind (attach_can_bus sys name iface) (\<lambda>_. a_ret Ack))"

definition i_can_detach :: "string \<Rightarrow> ('w, response_data) dact" where
  "i_can_detach name =
     a_bind reject_local_can_control (\<lambda>_.
     a_bind (a_get (\<lambda>s. hm_get (dm_can_attached s) name)) (\<lambda>old.
     if old = None then a_fail (DBusNotAttached name)
     else a_bind (a_mod (\<lambda>s. s\<lparr>dm_can_attached := hm_remove name (dm_can_attached s),
         dm_dbc_overlays := hm_remove name (dm_dbc_overlays s)\<rparr>)) (\<lambda>_. a_ret Ack)))"

definition i_can_load_dbc :: "'w daemon_sys \<Rightarrow> string \<Rightarrow> string \<Rightarrow> ('w, response_data) dact" where
  "i_can_load_dbc sys name path =
     a_bind reject_local_can_control (\<lambda>_.
     a_bind (\<lambda>s. (find_can_bus_meta s name, s)) (\<lambda>_.
     a_bind (\<lambda>s. (map_err DDbc
         (overlay_load (sys_read_text sys (dm_world s)) (sys_parse_dbc sys) path), s)) (\<lambda>overlay.
     a_bind (a_mod (\<lambda>s. s\<lparr>dm_dbc_overlays := hm_insert name overlay (dm_dbc_overlays s)\<rparr>)) (\<lambda>_.
     a_ret (DbcLoaded name (length (overlay_signal_names overlay)))))))"

definition i_shared_list :: "('w, response_data) dact" where
  "i_shared_list = a_get (\<lambda>s. SharedChannels (p_shared_channels (dm_project s)))"

definition region_open_at ::
    "'w daemon_sys \<Rightarrow> string \<Rightarrow> nat \<Rightarrow> string \<Rightarrow> bool \<Rightarrow> ('w, shared_open_error, unit) act" where
  "region_open_at sys path n writer initialize w =
     (case region_open (sys_region_file sys path w) n writer initialize of
        Inl e \<Rightarrow> (Inl e, w)
      | Inr region \<Rightarrow> (Inr (), if initialize then sys_region_store sys path region w else w))"

definition prime_channel ::
    "'w daemon_sys \<Rightarrow> string \<Rightarrow> string \<Rightarrow> sim_shared_desc \<Rightarrow> ('w, unit) dact" where
  "prime_channel sys name path meta =
     a_bind (a_get dm_project) (\<lambda>p.
     a_bind (on_world (DSharedWrite name) (shared_write p (ch_id meta))) (\<lambda>snapshot.
     on_world (DSharedPrime name) (region_publish sys path snapshot)))"

definition i_shared_attach ::
    "'w daemon_sys \<Rightarrow> string \<Rightarrow> string \<Rightarrow> bool \<Rightarrow> string \<Rightarrow> ('w, response_data) dact" where
  "i_shared_attach sys name path writer owner =
     a_bind (a_get (\<lambda>s. hm_get (dm_shared_attached s) name)) (\<lambda>old.
     if old \<noteq> None then a_fail (DChannelAttached name)
     else a_bind (\<lambda>s. (find_shared_channel_meta s name, s)) (\<lambda>meta.
       a_bind (on_world DRegionOpen
         (region_open_at sys path (unat (slot_count meta)) owner writer)) (\<lambda>_.
       a_bind (if writer then prime_channel sys name path meta else a_ret ()) (\<lambda>_.
       a_bind (a_mod (\<lambda>s. s\<lparr>dm_shared_attached := hm_insert name
           \<lparr>as_meta = meta, as_region = path, as_writer = writer\<rparr> (dm_shared_attached s)\<rparr>)) (\<lambda>_.
       a_ret Ack)))))"

definition i_shared_get :: "'w daemon_sys \<Rightarrow> string \<Rightarrow> ('w, response_data) dact" where
  "i_shared_get sys name =
     a_bind (a_get (\<lambda>s. hm_get (dm_shared_attached s) name)) (\<lambda>att. case att of
       None \<Rightarrow> a_fail (DChannelNotAttached name)
     | Some a \<Rightarrow>
         a_bind (on_world (DSharedSnapshot name) (region_snapshot sys (as_region a))) (\<lambda>slots.
         a_ret (SharedValues name
           (map (\<lambda>x. (slot_id x, value_signal_type (slot_value x), slot_value x)) slots))))"

definition frame_of_payload :: "u32 \<Rightarrow> u8 list \<Rightarrow> u8 option \<Rightarrow> sim_can_frame" where
  "frame_of_payload arb bytes flags =
     \<lparr>arb_id = arb, fr_len = of_nat (length bytes),
      fr_flags = (case flags of Some f \<Rightarrow> f | None \<Rightarrow> 0),
      fr_data = bytes @ replicate (64 - length bytes) 0\<rparr>"

definition i_can_send ::
    "'w daemon_sys \<Rightarrow> string \<Rightarrow> u32 \<Rightarrow> string \<Rightarrow> u8 option \<Rightarrow> ('w, response_data) dact" where
  "i_can_send sys name arb data_hex flags =
     a_bind reject_local_can_control (\<lambda>_.
     a_bind (a_get (\<lambda>s. hm_get (dm_can_attached s) name)) (\<lambda>att. case att of
       None \<Rightarrow> a_fail (DBusNotAttached name)
     | Some a \<Rightarrow>
         a_bind (a_lift (map_err DPayload (parse_data_hex data_hex))) (\<lambda>bytes.
         let frame = frame_of_payload arb bytes flags in
         a_bind (a_lift (check_frame a frame)) (\<lambda>_.
         a_bind (on_world DSocket (socket_send sys (ac_iface a) frame)) (\<lambda>_.
         a_bind (a_mod (record_frame name frame)) (\<lambda>_.
         a_ret (CanSent name arb (fr_len frame))))))))"

definition i_instance_status :: "('w, response_data) dact" where
  "i_instance_status = a_get (\<lambda>s. InstanceStatus (dm_session s) (dm_socket_path s) True (dm_env s))"

definition i_instance_list :: "'w daemon_sys \<Rightarrow> ('w, response_data) dact" where
  "i_instance_list sys =
     a_bind (on_world id (\<lambda>w. case sys_list_instances sys w of (r, w') \<Rightarrow> (ok_or DListInstances r, w')))
       (\<lambda>l. a_ret (InstanceList l))"

definition i_close :: "('w, response_data) dact" where
  "i_close = a_bind (a_mod (\<lambda>s. s\<lparr>dm_shutdown := True\<rparr>)) (\<lambda>_. a_ret Ack)"

fun dispatch_instance_action :: "'w daemon_sys \<Rightarrow> instance_action \<Rightarrow> ('w, response_data) dact" where
  "dispatch_instance_action sys IPing = a_ret Ack"
| "dispatch_instance_action sys (ILoad spec) = i_load spec"
| "dispatch_instance_action sys IInfo = i_info"
| "dispatch_instance_action sys ISignals = i_signals"
| "dispatch_instance_action sys IReset = i_reset"
| "dispatch_instance_action sys (IGet selectors) = i_get sys selectors"
| "dispatch_instance_action sys (ISample selectors) = i_sample sys selectors"
| "dispatch_instance_action sys (ISet writes) = i_set sys writes"
| "dispatch_instance_action sys (ITraceStart path period) =
     then_trace_status (start_instance_trace sys path period)"
| "dispatch_instance_action sys ITraceStop = then_trace_status (stop_instance_trace sys)"
| "dispatch_instance_action sys ITraceClear = then_trace_status (clear_instance_trace sys)"
| "dispatch_instance_action sys ITraceStatus = a_get trace_status_response"
| "dispatch_instance_action sys ITimeStart = i_time_start sys"
| "dispatch_instance_action sys ITimePause = i_time_pause"
| "dispatch_instance_action sys (ITimeStep duration) = i_time_step sys duration"
| "dispatch_instance_action sys (ITimeSpeed multiplier) = i_time_speed multiplier"
| "dispatch_instance_action sys ITimeStatus = time_status_response"
| "dispatch_instance_action sys ICanBuses = i_can_buses"
| "dispatch_instance_action sys (ICanAttach name iface) = i_can_attach sys name iface"
| "dispatch_instance_action sys (ICanDetach name) = i_can_detach name"
| "dispatch_instance_action sys (ICanLoadDbc name path) = i_can_load_dbc sys name path"
| "dispatch_instance_action sys ISharedList = i_shared_list"
| "dispatch_instance_action sys (ISharedAttach name path writer session) =
     i_shared_attach sys name path writer session"
| "dispatch_instance_action sys (ISharedGet name) = i_shared_get sys name"
| "dispatch_instance_action sys (ICanSend name arb data_hex flags) =
     i_can_send sys name arb data_hex flags"
| "dispatch_instance_action sys IInstanceStatus = i_instance_status"
| "dispatch_instance_action sys IInstanceList = i_instance_list sys"
| "dispatch_instance_action sys IClose = i_close"

section \<open>Actions of an environment's worker\<close>

definition w_can_buses :: "('w, response_data) dact" where
  "w_can_buses = a_get (\<lambda>s. CanBuses (map (can_bus_row None) (p_can_buses (dm_project s))))"

definition w_step :: "'w daemon_sys \<Rightarrow> ('w, response_data) dact" where
  "w_step sys =
     a_bind (a_map_err fst (advance_single_project_tick sys)) (\<lambda>_.
     a_bind (a_mod count_tick) (\<lambda>_. a_ret Ack))"

fun dispatch_worker_action :: "'w daemon_sys \<Rightarrow> worker_action \<Rightarrow> ('w, response_data) dact" where
  "dispatch_worker_action sys WCanBuses = w_can_buses"
| "dispatch_worker_action sys (WCanAttach name iface) =
     a_bind (attach_can_bus sys name iface) (\<lambda>_. a_ret Ack)"
| "dispatch_worker_action sys (WReadSignals ids) =
     a_bind (read_signal_values_by_ids ids) (\<lambda>vals. a_ret (WorkerSignalValues vals))"
| "dispatch_worker_action sys WCanDiscardPendingRx =
     a_bind (discard_can_rx sys) (\<lambda>_. a_ret Ack)"
| "dispatch_worker_action sys WStep = w_step sys"

definition dispatch_action :: "'w daemon_sys \<Rightarrow> request_action \<Rightarrow> ('w, response_data) dact" where
  "dispatch_action sys action = (case action of
      RInstance a \<Rightarrow> dispatch_instance_action sys a
    | RWorker a \<Rightarrow> dispatch_worker_action sys a
    | REnv _ \<Rightarrow> a_fail DEnvAction)"

definition handle_action ::
    "'w daemon_sys \<Rightarrow> request \<Rightarrow> 'w daemon \<Rightarrow> daemon_error response \<times> 'w daemon" where
  "handle_action sys rq s = (case dispatch_action sys (rq_action rq) s of
      (Inr d, s') \<Rightarrow> (response_ok (rq_id rq) d, s')
    | (Inl e, s') \<Rightarrow> (response_err (rq_id rq) e, s'))"

section \<open>The task loop\<close>

definition MAX_NORMAL_ACTIONS_PER_TURN :: nat where "MAX_NORMAL_ACTIONS_PER_TURN = 16"
definition MAX_WORKER_ACTIONS_PER_TURN :: nat where "MAX_WORKER_ACTIONS_PER_TURN = 64"
definition MAX_REALTIME_TICKS_PER_TURN :: u64 where "MAX_REALTIME_TICKS_PER_TURN = 64"

fun process_action_batch ::
    "'w daemon_sys \<Rightarrow> nat \<Rightarrow> request list \<Rightarrow> 'w daemon \<Rightarrow>
     daemon_error response list \<times> request list \<times> 'w daemon" where
  \<comment> \<open>The responses sent, what is left of the queue, and the state.\<close>
  "process_action_batch sys 0 queue s = ([], queue, s)"
| "process_action_batch sys (Suc n) [] s = ([], [], s)"
| "process_action_batch sys (Suc n) (rq # queue) s =
     (case handle_action sys rq s of (rsp, s') \<Rightarrow>
        if dm_shutdown s' then ([rsp], queue, s')
        else case process_action_batch sys n queue s' of (rsps, rest, s'') \<Rightarrow> (rsp # rsps, rest, s''))"

definition poll_backlog :: "'w daemon_sys \<Rightarrow> 'w daemon \<Rightarrow> 'w daemon" where
  "poll_backlog sys s =
     (case sys_now sys (dm_world s) of (now, w) \<Rightarrow>
      case tick_realtime_due (tick_us s) now (dm_time s) of (due, e) \<Rightarrow>
        s\<lparr>dm_world := w, dm_time := e, dm_backlog := sat_add (dm_backlog s) due\<rparr>)"

definition run_backlog :: "'w daemon_sys \<Rightarrow> 'w daemon \<Rightarrow> 'w daemon" where
  "run_backlog sys s =
     (let tick_batch = min (dm_backlog s) MAX_REALTIME_TICKS_PER_TURN in
      case advance_project_ticks sys (unat tick_batch) s of
        (Inl _, s') \<Rightarrow> s'\<lparr>dm_shutdown := True\<rparr>
      | (Inr _, s') \<Rightarrow> s'\<lparr>dm_backlog := sat_sub (dm_backlog s') tick_batch\<rparr>)"

datatype turn_end = Stop | Yield | Wait u64  \<comment> \<open>wait for a message or so many microseconds\<close>

definition tick_turn ::
    "'w daemon_sys \<Rightarrow> request list \<Rightarrow> request list \<Rightarrow> 'w daemon \<Rightarrow>
     turn_end \<times> daemon_error response list \<times> request list \<times> request list \<times> 'w daemon" where
  \<comment> \<open>One pass of \<open>run_tick_task\<close> up to its \<open>select\<close>: worker queue, normal queue.\<close>
  "tick_turn sys workers normals s0 =
     (case process_action_batch sys MAX_WORKER_ACTIONS_PER_TURN workers s0 of (r1, workers', s1) \<Rightarrow>
      case process_action_batch sys MAX_NORMAL_ACTIONS_PER_TURN normals s1 of (r2, normals', s2) \<Rightarrow>
        if dm_shutdown s2 then (Stop, r1 @ r2, workers', normals', s2)
        else let s3 = run_backlog sys (poll_backlog sys s2) in
          (if dm_shutdown s3 then Stop
           else if 0 < dm_backlog s3 then Yield
           else Wait (realtime_poll_delay (tick_us s3) (dm_time s3)),
           r1 @ r2, workers', normals', s3))"

end
