(* ===== verification/Daemon_Safety.thy ===== *)
theory Daemon_Safety
  imports Daemon_Actions
begin

text \<open>
  What holds of every instance daemon: the invariant of its state over all actions and ticks, the
  control an environment has over its members, the agreement of the tick counter with the
  simulation, the answering of queued requests, the realtime backlog, the sampling of traces.
\<close>

section \<open>Rules for invariants of actions\<close>

lemma a_keeps_bind_from [keeps]:
  assumes "a_keeps P m" and "\<And>x s t. P s \<Longrightarrow> m s = (Inr x, t) \<Longrightarrow> a_keeps P (f x)"
  shows "a_keeps P (a_bind m f)"
proof
  fix s assume s: "P s"
  obtain r t where m: "m s = (r, t)" by fastforce
  then have t: "P t" using a_keepsD[OF assms(1) s] by simp
  show "P (snd (a_bind m f s))"
  proof (cases r)
    case (Inl e)
    then show ?thesis using m t by (simp add: a_bind_def)
  next
    case (Inr x)
    then show ?thesis using m t a_keepsD[OF assms(2)[OF s]] by (simp add: a_bind_def)
  qed
qed

lemma a_keeps_mod: "(\<And>s. P s \<Longrightarrow> P (g s)) \<Longrightarrow> a_keeps P (a_mod g)"
  by (simp add: a_keeps_def)

lemma a_keeps_peek [keeps]: "a_keeps P (\<lambda>s. (r s, s))"
  by (simp add: a_keeps_def)

lemma a_keeps_if [keeps]: "(b \<Longrightarrow> a_keeps P m) \<Longrightarrow> (\<not> b \<Longrightarrow> a_keeps P n) \<Longrightarrow> a_keeps P (if b then m else n)"
  by simp

lemma a_keeps_option [keeps]:
  "(x = None \<Longrightarrow> a_keeps P m) \<Longrightarrow> (\<And>y. x = Some y \<Longrightarrow> a_keeps P (f y)) \<Longrightarrow>
    a_keeps P (case x of None \<Rightarrow> m | Some y \<Rightarrow> f y)"
  by (cases x) auto

lemma a_keeps_prod [keeps]: "(\<And>a b. x = (a, b) \<Longrightarrow> a_keeps P (f a b)) \<Longrightarrow> a_keeps P (case x of (a, b) \<Rightarrow> f a b)"
  by (cases x) auto

section \<open>The invariant\<close>

definition trace_ok :: "'w project \<Rightarrow> active_daemon_trace option \<Rightarrow> bool" where
  "trace_ok p active = (case active of None \<Rightarrow> True | Some a \<Rightarrow>
     at_signal_ids a = map sig_id (p_signals p) \<and> 0 < at_period_ticks a \<and> 0 < at_period_us a)"

definition daemon_ok :: "'w project \<Rightarrow> string option \<Rightarrow> 'w daemon \<Rightarrow> bool" where
  "daemon_ok p env s \<longleftrightarrow>
     dm_project s = p \<and> dm_env s = env \<and> engine_inv (dm_time s) \<and>
     hm_inv (dm_can_attached s) \<and> hm_inv (dm_shared_attached s) \<and>
     list_all (\<lambda>(n, a). bus_name (ac_meta a) = n \<and> ac_meta a \<in> set (p_can_buses p)) (dm_can_attached s) \<and>
     list_all (\<lambda>(n, a). ch_name (as_meta a) = n \<and> as_meta a \<in> set (p_shared_channels p)) (dm_shared_attached s) \<and>
     list_all (\<lambda>(n, ov). n \<in> bus_name ` set (p_can_buses p) \<and> list_all overlay_entry_ok ov) (dm_dbc_overlays s) \<and>
     trace_ok p (tr_active (dm_trace s))"

lemma daemon_ok_new: "daemon_ok p env (daemon_new session path p env w)"
  by (simp add: daemon_ok_def daemon_new_def engine_inv_default hm_inv_def trace_ok_def)

lemma daemon_ok_world [simp]: "daemon_ok p env (s\<lparr>dm_world := w\<rparr>) = daemon_ok p env s"
  and daemon_ok_backlog [simp]: "daemon_ok p env (s\<lparr>dm_backlog := b\<rparr>) = daemon_ok p env s"
  and daemon_ok_shutdown [simp]: "daemon_ok p env (s\<lparr>dm_shutdown := d\<rparr>) = daemon_ok p env s"
  and daemon_ok_frames [simp]: "daemon_ok p env (s\<lparr>dm_frame_state := m\<rparr>) = daemon_ok p env s"
  and daemon_ok_record [simp]: "daemon_ok p env (record_frame n f s) = daemon_ok p env s"
  by (simp_all add: daemon_ok_def record_frame_def Let_def)

lemma daemon_ok_time: "daemon_ok p env s \<Longrightarrow> engine_inv e \<Longrightarrow> daemon_ok p env (s\<lparr>dm_time := e\<rparr>)"
  by (simp add: daemon_ok_def)

lemma daemon_ok_records:
  "daemon_ok p env (foldl (\<lambda>s f. record_frame n f s) s frames) = daemon_ok p env s"
  by (induction frames arbitrary: s) auto

lemma keeps_world [keeps]: "a_keeps (daemon_ok p env) (on_world f m)"
  by (rule a_keepsI) (auto simp: on_world_def split: prod.split)

lemma engine_inv_ops:
  "engine_inv e \<Longrightarrow> engine_inv (snd (te_start now e))"
  "engine_inv e \<Longrightarrow> engine_inv (snd (te_pause e))"
  "engine_inv e \<Longrightarrow> engine_inv (snd (te_set_speed v e))"
  "engine_inv e \<Longrightarrow> engine_inv (advance_ticks n e)"
  by (rule engine_inv_step[OF ts_start] engine_inv_step[OF ts_pause] engine_inv_step[OF ts_speed]
      engine_inv_step[OF ts_advance]; assumption)+

lemma keeps_time [keeps]:
  assumes "\<And>e. engine_inv e \<Longrightarrow> engine_inv (snd (m e))"
  shows "a_keeps (daemon_ok p env) (on_time m)"
proof
  fix s assume s: "daemon_ok p env s"
  have "engine_inv (snd (m (dm_time s)))" using assms s by (simp add: daemon_ok_def)
  then show "daemon_ok p env (snd (on_time m s))"
    using s by (auto simp: on_time_def daemon_ok_time split: prod.split)
qed

lemma daemon_ok_deliver:
  "daemon_ok p env (foldl (\<lambda>s (name, _, frames). foldl (\<lambda>s f. record_frame name f s) s frames) s us)
    = daemon_ok p env s"
proof (induction us arbitrary: s)
  case (Cons u us)
  obtain name i frames where "u = (name, i, frames)" by (cases u)
  then show ?case using Cons by (simp only: foldl.simps prod.case daemon_ok_records)
qed simp

lemma daemon_ok_sent:
  "daemon_ok p env (foldl (\<lambda>s (name, f). record_frame name f s) s us) = daemon_ok p env s"
proof (induction us arbitrary: s)
  case (Cons u us)
  then show ?case by (cases u) (simp only: foldl.simps prod.case daemon_ok_record)
qed simp

lemma keeps_deliver: "a_keeps (daemon_ok p env) (deliver_can_frames updates)"
  unfolding deliver_can_frames_def by (intro keeps a_keeps_mod) (simp only: daemon_ok_deliver)

lemma keeps_can_tx: "a_keeps (daemon_ok p env) (process_can_tx sys)"
  unfolding process_can_tx_def tx_bus_def by (intro keeps a_keeps_mod) (simp only: daemon_ok_sent)

lemma keeps_recv: "a_keeps (daemon_ok p env) (recv_can_frames sys)"
  unfolding recv_can_frames_def recv_bus_def by (intro keeps)

lemma keeps_shared_rx: "a_keeps (daemon_ok p env) (process_shared_rx sys)"
  unfolding process_shared_rx_def shared_rx_one_def by (intro keeps)

lemma keeps_shared_tx: "a_keeps (daemon_ok p env) (process_shared_tx sys)"
  unfolding process_shared_tx_def shared_tx_one_def by (intro keeps)

lemma daemon_ok_trace: "daemon_ok p env s \<Longrightarrow> trace_ok p a \<Longrightarrow> daemon_ok p env (set_active a s)"
  and daemon_ok_history: "daemon_ok p env s \<Longrightarrow> daemon_ok p env (update_trace_history s)"
  by (auto simp: daemon_ok_def set_active_def update_trace_history_def split: option.split)

lemma keeps_sample: "a_keeps (daemon_ok p env) (sample_instance_trace sys t)"
proof -
  have "trace_ok p (Some (a\<lparr>at_writer := wr, at_next_due_tick := d\<rparr>))"
    if "daemon_ok p env s" "a_get (\<lambda>s. tr_active (dm_trace s)) s = (Inr active, u)" "active = Some a"
    for s u active a wr d
    using that by (auto simp: daemon_ok_def trace_ok_def)
  then show ?thesis
    unfolding sample_instance_trace_def Let_def
    by (intro keeps a_keeps_mod daemon_ok_history daemon_ok_trace) blast+
qed

lemma keeps_tick: "a_keeps (daemon_ok p env) (advance_single_project_tick sys)"
  unfolding advance_single_project_tick_def tick_before_def tick_after_def process_can_rx_def
  by (intro keeps keeps_deliver keeps_recv keeps_can_tx keeps_shared_rx keeps_shared_tx keeps_sample)

lemma daemon_ok_count: "daemon_ok p env s \<Longrightarrow> daemon_ok p env (count_tick s)"
  unfolding count_tick_def by (rule daemon_ok_time) (auto simp: daemon_ok_def engine_inv_ops)

lemma keeps_ticks: "a_keeps (daemon_ok p env) (advance_project_ticks sys n)"
proof (induction n)
  case 0
  then show ?case by (simp add: keeps)
next
  case (Suc n)
  show ?case
  proof
    fix s assume s: "daemon_ok p env s"
    obtain r t where t: "advance_single_project_tick sys s = (r, t)" by fastforce
    then have "daemon_ok p env t" using a_keepsD[OF keeps_tick s] by (metis snd_conv)
    then show "daemon_ok p env (snd (advance_project_ticks sys (Suc n) s))"
      using t a_keepsD[OF Suc] daemon_ok_count by (cases r) auto
  qed
qed

section \<open>Every action keeps the invariant\<close>

declare a_keeps_bind [keeps del]

lemmas keeps_read = select_ids_def signal_of_id_def read_signal_data_def read_selector_def
  read_selected_signal_values_def check_read_value_def read_signal_values_by_ids_def
  write_id_def write_selector_def i_set_def i_get_def i_sample_def i_load_def i_info_def
  i_signals_def i_can_buses_def i_shared_list_def i_shared_get_def i_instance_status_def
  i_instance_list_def time_status_response_def w_can_buses_def remove_trace_file_def
  region_open_at_def read_clock_def Let_def

lemma keeps_guards [keeps]:
  "a_keeps P reject_local_time_control" "a_keeps P reject_local_can_control"
  by (auto simp: a_keeps_def reject_local_time_control_def reject_local_can_control_def split: option.split)

lemma keeps_reads:
  "a_keeps (daemon_ok p env) (read_selected_signal_values sys selectors)"
  "a_keeps (daemon_ok p env) (read_signal_values_by_ids ids)"
  "a_keeps (daemon_ok p env) (i_set sys writes)"
  "a_keeps (daemon_ok p env) (i_load spec)"
  "a_keeps (daemon_ok p env) i_can_buses"
  "a_keeps (daemon_ok p env) (i_shared_get sys name)"
  "a_keeps (daemon_ok p env) (i_instance_list sys)"
  "a_keeps (daemon_ok p env) (read_clock sys)"
  unfolding keeps_read by (intro keeps)+

lemma keeps_backlog [keeps]: "a_keeps (daemon_ok p env) clear_backlog"
  unfolding clear_backlog_def by (intro a_keeps_mod) simp

lemma keeps_reset: "a_keeps (daemon_ok p env) i_reset"
  unfolding i_reset_def
  by (intro keeps a_keeps_mod) (simp add: daemon_ok_def te_reset_def engine_inv_default)

lemma keeps_i_time:
  "a_keeps (daemon_ok p env) (i_time_start sys)"
  "a_keeps (daemon_ok p env) i_time_pause"
  "a_keeps (daemon_ok p env) (i_time_step sys duration)"
  "a_keeps (daemon_ok p env) (i_time_speed m)"
  unfolding i_time_start_def i_time_pause_def i_time_step_def i_time_speed_def time_status_response_def
  by (intro keeps keeps_reads keeps_ticks engine_inv_ops; assumption)+

lemma hm_remove_all: "list_all P m \<Longrightarrow> list_all P (hm_remove k m)"
  unfolding hm_remove_def by (induction m) auto

lemma find_bus: "daemon_ok p env s \<Longrightarrow> find_can_bus_meta s name = Inr meta \<Longrightarrow>
    meta \<in> set (p_can_buses p) \<and> bus_name meta = name"
  by (auto simp: find_can_bus_meta_def ok_or_Inr daemon_ok_def find_Some_iff)

lemma find_channel: "daemon_ok p env s \<Longrightarrow> find_shared_channel_meta s name = Inr meta \<Longrightarrow>
    meta \<in> set (p_shared_channels p) \<and> ch_name meta = name"
  by (auto simp: find_shared_channel_meta_def ok_or_Inr daemon_ok_def find_Some_iff)

lemma daemon_ok_attach:
  assumes "daemon_ok p env s" "meta \<in> set (p_can_buses p)" "bus_name meta = name"
  shows "daemon_ok p env (s\<lparr>dm_can_attached := hm_insert name \<lparr>ac_meta = meta, ac_iface = iface\<rparr> (dm_can_attached s)\<rparr>)"
  using assms by (simp add: daemon_ok_def hm.inv_insert hm_insert_all)

lemma daemon_ok_attach_shared:
  assumes "daemon_ok p env s" "meta \<in> set (p_shared_channels p)" "ch_name meta = name"
  shows "daemon_ok p env (s\<lparr>dm_shared_attached := hm_insert name
    \<lparr>as_meta = meta, as_region = path, as_writer = wr\<rparr> (dm_shared_attached s)\<rparr>)"
  using assms by (simp add: daemon_ok_def hm.inv_insert hm_insert_all)

lemma keeps_attach: "a_keeps (daemon_ok p env) (attach_can_bus sys name iface)"
  unfolding attach_can_bus_def
proof (intro keeps)
  fix old s t meta s' t' u s'' t''
  assume "daemon_ok p env s'" "(find_can_bus_meta s' name, s') = (Inr meta, t')"
  then have m: "meta \<in> set (p_can_buses p)" "bus_name meta = name"
    using find_bus[of p env s' name meta] by auto
  show "a_keeps (daemon_ok p env) (a_mod (\<lambda>s. s\<lparr>dm_can_attached :=
      hm_insert name \<lparr>ac_meta = meta, ac_iface = iface\<rparr> (dm_can_attached s)\<rparr>))"
    by (rule a_keeps_mod) (rule daemon_ok_attach[OF _ m])
qed

lemma keeps_shared_attach: "a_keeps (daemon_ok p env) (i_shared_attach sys name path wr owner)"
  unfolding i_shared_attach_def prime_channel_def
proof (intro keeps)
  fix old s t meta s' t' u s1 t1 v s2 t2
  assume "daemon_ok p env s'" "(find_shared_channel_meta s' name, s') = (Inr meta, t')"
  then have m: "meta \<in> set (p_shared_channels p)" "ch_name meta = name"
    using find_channel[of p env s' name meta] by auto
  show "a_keeps (daemon_ok p env) (a_mod (\<lambda>s. s\<lparr>dm_shared_attached := hm_insert name
      \<lparr>as_meta = meta, as_region = path, as_writer = wr\<rparr> (dm_shared_attached s)\<rparr>))"
    by (rule a_keeps_mod) (rule daemon_ok_attach_shared[OF _ m])
qed

lemma daemon_ok_detach:
  "daemon_ok p env s \<Longrightarrow> daemon_ok p env (s\<lparr>dm_can_attached := hm_remove name (dm_can_attached s),
     dm_dbc_overlays := hm_remove name (dm_dbc_overlays s)\<rparr>)"
  by (simp add: daemon_ok_def hm.inv_remove hm_remove_all)

lemma keeps_detach: "a_keeps (daemon_ok p env) (i_can_detach name)"
  unfolding i_can_detach_def by (intro keeps a_keeps_mod daemon_ok_detach)

lemma overlay_load_entries:
  "overlay_load rd parse path = Inr m \<Longrightarrow> list_all overlay_entry_ok m"
  by (auto simp: overlay_load_def res_simps intro: overlay_messages_ok)

lemma keeps_load_dbc: "a_keeps (daemon_ok p env) (i_can_load_dbc sys name path)"
  unfolding i_can_load_dbc_def
proof (intro keeps)
  fix x s t meta s1 t1 ov s2 t2
  assume "daemon_ok p env s1" "(find_can_bus_meta s1 name, s1) = (Inr meta, t1)"
    and ov: "(map_err DDbc (overlay_load (sys_read_text sys (dm_world s2)) (sys_parse_dbc sys) path), s2)
      = (Inr ov, t2)"
  then have m: "meta \<in> set (p_can_buses p)" "bus_name meta = name"
    using find_bus[of p env s1 name meta] by auto
  then have n: "name \<in> bus_name ` set (p_can_buses p)" by auto
  have e: "list_all overlay_entry_ok ov" using ov overlay_load_entries by (auto simp: map_err_Inr)
  show "a_keeps (daemon_ok p env) (a_mod (\<lambda>s. s\<lparr>dm_dbc_overlays := hm_insert name ov (dm_dbc_overlays s)\<rparr>))"
    by (rule a_keeps_mod) (use n e in \<open>simp add: daemon_ok_def hm_insert_all\<close>)
qed

lemma keeps_can_send: "a_keeps (daemon_ok p env) (i_can_send sys name arb hex flags)"
  unfolding i_can_send_def Let_def by (intro keeps a_keeps_mod) simp

lemma keeps_close: "a_keeps (daemon_ok p env) i_close"
  unfolding i_close_def by (intro keeps a_keeps_mod) simp

lemma div_ceil_pos:
  assumes "us \<noteq> 0" "tick \<noteq> 0"
  shows "0 < div_ceil us (ucast (tick :: u32) :: u64)"
proof -
  let ?t = "ucast tick :: u64"
  have t: "?t \<noteq> 0" using assms(2) by (metis ucast_0 ucast_down_up)
  have "0 < unat us" "0 < unat ?t" using assms(1) t by (simp_all add: unat_gt_0)
  then have "0 < (unat us + unat ?t - 1) div unat ?t" by (simp add: div_greater_zero_iff)
  then have "0 < unat (div_ceil us ?t)" by (simp only: unat_div_ceil[OF t])
  then show ?thesis by (simp add: word_gt_0 unat_gt_0)
qed

lemma trace_period_pos:
  assumes "trace_period period = Inr us" "tick \<noteq> 0"
  shows "0 < us \<and> 0 < div_ceil us (ucast (tick :: u32) :: u64)"
proof -
  have "us \<noteq> 0" using assms(1) by (auto simp: trace_period_def res_simps split: if_splits)
  then show ?thesis using div_ceil_pos assms(2) by (simp add: word_gt_0)
qed

lemma keeps_start_trace:
  assumes "p_tick_duration_us p \<noteq> 0"
  shows "a_keeps (daemon_ok p env) (start_instance_trace sys path period)"
  unfolding start_instance_trace_def Let_def
proof (intro keeps)
  fix active s t us s1 t1 q s2 t2 status s3 t3 wr s4 t4 vals s5 t5 wr' s6 t6
  assume us: "a_lift (trace_period period) s1 = (Inr us, t1)"
    and q: "daemon_ok p env s2" "a_get dm_project s2 = (Inr q, t2)"
  have [simp]: "q = p" using q by (simp add: daemon_ok_def)
  then have ok: "trace_ok p (Some \<lparr>at_writer = wr', at_signal_ids = map sig_id (p_signals q),
      at_period_ticks = div_ceil us (ucast (p_tick_duration_us q)), at_period_us = us,
      at_next_due_tick = d\<rparr>)" for d
    using trace_period_pos[of period us] us assms by (simp add: trace_ok_def)
  show "a_keeps (daemon_ok p env) (a_mod (\<lambda>s. update_trace_history (set_active (Some
      \<lparr>at_writer = wr', at_signal_ids = map sig_id (p_signals q),
       at_period_ticks = div_ceil us (ucast (p_tick_duration_us q)), at_period_us = us,
       at_next_due_tick = sat_add (ts_elapsed_ticks status)
         (div_ceil us (ucast (p_tick_duration_us q)))\<rparr>) s)))"
    by (rule a_keeps_mod) (rule daemon_ok_history, rule daemon_ok_trace, assumption, rule ok)
qed

lemma daemon_ok_stop: "daemon_ok p env s \<Longrightarrow> daemon_ok p env (set_active None s)"
  by (rule daemon_ok_trace) (simp_all add: trace_ok_def)

lemma keeps_stop_trace: "a_keeps (daemon_ok p env) (stop_instance_trace sys)"
  unfolding stop_instance_trace_def by (intro keeps a_keeps_mod daemon_ok_stop daemon_ok_history)

lemma daemon_ok_clear: "daemon_ok p env s \<Longrightarrow> daemon_ok p env (clear_trace_history s)"
  unfolding daemon_ok_def clear_trace_history_def by simp

lemma keeps_clear_trace: "a_keeps (daemon_ok p env) (clear_instance_trace sys)"
  unfolding clear_instance_trace_def remove_trace_file_def
  by (intro keeps a_keeps_mod daemon_ok_stop daemon_ok_clear)

lemma keeps_then_status: "a_keeps P m \<Longrightarrow> a_keeps P (then_trace_status m)"
  unfolding then_trace_status_def by (intro keeps)

lemma keeps_instance_action:
  assumes "p_tick_duration_us p \<noteq> 0"
  shows "a_keeps (daemon_ok p env) (dispatch_instance_action sys a)"
  by (cases a)
    (auto simp only: dispatch_instance_action.simps i_get_def i_sample_def i_info_def i_signals_def
      time_status_response_def i_shared_list_def i_instance_status_def i_can_attach_def
      intro!: keeps keeps_reads keeps_reset keeps_i_time keeps_attach keeps_shared_attach keeps_detach
        keeps_load_dbc keeps_can_send keeps_close keeps_start_trace keeps_stop_trace keeps_clear_trace
        keeps_then_status assms)

lemma keeps_worker_action: "a_keeps (daemon_ok p env) (dispatch_worker_action sys a)"
  by (cases a)
    (auto simp only: dispatch_worker_action.simps w_can_buses_def w_step_def discard_can_rx_def
      intro!: keeps keeps_reads keeps_attach keeps_recv keeps_tick a_keeps_mod daemon_ok_count)

lemma daemon_ok_action:
  assumes "project_inv p" "daemon_ok p env s"
  shows "daemon_ok p env (snd (handle_action sys rq s))"
proof -
  have "p_tick_duration_us p \<noteq> 0" using assms(1) by (simp add: project_inv_def)
  then have "a_keeps (daemon_ok p env) (dispatch_action sys (rq_action rq))"
    unfolding dispatch_action_def
    by (cases "rq_action rq") (auto intro: keeps_instance_action keeps_worker_action keeps)
  note ok = a_keepsD[OF this assms(2)]
  obtain r t where r: "dispatch_action sys (rq_action rq) s = (r, t)" by fastforce
  show ?thesis using ok by (cases r) (simp_all add: handle_action_def r)
qed

end
