(* ===== verification/Daemon_Progress.thy ===== *)
theory Daemon_Progress
  imports Daemon_Safety
begin

text \<open>
  Progress of an instance daemon: what a batch of requests answers, how many ticks a call runs and
  counts, how the realtime backlog is worked off, when a trace takes a row.
\<close>

section \<open>What a tick leaves alone\<close>

text \<open>
  \<open>only_tick_counts\<close> says that \<open>cnt\<close> counts the successful calls of \<open>sim_tick\<close>: no other call of
  the library, the kernel or the file system changes it (\<open>quiet_world\<close>).
\<close>

definition stays :: "('w \<Rightarrow> nat) \<Rightarrow> ('w \<Rightarrow> 'a \<times> 'w) \<Rightarrow> bool" where
  "stays cnt f = (\<forall>w. cnt (snd (f w)) = cnt w)"

definition quiet_world :: "'w daemon_sys \<Rightarrow> 'w project \<Rightarrow> ('w \<Rightarrow> nat) \<Rightarrow> bool" where
  "quiet_world sys p cnt \<longleftrightarrow>
     (\<forall>iface. stays cnt (sys_can_recv sys iface)) \<and>
     (\<forall>iface f. stays cnt (sys_can_send sys iface f)) \<and>
     (\<forall>path region w. cnt (sys_region_store sys path region w) = cnt w) \<and>
     (\<forall>path t. stays cnt (fs_write (sys_files sys) path t)) \<and>
     (\<forall>api. can_api p = Some api \<longrightarrow>
       (\<forall>bus frames. stays cnt (sim_can_rx api bus frames)) \<and>
       (\<forall>bus buf n. stays cnt (sim_can_tx api bus buf n))) \<and>
     (\<forall>api. shared_api p = Some api \<longrightarrow>
       (\<forall>ch slots. stays cnt (sim_shared_read api ch slots)) \<and>
       (\<forall>ch buf n. stays cnt (sim_shared_write api ch buf n))) \<and>
     (\<forall>i raw. stays cnt (sim_read_val p i raw)) \<and>
     (\<forall>f ids raws. sim_read_vals p = Some f \<longrightarrow> stays cnt (f ids raws))"

definition only_tick_counts :: "'w daemon_sys \<Rightarrow> 'w project \<Rightarrow> ('w \<Rightarrow> nat) \<Rightarrow> bool" where
  "only_tick_counts sys p cnt \<longleftrightarrow> quiet_world sys p cnt \<and>
     (\<forall>w. cnt (snd (sim_tick p w)) = cnt w + (if fst (sim_tick p w) = STATUS_OK then 1 else 0))"

lemma quiet_trivial: "quiet_world sys p (\<lambda>_. 0)"
  by (simp add: quiet_world_def stays_def)

definition steady :: "'w project \<Rightarrow> ('w \<Rightarrow> nat) \<Rightarrow> time_engine \<Rightarrow> u64 \<Rightarrow> nat \<Rightarrow> 'w daemon \<Rightarrow> bool" where
  "steady p cnt e b c s \<longleftrightarrow> dm_project s = p \<and> dm_time s = e \<and> dm_backlog s = b \<and> cnt (dm_world s) = c"

lemma stays_call: "stays cnt f \<Longrightarrow> a_keeps (\<lambda>w. cnt w = c) (\<lambda>w. case f w of (r, w') \<Rightarrow> (g r, w'))"
  by (auto simp: a_keeps_def stays_def split: prod.split) (metis snd_conv)

lemma stays_io: "stays cnt f \<Longrightarrow> a_keeps (\<lambda>w. cnt w = c) (io_step f e)"
  unfolding io_step_def by (rule stays_call)

lemma steady_world: "a_keeps (\<lambda>w. cnt w = c) m \<Longrightarrow> a_keeps (steady p cnt e b c) (on_world f m)"
  by (auto simp: a_keeps_def on_world_def steady_def split: prod.split)

lemma steady_project:
  "a_keeps (steady p cnt e b c) (f p) \<Longrightarrow> a_keeps (steady p cnt e b c) (a_bind (a_get dm_project) f)"
  by (simp add: a_keeps_def steady_def)

definition core :: "'w daemon \<Rightarrow> 'w project \<times> time_engine \<times> u64 \<times> 'w" where
  "core s = (dm_project s, dm_time s, dm_backlog s, dm_world s)"

lemma steady_mod: "(\<And>s. core (g s) = core s) \<Longrightarrow> a_keeps (steady p cnt e b c) (a_mod g)"
  by (auto simp: a_keeps_def steady_def core_def)

lemma core_record: "core (record_frame n f s) = core s"
  by (simp add: record_frame_def Let_def core_def)

lemma core_sent: "core (foldl (\<lambda>s (n, f). record_frame n f s) s us) = core s"
  by (induction us arbitrary: s) (auto simp: core_record)

lemma core_got: "core (foldl (\<lambda>s f. record_frame n f s) s fs) = core s"
  by (induction fs arbitrary: s) (auto simp: core_record)

lemma core_delivered:
  "core (foldl (\<lambda>s (n, _, fs). foldl (\<lambda>s f. record_frame n f s) s fs) s (us :: received list)) = core s"
  by (induction us arbitrary: s) (auto simp: core_got)

lemma core_sampled: "core (update_trace_history (set_active a s)) = core s"
  by (simp add: update_trace_history_def set_active_def core_def split: option.split)

lemma stays_can_tx:
  assumes "\<And>buf n. stays cnt (f buf n)"
  shows "cnt (snd (can_tx_loop f out capacity w)) = cnt w"
  using assms
proof (induction f out capacity w rule: can_tx_loop.induct)
  case (1 f out capacity w)
  obtain st raw written w' where call:
    "f (replicate (unat capacity) can_frame_raw_blank) capacity w = ((st, raw, written), w')"
    by (metis prod.collapse)
  then have w': "cnt w' = cnt w" using "1.prems" unfolding stays_def by (metis snd_conv)
  show ?case
  proof (cases "st = STATUS_BUFFER_TOO_SMALL")
    case True
    show ?thesis
      using "1.IH"[OF call[symmetric] refl refl _ _ refl True _ "1.prems"] w' True
      by (subst can_tx_loop.simps)
        (auto simp: call Let_def status_defs split: sum.split)
  next
    case False
    then show ?thesis using w' by (subst can_tx_loop.simps) (auto simp: call Let_def split: sum.split)
  qed
qed

text \<open>The calls a tick makes.\<close>

lemma quiet_calls:
  assumes q: "quiet_world sys p cnt"
  shows "a_keeps (\<lambda>w. cnt w = c) (socket_recv sys iface)"
    and "a_keeps (\<lambda>w. cnt w = c) (socket_send sys iface f)"
    and "a_keeps (\<lambda>w. cnt w = c) (can_rx p bus frames)"
    and "a_keeps (\<lambda>w. cnt w = c) (can_tx p bus)"
    and "a_keeps (\<lambda>w. cnt w = c) (region_publish sys path slots)"
    and "a_keeps (\<lambda>w. cnt w = c) (region_snapshot sys path)"
proof -
  note [simp] = a_keeps_def stays_def
  show "a_keeps (\<lambda>w. cnt w = c) (socket_recv sys iface)"
    using q by (auto simp: quiet_world_def socket_recv_def split: prod.split) (metis snd_conv)
  show "a_keeps (\<lambda>w. cnt w = c) (socket_send sys iface f)"
    using q by (auto simp: quiet_world_def socket_send_def send_frame_def split: prod.split)
      (metis snd_conv)
  show "a_keeps (\<lambda>w. cnt w = c) (can_rx p bus frames)"
    using q by (auto simp: quiet_world_def can_rx_def split: prod.split option.split)
      (metis snd_conv)
  show "a_keeps (\<lambda>w. cnt w = c) (can_tx p bus)"
    using q by (auto simp: quiet_world_def can_tx_def stays_can_tx split: option.split)
  show "a_keeps (\<lambda>w. cnt w = c) (region_publish sys path slots)"
    using q by (auto simp: quiet_world_def region_publish_def split: prod.split)
  show "a_keeps (\<lambda>w. cnt w = c) (region_snapshot sys path)"
    by (simp add: region_snapshot_def)
qed

lemma quiet_shared:
  assumes q: "quiet_world sys p cnt"
  shows "a_keeps (\<lambda>w. cnt w = c) (shared_read p ch slots)"
    and "a_keeps (\<lambda>w. cnt w = c) (shared_write p ch)"
proof -
  show "a_keeps (\<lambda>w. cnt w = c) (shared_read p ch slots)"
  proof (cases "shared_api p")
    case (Some api)
    then have "stays cnt (sim_shared_read api ch raw)" for raw using q by (simp add: quiet_world_def)
    from stays_call[OF this] Some show ?thesis
      unfolding shared_read_def by (simp del: not_None_eq) (intro keeps)
  qed (simp add: shared_read_def keeps)
  show "a_keeps (\<lambda>w. cnt w = c) (shared_write p ch)"
  proof (cases "shared_api p")
    case (Some api)
    then have "stays cnt (sim_shared_write api ch buf n)" for buf n using q by (simp add: quiet_world_def)
    from stays_call[OF this] Some show ?thesis
      unfolding shared_write_def Let_def by (simp del: not_None_eq) (intro keeps)
  qed (simp add: shared_write_def keeps)
qed

lemma quiet_reads:
  assumes q: "quiet_world sys p cnt"
  shows "a_keeps (\<lambda>w. cnt w = c) (read_many p ids)"
    and "a_keeps (\<lambda>w. cnt w = c) (csv_write_row (sys_files sys) wr t us vals)"
proof -
  have one: "stays cnt (sim_read_val p i raw)" for i raw using q by (simp add: quiet_world_def)
  have one': "a_keeps (\<lambda>w. cnt w = c) (read_one p s)" for s
    unfolding read_one_def a_keeps_def using one[unfolded stays_def, rule_format, of "sig_id s" value_raw_blank]
    by (auto split: prod.split) (metis snd_conv)
  have many: "stays cnt (f is raws)" if "sim_read_vals p = Some f" for f "is" raws
    using q that by (simp add: quiet_world_def)
  show "a_keeps (\<lambda>w. cnt w = c) (read_many p ids)"
  proof (cases "sim_read_vals p")
    case None
    then show ?thesis unfolding read_many_def by (auto intro!: keeps one')
  next
    case (Some f)
    show ?thesis
      using many[OF Some, of ids "replicate (length ids) value_raw_blank"] Some
      by (auto simp: read_many_def a_keeps_def stays_def split: prod.split) (metis snd_conv)
  qed
  have put: "a_keeps (\<lambda>w. cnt w = c) (io_step (fs_write (sys_files sys) path t) e)" for path t e
    using q by (intro stays_io) (simp add: quiet_world_def)
  show "a_keeps (\<lambda>w. cnt w = c) (csv_write_row (sys_files sys) wr t us vals)"
    unfolding csv_write_row_def Let_def by (intro keeps put)
qed

section \<open>Ticks run and ticks counted\<close>

lemma steady_channels:
  assumes q: "quiet_world sys p cnt"
  shows "a_keeps (steady p cnt e b c) (process_can_rx sys)"
    and "a_keeps (steady p cnt e b c) (process_can_tx sys)"
    and "a_keeps (steady p cnt e b c) (process_shared_rx sys)"
    and "a_keeps (steady p cnt e b c) (process_shared_tx sys)"
    and "a_keeps (steady p cnt e b c) (sample_instance_trace sys t)"
proof -
  note world = quiet_calls[OF q, THEN steady_world] quiet_shared[OF q, THEN steady_world]
    quiet_reads[OF q, THEN steady_world]
  note steps = steady_project world a_keeps_prim a_keeps_bind a_keeps_for a_keeps_mapM
    a_keeps_if a_keeps_option a_keeps_prod steady_mod core_delivered core_sent core_sampled
  show "a_keeps (steady p cnt e b c) (process_can_rx sys)"
    unfolding process_can_rx_def recv_can_frames_def recv_bus_def deliver_can_frames_def
    by (rule steps)+
  show "a_keeps (steady p cnt e b c) (process_can_tx sys)"
    unfolding process_can_tx_def tx_bus_def by (rule steps)+
  show "a_keeps (steady p cnt e b c) (process_shared_rx sys)"
    unfolding process_shared_rx_def shared_rx_one_def by (rule steps)+
  show "a_keeps (steady p cnt e b c) (process_shared_tx sys)"
    unfolding process_shared_tx_def shared_tx_one_def by (rule steps)+
  show "a_keeps (steady p cnt e b c) (sample_instance_trace sys t)"
    unfolding sample_instance_trace_def Let_def by (rule steps)+
qed

lemma tick_before_counts:
  assumes q: "only_tick_counts sys p cnt" and s: "steady p cnt e b c s"
    and r: "tick_before sys s = (r, t)"
  shows "steady p cnt e b (case r of Inl _ \<Rightarrow> c | Inr _ \<Rightarrow> c + 1) t"
proof -
  have qw: "quiet_world sys p cnt" using q by (simp add: only_tick_counts_def)
  let ?rx = "a_bind (process_can_rx sys) (\<lambda>_. process_shared_rx sys)"
  have rx: "a_keeps (steady p cnt e b c) ?rx" by (intro a_keeps_bind steady_channels[OF qw])
  have split: "tick_before sys = a_bind ?rx (\<lambda>_. a_bind (a_get dm_project) (\<lambda>p. on_world DSim (project_tick p)))"
    unfolding tick_before_def by (rule ext) (simp add: a_bind_def split: prod.split sum.split)
  obtain r1 s1 where 1: "?rx s = (r1, s1)" by fastforce
  have s1: "steady p cnt e b c s1" using a_keepsD[OF rx s] 1 by simp
  show ?thesis
  proof (cases r1)
    case (Inl x)
    with 1 have "?rx s = (Inl x, s1)" by simp
    then have "tick_before sys s = (Inl x, s1)" unfolding split by (rule a_bind_eval(1))
    then show ?thesis using r s1 by simp
  next
    case (Inr u)
    obtain st w where st: "sim_tick p (dm_world s1) = (st, w)" by fastforce
    then have cnt: "cnt w = cnt (dm_world s1) + (if st = STATUS_OK then 1 else 0)"
      using q unfolding only_tick_counts_def by (metis fst_conv snd_conv)
    have "tick_before sys s = (map_err DSim (map_status st None None), s1\<lparr>dm_world := w\<rparr>)"
      unfolding split using 1 Inr s1 st
      by (simp add: a_bind_eval(2)[of _ s u s1] steady_def on_world_def project_tick_def)
    then have rt: "r = map_err DSim (map_status st None None)" "t = s1\<lparr>dm_world := w\<rparr>" using r by auto
    show ?thesis
    proof (cases "st = STATUS_OK")
      case True
      then have "r = Inr ()" using rt(1) by (simp add: map_status_def Let_def)
      then show ?thesis using s1 cnt True rt(2) by (simp add: steady_def)
    next
      case False
      then obtain e' where "map_status st None None = Inl e'"
        using map_status_ok[of st None None] by (cases "map_status st None None") auto
      then show ?thesis using s1 cnt False rt by (simp add: steady_def)
    qed
  qed
qed

lemma tick_counts:
  assumes q: "only_tick_counts sys p cnt" and s: "steady p cnt e b c s"
    and r: "advance_single_project_tick sys s = (r, t)"
  shows "steady p cnt e b (case r of Inl (_, adv) \<Rightarrow> if adv then c + 1 else c | Inr _ \<Rightarrow> c + 1) t"
proof -
  obtain r1 s1 where 1: "tick_before sys s = (r1, s1)" by fastforce
  note b = tick_before_counts[OF q s 1]
  show ?thesis
  proof (cases r1)
    case (Inl x)
    then show ?thesis using r 1 b
      by (auto simp: advance_single_project_tick_def a_bind_def a_map_err_def pre_tick_def)
  next
    case (Inr u)
    have "a_keeps (steady p cnt e b (c + 1)) (tick_after sys)"
      unfolding tick_after_def using q[unfolded only_tick_counts_def, THEN conjunct1]
      by (intro a_keeps_bind a_keeps_prim steady_channels)
    note k = a_keepsD[OF this]
    obtain r2 s2 where 2: "tick_after sys s1 = (r2, s2)" by fastforce
    have "steady p cnt e b (c + 1) s2" using k[of s1] b Inr 2 by simp
    then show ?thesis using r 1 2 Inr
      by (cases r2) (auto simp: advance_single_project_tick_def a_bind_def a_map_err_def post_tick_def)
  qed
qed

lemma ticks_count:
  assumes q: "only_tick_counts sys p cnt"
  shows "steady p cnt e b c s \<Longrightarrow> advance_project_ticks sys n s = (r, t) \<Longrightarrow>
    \<exists>k \<le> n. steady p cnt ((advance_ticks 1 ^^ k) e) b (c + k) t \<and> (is_ok r \<longrightarrow> k = n)"
proof (induction n arbitrary: s e c)
  case 0
  then show ?case by auto
next
  case (Suc n)
  obtain r1 s1 where 1: "advance_single_project_tick sys s = (r1, s1)" by fastforce
  note step = tick_counts[OF q Suc.prems(1) 1]
  have counted: "steady p cnt (advance_ticks 1 e) b (c + 1) (count_tick s1)"
    if "steady p cnt e b (c + 1) s1" using that by (simp add: steady_def count_tick_def)
  show ?case
  proof (cases r1)
    case (Inl x)
    obtain e' adv where "x = (e', adv)" by (cases x)
    then show ?thesis
      using Suc.prems(2) 1 step counted Inl by (cases adv) (auto intro: exI[of _ 0] exI[of _ 1])
  next
    case (Inr u)
    then have "advance_project_ticks sys n (count_tick s1) = (r, t)" using Suc.prems(2) 1 by simp
    from Suc.IH[OF counted this] step Inr obtain k where
      "k \<le> n" "steady p cnt ((advance_ticks 1 ^^ k) (advance_ticks 1 e)) b (c + 1 + k) t" "is_ok r \<longrightarrow> k = n"
      by auto
    then show ?thesis by (intro exI[of _ "Suc k"]) (simp add: funpow_swap1)
  qed
qed

section \<open>Reachable daemons\<close>

text \<open>
  What happens to a daemon: a request is handled, due ticks are added to the backlog, a part of the
  backlog is run, the world around it moves on.
\<close>

inductive daemon_step :: "'w daemon_sys \<Rightarrow> 'w daemon \<Rightarrow> 'w daemon \<Rightarrow> bool" for sys where
  ds_action: "daemon_step sys s (snd (handle_action sys rq s))"
| ds_poll: "daemon_step sys s (poll_backlog sys s)"
| ds_run: "daemon_step sys s (run_backlog sys s)"
| ds_world: "daemon_step sys s (s\<lparr>dm_world := w\<rparr>)"

inductive_cases daemon_stepE: "daemon_step sys s t"

lemma daemon_ok_poll:
  assumes "daemon_ok p env s"
  shows "daemon_ok p env (poll_backlog sys s)"
proof -
  obtain now w where now: "sys_now sys (dm_world s) = (now, w)" by fastforce
  obtain due e where due: "tick_realtime_due (tick_us s) now (dm_time s) = (due, e)" by fastforce
  have "engine_inv e" using engine_inv_due[of "dm_time s" "tick_us s" now] assms due
    by (simp add: daemon_ok_def)
  then show ?thesis using assms by (simp add: poll_backlog_def now due daemon_ok_def)
qed

lemma daemon_ok_run:
  assumes "daemon_ok p env s"
  shows "daemon_ok p env (run_backlog sys s)"
proof -
  let ?n = "unat (min (dm_backlog s) MAX_REALTIME_TICKS_PER_TURN)"
  obtain r t where r: "advance_project_ticks sys ?n s = (r, t)" by fastforce
  have "daemon_ok p env t" using a_keepsD[OF keeps_ticks assms, of sys ?n] r by simp
  then show ?thesis by (cases r) (simp_all add: run_backlog_def Let_def r)
qed

lemma daemon_step_ok:
  assumes "project_inv p" "daemon_step sys s t" "daemon_ok p env s"
  shows "daemon_ok p env t"
  using assms(2,3)
  by (cases rule: daemon_step.cases)
    (auto simp only: daemon_ok_world intro: daemon_ok_action[OF assms(1)] daemon_ok_poll daemon_ok_run)

section \<open>The backlog\<close>

lemma tick_keeps_backlog: "a_keeps (steady p (\<lambda>_. 0) e b 0) (advance_single_project_tick sys)"
proof -
  have "a_keeps (steady p (\<lambda>_. 0) e b 0) (on_world DSim (project_tick p))"
    by (rule steady_world) (simp add: a_keeps_def)
  then show ?thesis
    unfolding advance_single_project_tick_def tick_before_def tick_after_def
    by (intro a_keeps_bind a_keeps_map_err a_keeps_prim steady_project
        steady_channels[OF quiet_trivial])
qed

lemma ticks_keep_backlog: "dm_backlog (snd (advance_project_ticks sys n s)) = dm_backlog s"
proof (induction n arbitrary: s)
  case (Suc n)
  obtain r t where r: "advance_single_project_tick sys s = (r, t)" by fastforce
  have "steady (dm_project s) (\<lambda>_. 0) (dm_time s) (dm_backlog s) 0 s" by (simp add: steady_def)
  from a_keepsD[OF tick_keeps_backlog this, of sys] r have "dm_backlog t = dm_backlog s"
    by (simp add: steady_def)
  then show ?case using r Suc[of "count_tick t"] by (cases r) (auto simp: count_tick_def)
qed simp

lemma run_backlog_step:
  "dm_shutdown (run_backlog sys s) \<or>
     unat (dm_backlog (run_backlog sys s)) = unat (dm_backlog s) - 64"
proof -
  let ?n = "unat (min (dm_backlog s) MAX_REALTIME_TICKS_PER_TURN)"
  obtain r t where r: "advance_project_ticks sys ?n s = (r, t)" by fastforce
  have b: "dm_backlog t = dm_backlog s" using ticks_keep_backlog[of sys ?n s] r by simp
  have n: "?n = min (unat (dm_backlog s)) 64"
    by (simp add: min_def word_le_nat_alt MAX_REALTIME_TICKS_PER_TURN_def)
  show ?thesis
  proof (cases r)
    case (Inr u)
    then show ?thesis using r b n by (simp add: run_backlog_def Let_def unat_sat_sub) linarith
  qed (simp add: run_backlog_def Let_def r)
qed

lemma run_backlog_iterate:
  "(\<exists>j \<le> k. dm_shutdown ((run_backlog sys ^^ j) s)) \<or>
     unat (dm_backlog ((run_backlog sys ^^ k) s)) = unat (dm_backlog s) - 64 * k"
proof (induction k)
  case (Suc k)
  then show ?case
    using run_backlog_step[of sys "(run_backlog sys ^^ k) s"] by (auto intro: exI[of _ "Suc k"] le_SucI)
qed simp

section \<open>Batches of requests\<close>

lemma handle_action_id: "rp_id (fst (handle_action sys rq s)) = rq_id rq"
  by (auto simp: handle_action_def response_ok_def response_err_def split: prod.split sum.split)

lemma batch_answers:
  "process_action_batch sys n queue s = (rsps, rest, t) \<Longrightarrow> \<not> dm_shutdown s \<Longrightarrow>
     map rp_id rsps = map rq_id (take (length rsps) queue) \<and> rest = drop (length rsps) queue \<and>
     length rsps \<le> n \<and> (\<not> dm_shutdown t \<longrightarrow> length rsps = min n (length queue))"
proof (induction sys n queue s arbitrary: rsps rest t rule: process_action_batch.induct)
  case (3 sys n rq queue s)
  obtain rsp s' where h: "handle_action sys rq s = (rsp, s')" by fastforce
  have i: "rp_id rsp = rq_id rq" using handle_action_id[of sys rq s] h by simp
  show ?case
  proof (cases "dm_shutdown s'")
    case True
    then show ?thesis using "3.prems" h i by auto
  next
    case False
    obtain rs q u where r: "process_action_batch sys n queue s' = (rs, q, u)" by (metis prod_cases3)
    show ?thesis using "3.IH"[OF h[symmetric] False r False] "3.prems" h r i False by auto
  qed
qed auto


section \<open>Signals by identifier\<close>

lemma check_read_value_Inr:
  "check_read_value (i, v) s = (Inr y, t) \<longleftrightarrow> t = s \<and> y = (i, v) \<and>
     (\<exists>m. signal_by_id (dm_project s) i = Some m \<and> sig_type m = value_signal_type v)"
  by (auto simp: check_read_value_def signal_of_id_def a_bind_Inr ok_or_Inr a_lift_def split: if_splits)

lemma check_read_values:
  "a_mapM ivs check_read_value s = (Inr ys, t) \<Longrightarrow> t = s \<and> ys = ivs \<and>
     (\<forall>(i, v) \<in> set ivs. \<exists>m. signal_by_id (dm_project s) i = Some m \<and> sig_type m = value_signal_type v)"
proof (induction ivs arbitrary: ys)
  case (Cons iv ivs)
  obtain i v where "iv = (i, v)" by (cases iv)
  then show ?case using Cons by (fastforce simp: a_bind_Inr check_read_value_Inr)
qed simp

lemma read_by_ids_typed:
  assumes "read_signal_values_by_ids ids s = (Inr vals, t)"
  shows "map fst vals = ids \<and> dm_project t = dm_project s \<and>
    (\<forall>(i, v) \<in> set vals. \<exists>m. signal_by_id (dm_project s) i = Some m \<and> sig_type m = value_signal_type v)"
proof -
  obtain vs u where r: "on_world DSim (read_many (dm_project s) ids) s = (Inr vs, u)"
    and len: "length vs = length ids" and c: "a_mapM (zip ids vs) check_read_value u = (Inr vals, t)"
    using assms by (auto simp: read_signal_values_by_ids_def a_bind_Inr split: if_splits)
  have p: "dm_project u = dm_project s" using r by (auto simp: on_world_def split: prod.splits)
  show ?thesis using check_read_values[OF c] p len by (auto simp: map_fst_zip)
qed

section \<open>Values as text\<close>

lemma parse_i32_show: "parse_i32 (show_int (sint v)) = Some (v :: u32)"
proof -
  have b: "- (2 ^ 31) \<le> sint v" "sint v < 2 ^ 31"
    using sint_range_size[of v] by (simp_all add: word_size)
  show ?thesis
  proof (cases "sint v < 0")
    case True
    then have n: "nat (- sint v) < 2 ^ 31 + 1" using b by (simp add: nat_less_iff)
    have "parse_signed 10 (2 ^ 31) (CHR ''-'' # show_nat (nat (- sint v))) = Some (sint v)"
      using digits_acc_show_nat[OF n] True by (simp add: parse_signed_def)
    then show ?thesis using True by (simp add: parse_i32_def show_int_def)
  next
    case False
    then have n: "nat (sint v) < 2 ^ 31" using b by (simp add: nat_less_iff)
    obtain c cs where s: "show_nat (nat (sint v)) = c # cs"
      by (cases "show_nat (nat (sint v))") auto
    then obtain d where "d < 10" "c = digit_char d" using show_nat_chars[of c "nat (sint v)"] by auto
    then have "parse_signed 10 (2 ^ 31) (show_nat (nat (sint v))) = Some (sint v)"
      using digits_acc_show_nat[OF n] s digit_char_not_sign[of d] False by (simp add: parse_signed_def)
    then show ?thesis using False by (simp add: parse_i32_def show_int_def)
  qed
qed

lemma parse_u32_show: "parse_u32 (show_nat (unat v)) = Some (v :: u32)"
  using parse_unsigned_show_nat[of "unat v" "2 ^ 32"] unsigned_less[of v, where ?'a = nat]
  by (simp add: parse_u32_def)

section \<open>A small daemon\<close>

text \<open>
  A library whose state counts its ticks and whose one shared channel cannot be written, on a
  system where nothing happens.
\<close>

definition counter_project :: "nat project" where
  "counter_project = \<lparr>libpath = ''libcount.so'', p_tick_duration_us = 1000, p_signals = [],
     p_can_buses = [], p_shared_channels = [\<lparr>ch_id = 3, ch_name = ''state'', slot_count = 1\<rparr>],
     signal_name_to_id = [], signal_id_to_index = [],
     sim_reset = (\<lambda>_. (STATUS_OK, 0)), sim_tick = (\<lambda>n. (STATUS_OK, n + 1)),
     sim_read_val = (\<lambda>_ raw n. ((STATUS_INVALID_SIGNAL, raw), n)), sim_read_vals = None,
     sim_write_val = (\<lambda>_ _ n. (STATUS_INVALID_SIGNAL, n)), can_api = None,
     shared_api = Some \<lparr>sim_shared_read = (\<lambda>_ _ n. (STATUS_OK, n)),
       sim_shared_write = (\<lambda>_ buf _ n. ((STATUS_NOT_INITIALIZED, buf, 0), n))\<rparr>\<rparr>"

definition idle_sys :: "nat daemon_sys" where
  "idle_sys = \<lparr>sys_now = (\<lambda>n. (0, n)), sys_glob = (\<lambda>_. None),
     sys_files = \<lparr>fs_create_parent = (\<lambda>_ n. (True, n)), fs_create = (\<lambda>_ n. (True, n)),
       fs_write = (\<lambda>_ _ n. (True, n)), fs_flush = (\<lambda>_ n. (True, n)),
       fs_exists = (\<lambda>_ _. False), fs_remove = (\<lambda>_ n. (True, n))\<rparr>,
     sys_can_open = (\<lambda>_ _ _ _ n. (True, n)), sys_can_recv = (\<lambda>_ n. ([], n)),
     sys_can_send = (\<lambda>_ _ n. (True, n)), sys_read_text = (\<lambda>_ _. None), sys_parse_dbc = (\<lambda>_. None),
     sys_region_file = (\<lambda>_ _. None), sys_region_load = (\<lambda>_ _. demo_region),
     sys_region_store = (\<lambda>_ _ n. n), sys_list_instances = (\<lambda>n. (None, n))\<rparr>"

definition demo_daemon :: "nat daemon" where
  "demo_daemon = (daemon_new ''s'' ''/tmp/s.sock'' counter_project None 0)
     \<lparr>dm_shared_attached := [(''state'', \<lparr>as_meta = \<lparr>ch_id = 3, ch_name = ''state'', slot_count = 1\<rparr>,
        as_region = ''/dev/shm/state'', as_writer = True\<rparr>)]\<rparr>"

lemma counter_only_ticks: "only_tick_counts idle_sys counter_project (\<lambda>n. n)"
  by (simp add: only_tick_counts_def quiet_world_def stays_def idle_sys_def counter_project_def)

lemma counter_project_inv: "project_inv counter_project"
  unfolding project_inv_def by (intro conjI; code_simp)

section \<open>Properties\<close>

text \<open>
  C3: whatever requests a daemon handles, whatever ticks it runs and however the world outside
  changes, it keeps the project it was bound to and its place in an environment, its clock keeps the
  time engine's invariant, every attached bus and channel is one the project declares under that
  name, attached once, every overlay belongs to a declared bus and holds valid signals, and an
  active trace samples the project's signals with a positive period.
\<close>

theorem daemon_invariant:
  assumes "project_inv p" and "(daemon_step sys)\<^sup>*\<^sup>* (daemon_new session path p env w) s"
  shows "daemon_ok p env s"
  using assms(2)
  by (induction rule: rtranclp_induct) (auto intro: daemon_ok_new daemon_step_ok[OF assms(1)])

theorem daemon_invariant_witness:
  "daemon_ok counter_project None
     (snd (handle_action idle_sys \<lparr>rq_id = 1, rq_action = RInstance ITimeStart\<rparr>
        (daemon_new ''s'' ''/tmp/s.sock'' counter_project None 0)))"
  by (rule daemon_invariant[OF counter_project_inv, OF r_into_rtranclp, OF ds_action])

text \<open>
  The daemon of an environment's member refuses every request that would move its clock or its
  CAN buses on its own, with the error of the environment, and changes nothing.
\<close>

definition env_controlled :: "instance_action \<Rightarrow> bool" where
  "env_controlled a = (case a of ITimeStart \<Rightarrow> True | ITimePause \<Rightarrow> True | ITimeStep _ \<Rightarrow> True
     | ITimeSpeed _ \<Rightarrow> True | ICanBuses \<Rightarrow> True | ICanAttach _ _ \<Rightarrow> True | ICanDetach _ \<Rightarrow> True
     | ICanLoadDbc _ _ \<Rightarrow> True | ICanSend _ _ _ _ \<Rightarrow> True | _ \<Rightarrow> False)"

lemma rejected_time:
  "dm_env s = Some e \<Longrightarrow> a_bind reject_local_time_control f s = (Inl (DEnvOwnsTime e), s)"
  by (simp add: a_bind_def reject_local_time_control_def)

lemma rejected_can:
  "dm_env s = Some e \<Longrightarrow> a_bind reject_local_can_control f s = (Inl DEnvOwnsCan, s)"
  by (simp add: a_bind_def reject_local_can_control_def guard_err_def)

theorem env_owns_control:
  assumes "dm_env s = Some e" and "env_controlled a"
  shows "handle_action sys \<lparr>rq_id = i, rq_action = RInstance a\<rparr> s = (response_err i (DEnvOwnsTime e), s) \<or>
    handle_action sys \<lparr>rq_id = i, rq_action = RInstance a\<rparr> s = (response_err i DEnvOwnsCan, s)"
  using assms
  by (cases a)
    (simp_all add: env_controlled_def handle_action_def dispatch_action_def i_time_start_def
      i_time_pause_def i_time_step_def i_time_speed_def i_can_buses_def i_can_attach_def
      i_can_detach_def i_can_load_dbc_def i_can_send_def rejected_time rejected_can)

theorem env_owns_control_witness:
  "snd (handle_action idle_sys \<lparr>rq_id = 1, rq_action = RInstance ITimePause\<rparr>
     (demo_daemon\<lparr>dm_env := Some ''e''\<rparr>)) = demo_daemon\<lparr>dm_env := Some ''e''\<rparr>"
  using env_owns_control[of "demo_daemon\<lparr>dm_env := Some ''e''\<rparr>" "''e''" ITimePause idle_sys 1]
  by (auto simp: env_controlled_def)



text \<open>
  The step an environment asks of a worker does not keep this account: when a step after
  \<open>sim_tick\<close> fails, the daemon reports the error with the simulation advanced and its clock not,
  while the same failure of an ordinary tick is counted.
\<close>

theorem w_step_uncounted:
  assumes "tick_before sys s = (Inr u, s1)" and "tick_after sys s1 = (Inl e, t)"
    and "only_tick_counts sys (dm_project s) cnt"
  shows "dispatch_worker_action sys WStep s = (Inl e, t) \<and>
    advance_project_ticks sys 1 s = (Inl e, count_tick t) \<and>
    cnt (dm_world t) = cnt (dm_world s) + 1 \<and> dm_time t = dm_time s"
proof -
  have 1: "advance_single_project_tick sys s = (Inl (e, True), t)"
    using assms(1,2) by (simp add: advance_single_project_tick_def a_bind_def a_map_err_def post_tick_def)
  have "steady (dm_project s) cnt (dm_time s) (dm_backlog s) (cnt (dm_world s)) s" by (simp add: steady_def)
  from tick_counts[OF assms(3) this 1] show ?thesis
    using 1 by (simp add: steady_def w_step_def a_bind_def a_map_err_def)
qed

theorem w_step_uncounted_witness:
  "dm_world (snd (dispatch_worker_action idle_sys WStep demo_daemon)) = 1 \<and>
   dm_time (snd (dispatch_worker_action idle_sys WStep demo_daemon)) = dm_time demo_daemon"
proof -
  let ?s = "demo_daemon"
  have b: "tick_before idle_sys ?s = (Inr (), ?s\<lparr>dm_world := 1\<rparr>)"
    by (simp add: tick_before_def demo_daemon_def daemon_new_def idle_sys_def counter_project_def
        process_can_rx_def recv_can_frames_def deliver_can_frames_def process_shared_rx_def
        shared_rx_one_def on_world_def project_tick_def a_bind_def a_for.simps status_defs map_status_def)
  have a: "tick_after idle_sys (?s\<lparr>dm_world := 1\<rparr>) =
      (Inl (DSharedWrite ''state'' NotInitialized), ?s\<lparr>dm_world := 1\<rparr>)"
    by (simp add: tick_after_def demo_daemon_def daemon_new_def idle_sys_def counter_project_def
        sample_instance_trace_def process_can_tx_def process_shared_tx_def shared_tx_one_def
        on_world_def a_bind_def status_defs shared_write_def shared_channel_by_id_def
        shared_write_slots_def map_status_def ok_or_def)
  show ?thesis
    using w_step_uncounted[OF b a, of "\<lambda>n. n"] counter_only_ticks
    by (simp add: demo_daemon_def daemon_new_def)
qed






text \<open>
  The text a trace prints for a boolean or an integer is accepted by \<open>Set\<close> for a signal of that
  type and gives the same value.
\<close>

theorem value_text_roundtrip:
  assumes "value_signal_type v \<notin> {TF32, TF64}"
  shows "parse_value (value_signal_type v) (show_signal_value v) = Inr v"
  using assms parse_i32_show parse_u32_show
  by (cases v) (auto simp: parse_value_def show_signal_value_def ok_or_def value_signal_type_def)

theorem value_text_roundtrip_witness: "parse_value TI32 (show_signal_value (VI32 (- 5))) = Inr (VI32 (- 5))"
  using value_text_roundtrip[of "VI32 (- 5)"] by (simp add: value_signal_type_def)

text \<open>
  C34: a reset sets the tick counter back to zero but leaves an active trace with the tick at which
  its next row was due, so the trace takes no row until the counter has grown back to it.
\<close>

theorem reset_stalls_trace:
  assumes "dispatch_instance_action sys IReset s = (Inr d, t)" and "tr_active (dm_trace s) = Some a"
  shows "ts_elapsed_ticks (time_status t) = 0 \<and> tr_active (dm_trace t) = Some a \<and>
    (\<forall>k. k < at_next_due_tick a \<longrightarrow> sample_instance_trace sys k t = (Inr (), t))"
proof -
  obtain w where t: "t = s\<lparr>dm_world := w, dm_time := te_reset (dm_time s), dm_backlog := 0\<rparr>"
    using assms(1) by (auto simp: i_reset_def a_bind_Inr on_world_def split: prod.splits)
  then show ?thesis using assms(2)
    by (simp add: time_status_def te_status_def te_reset_def engine_default_def
        sample_instance_trace_def Let_def)
qed

theorem reset_stalls_trace_witness:
  "snd (sample_instance_trace idle_sys 7
     (snd (dispatch_instance_action idle_sys IReset
       (set_active (Some \<lparr>at_writer = \<lparr>tw_path = ''/t.csv'', tw_row_count = 1\<rparr>, at_signal_ids = [],
          at_period_ticks = 10, at_period_us = 10000, at_next_due_tick = 110\<rparr>) demo_daemon)))) =
   snd (dispatch_instance_action idle_sys IReset
       (set_active (Some \<lparr>at_writer = \<lparr>tw_path = ''/t.csv'', tw_row_count = 1\<rparr>, at_signal_ids = [],
          at_period_ticks = 10, at_period_us = 10000, at_next_due_tick = 110\<rparr>) demo_daemon))"
proof -
  let ?a = "\<lparr>at_writer = \<lparr>tw_path = ''/t.csv'', tw_row_count = 1\<rparr>, at_signal_ids = [],
    at_period_ticks = 10, at_period_us = 10000, at_next_due_tick = 110\<rparr>"
  let ?s = "set_active (Some ?a) demo_daemon"
  obtain r t where r: "dispatch_instance_action idle_sys IReset ?s = (r, t)" by fastforce
  have "is_ok (fst (dispatch_instance_action idle_sys IReset ?s))" by code_simp
  then obtain d where d: "r = Inr d" using r by (cases r) auto
  have "tr_active (dm_trace ?s) = Some ?a" by (simp add: set_active_def)
  from reset_stalls_trace[OF r[unfolded d] this] r show ?thesis by simp
qed

end
