(* ===== verification/Env.thy ===== *)
theory Env
  imports Daemon_Progress
begin

text \<open>
  The environment daemon, part one: the state of \<open>envd/server.rs\<close>, its CAN buses with their send
  schedules, the workers of \<open>instance_worker.rs\<close> that carry requests to the member instances, grouped
  reads of member signals (\<open>dispatch.rs\<close>) and the tick of \<open>tick.rs\<close>. A worker is a task that owns one
  connection; a pipelined group of requests is run in the order in which it was sent. The exchange
  of one request line for one response line is the parameter \<open>es_ask\<close>.
\<close>

section \<open>State\<close>

datatype worker_reply =
  WriteTimedOut | WriteFailed | ReadTimedOut | ReadFailed | ConnectionClosed | BadResponse
| Reply "daemon_error response"

datatype worker_error =
  WorkerIo worker_reply
| WorkerIdMismatch uuid uuid
| WorkerNoPayload
| WorkerRefused "daemon_error option"

record 'w env_sys =
  es_base :: "'w daemon_sys"
  es_uuid :: "'w \<Rightarrow> uuid \<times> 'w"
  es_uuid_text :: "uuid \<Rightarrow> string"
  es_ask :: "string \<Rightarrow> request \<Rightarrow> 'w \<Rightarrow> worker_reply \<times> 'w"

record can_schedule_job =
  sj_id :: string
  sj_arb_id :: u32
  sj_flags :: u8
  sj_data_hex :: string
  sj_frame :: sim_can_frame
  sj_every_ticks :: u64
  sj_next_due_tick :: u64
  sj_enabled :: bool

record env_can_bus =
  eb_name :: string
  eb_iface :: string
  eb_fd_capable :: bool
  eb_bitrate :: u32
  eb_bitrate_data :: u32
  eb_dbc :: "dbc_overlay option"
  eb_frames :: "(u32, sim_can_frame) hmap"
  eb_schedules :: "(string, can_schedule_job) btree"

record env_trace_signal =
  ts_instance :: string
  ts_local_id :: u32
  ts_name :: string

record active_env_trace =
  xt_writer :: csv_writer
  xt_period_ticks :: u64
  xt_period_us :: u64
  xt_next_due_tick :: u64
  xt_signals :: "env_trace_signal list"

record env_trace_state =
  et_active :: "active_env_trace option"
  et_last_path :: "string option"
  et_last_row_count :: u64
  et_last_signal_count :: nat
  et_last_period_us :: "u64 option"

record 'w env =
  ev_name :: string
  ev_socket_path :: string
  ev_tick_us :: u32
  ev_instances :: "string list"
  ev_catalog :: env_catalog
  ev_workers :: "(string, bool) hmap"  \<comment> \<open>whether the worker's task still runs\<close>
  ev_time :: time_engine
  ev_backlog :: u64
  ev_can :: "(string, env_can_bus) btree"
  ev_trace :: env_trace_state
  ev_shutdown :: bool
  ev_world :: 'w

datatype env_error =
  XWrongEnv string string
| XTime time_error
| XDuration protocol_error
| XPeriodZero
| XTickZero
| XSelector selector_error
| XNoBus string
| XDbc dbc_error
| XPayload payload_error
| XFrame frame_error
| XSocket socket_error
| XNoSchedule string
| XScheduleExists string
| XNoWorker string
| XChannelClosed
| XWorker worker_error
| XUnexpected string
| XReadCount string nat nat
| XReadId string nat u32 u32
| XMissingValue
| XTraceActive
| XTracePeriodZero
| XTraceRelative string
| XTrace trace_error
| XTraceRemove string
| XInstanceAction

type_synonym ('w, 'a) eact = "('w env, env_error, 'a) act"

definition in_world :: "('e \<Rightarrow> env_error) \<Rightarrow> ('w, 'e, 'a) act \<Rightarrow> ('w, 'a) eact" where
  "in_world f m s = (case m (ev_world s) of (r, w) \<Rightarrow> (map_err f r, s\<lparr>ev_world := w\<rparr>))"

definition in_time :: "(time_engine, time_error, 'a) act \<Rightarrow> ('w, 'a) eact" where
  "in_time m s = (case m (ev_time s) of (r, e) \<Rightarrow> (map_err XTime r, s\<lparr>ev_time := e\<rparr>))"

definition env_status :: "'w env \<Rightarrow> time_status" where
  "env_status s = te_status (ev_tick_us s) (ev_time s)"

definition elapsed :: "'w env \<Rightarrow> u64" where
  "elapsed s = ts_elapsed_ticks (env_status s)"

definition update_bus :: "string \<Rightarrow> (env_can_bus \<Rightarrow> env_can_bus) \<Rightarrow> 'w env \<Rightarrow> 'w env" where
  "update_bus name f s = s\<lparr>ev_can := bt_update name f (ev_can s)\<rparr>"

section \<open>Workers\<close>

definition worker_result :: "uuid \<Rightarrow> worker_reply \<Rightarrow> worker_error + response_data" where
  \<comment> \<open>What \<open>send_request\<close> makes of the line that came back.\<close>
  "worker_result i reply = (case reply of
      Reply rsp \<Rightarrow>
        if rp_id rsp \<noteq> i then Inl (WorkerIdMismatch i (rp_id rsp))
        else if rp_success rsp then ok_or WorkerNoPayload (rp_data rsp)
        else Inl (WorkerRefused (rp_error rsp))
    | _ \<Rightarrow> Inl (WorkerIo reply))"

definition worker_exchange ::
    "'w env_sys \<Rightarrow> string \<Rightarrow> request_action \<Rightarrow> ('w, worker_error, response_data) act" where
  "worker_exchange sys name action w =
     (case es_uuid sys w of (i, w1) \<Rightarrow>
      case es_ask sys name \<lparr>rq_id = i, rq_action = action\<rparr> w1 of (reply, w2) \<Rightarrow>
        (worker_result i reply, w2))"

definition begin_request ::
    "'w env_sys \<Rightarrow> string \<Rightarrow> request_action \<Rightarrow> ('w, worker_error + response_data) eact" where
  \<comment> \<open>Looks the worker up, sends it the message; the task answers it and ends when the answer is an
    error.\<close>
  "begin_request sys name action s = (case hm_get (ev_workers s) name of
      None \<Rightarrow> (Inl (XNoWorker name), s)
    | Some alive \<Rightarrow>
        if \<not> alive then (Inl XChannelClosed, s)
        else case worker_exchange sys name action (ev_world s) of (r, w) \<Rightarrow>
          (Inr r, s\<lparr>ev_world := w,
             ev_workers := (if is_ok r then ev_workers s else hm_insert name False (ev_workers s))\<rparr>))"

definition await :: "worker_error + response_data \<Rightarrow> ('w, response_data) eact" where
  "await r = a_lift (map_err XWorker r)"

definition begin_all ::
    "'w env_sys \<Rightarrow> string list \<Rightarrow> request_action \<Rightarrow>
     ('w, (string \<times> (worker_error + response_data)) list) eact" where
  "begin_all sys names action =
     a_mapM names (\<lambda>n. a_bind (begin_request sys n action) (\<lambda>r. a_ret (n, r)))"

definition await_ack :: "string \<times> (worker_error + response_data) \<Rightarrow> ('w, unit) eact" where
  "await_ack p = (case p of (n, r) \<Rightarrow>
     a_bind (await r) (\<lambda>d. if d = Ack then a_ret () else a_fail (XUnexpected n)))"

definition ask_all_ack :: "'w env_sys \<Rightarrow> request_action \<Rightarrow> ('w, unit) eact" where
  \<comment> \<open>The request goes to every member before the first answer is looked at.\<close>
  "ask_all_ack sys action =
     a_bind (a_get ev_instances) (\<lambda>names.
     a_bind (begin_all sys names action) (\<lambda>pending.
     a_for pending await_ack))"

section \<open>Frames and schedules\<close>

definition duration_to_env_ticks :: "u32 \<Rightarrow> string \<Rightarrow> env_error + u64" where
  "duration_to_env_ticks tick_duration_us raw =
     res_bind (map_err XDuration (parse_duration_us raw)) (\<lambda>us.
     if us = 0 then Inl XPeriodZero
     else if tick_duration_us = 0 then Inl XTickZero
     else Inr (div_ceil us (ucast tick_duration_us)))"

definition record_env_frame :: "env_can_bus \<Rightarrow> sim_can_frame \<Rightarrow> env_can_bus" where
  "record_env_frame bus frame =
     bus\<lparr>eb_frames := hm_insert (frame_key_from_frame frame) frame (eb_frames bus)\<rparr>"

definition find_bus_state :: "'w env \<Rightarrow> string \<Rightarrow> env_error + env_can_bus" where
  "find_bus_state s name = ok_or (XNoBus name) (bt_get (ev_can s) name)"

definition validate_env_frame :: "'w env \<Rightarrow> string \<Rightarrow> sim_can_frame \<Rightarrow> env_error + unit" where
  "validate_env_frame s name frame =
     res_bind (find_bus_state s name) (\<lambda>bus.
     map_err XFrame (validate_frame (eb_name bus) (eb_fd_capable bus) frame))"

definition parse_env_frame ::
    "'w env \<Rightarrow> string \<Rightarrow> u32 \<Rightarrow> string \<Rightarrow> u8 \<Rightarrow> env_error + sim_can_frame" where
  "parse_env_frame s name arb data_hex flags =
     res_bind (map_err XPayload (parse_data_hex data_hex)) (\<lambda>bytes.
     let frame = \<lparr>arb_id = arb, fr_len = of_nat (length bytes), fr_flags = flags,
       fr_data = bytes @ replicate (64 - length bytes) 0\<rparr> in
     res_bind (validate_env_frame s name frame) (\<lambda>_. Inr frame))"

definition send_env_frame :: "'w env_sys \<Rightarrow> string \<Rightarrow> sim_can_frame \<Rightarrow> ('w, unit) eact" where
  "send_env_frame sys name frame =
     a_bind (\<lambda>s. (find_bus_state s name, s)) (\<lambda>bus.
     a_bind (in_world XSocket (socket_send (es_base sys) (eb_iface bus) frame)) (\<lambda>_.
     a_mod (update_bus name (\<lambda>b. record_env_frame b frame))))"

definition observe_bus :: "'w env_sys \<Rightarrow> string \<Rightarrow> ('w, unit) eact" where
  "observe_bus sys name =
     a_bind (\<lambda>s. (find_bus_state s name, s)) (\<lambda>bus.
     a_bind (in_world XSocket (socket_recv (es_base sys) (eb_iface bus))) (\<lambda>frames.
     a_mod (update_bus name (\<lambda>b. foldl record_env_frame b frames))))"

definition observe_env_bus_frames :: "'w env_sys \<Rightarrow> ('w, unit) eact" where
  "observe_env_bus_frames sys =
     a_bind (a_get (\<lambda>s. map fst (ev_can s))) (\<lambda>names. a_for names (observe_bus sys))"

definition reset_bus :: "env_can_bus \<Rightarrow> env_can_bus" where
  "reset_bus bus = bus\<lparr>eb_frames := [],
     eb_schedules := bt_map_values (\<lambda>j. j\<lparr>sj_next_due_tick := 0\<rparr>) (eb_schedules bus)\<rparr>"

definition discard_bus :: "'w env_sys \<Rightarrow> string \<Rightarrow> ('w, unit) eact" where
  \<comment> \<open>An error of \<open>recv_all\<close> is dropped.\<close>
  "discard_bus sys name s = (case bt_get (ev_can s) name of
      None \<Rightarrow> (Inr (), s)
    | Some bus \<Rightarrow> (Inr (), update_bus name reset_bus
        (snd (in_world XSocket (socket_recv (es_base sys) (eb_iface bus)) s))))"

definition reset_env_can_state :: "'w env_sys \<Rightarrow> ('w, unit) eact" where
  "reset_env_can_state sys =
     a_bind (a_get (\<lambda>s. map fst (ev_can s))) (\<lambda>names. a_for names (discard_bus sys))"

definition locate_schedule_bus :: "'w env \<Rightarrow> string \<Rightarrow> env_error + string" where
  "locate_schedule_bus s job =
     res_bind (ok_or (XNoSchedule job)
       (find (\<lambda>(_, bus). bt_get (eb_schedules bus) job \<noteq> None) (ev_can s))) (\<lambda>(name, _). Inr name)"

definition ensure_unique_schedule_job_id :: "'w env \<Rightarrow> string \<Rightarrow> env_error + unit" where
  "ensure_unique_schedule_job_id s job =
     guard_err (list_ex (\<lambda>(_, bus). bt_get (eb_schedules bus) job \<noteq> None) (ev_can s))
       (XScheduleExists job)"

definition change_schedule ::
    "string \<Rightarrow> string \<Rightarrow> (can_schedule_job \<Rightarrow> can_schedule_job) \<Rightarrow> 'w env \<Rightarrow> 'w env" where
  \<comment> \<open>What a handler does through the reference that \<open>locate_schedule_mut\<close> returns.\<close>
  "change_schedule name job f =
     update_bus name (\<lambda>b. b\<lparr>eb_schedules := bt_update job f (eb_schedules b)\<rparr>)"

definition update_schedule ::
    "u32 \<Rightarrow> string \<Rightarrow> sim_can_frame \<Rightarrow> u64 \<Rightarrow> u64 \<Rightarrow> can_schedule_job \<Rightarrow> can_schedule_job" where
  "update_schedule arb data_hex frame every_ticks current_tick j =
     j\<lparr>sj_arb_id := arb, sj_flags := fr_flags frame, sj_data_hex := data_hex, sj_frame := frame,
       sj_every_ticks := every_ticks, sj_next_due_tick := current_tick\<rparr>"

definition start_schedule :: "can_schedule_job \<Rightarrow> can_schedule_job" where
  "start_schedule j = j\<lparr>sj_enabled := True\<rparr>"

definition frame_data :: "sim_can_frame \<Rightarrow> can_frame_data" where
  "frame_data f = \<lparr>cf_arb_id = arb_id f, cf_len = fr_len f, cf_flags = fr_flags f,
     cf_data_hex = concat (map show_hex_byte (payload f))\<rparr>"

section \<open>Grouped reads\<close>

type_synonym read_groups = "(string, (nat \<times> u32) list) btree"

definition group_add :: "read_groups \<Rightarrow> nat \<times> string \<times> u32 \<Rightarrow> read_groups" where
  "group_add g item = (case item of (i, inst, local_id) \<Rightarrow>
     bt_insert inst ((case bt_get g inst of Some l \<Rightarrow> l | None \<Rightarrow> []) @ [(i, local_id)]) g)"

definition group_reads :: "(string \<times> u32) list \<Rightarrow> read_groups" where
  "group_reads wanted = foldl group_add [] (enumerate 0 wanted)"

fun check_ids :: "string \<Rightarrow> nat \<Rightarrow> u32 list \<Rightarrow> (u32 \<times> signal_value) list \<Rightarrow> env_error + unit" where
  "check_ids inst idx (i # ids) ((j, _) # vals) =
     (if i \<noteq> j then Inl (XReadId inst idx i j) else check_ids inst (Suc idx) ids vals)"
| "check_ids inst idx _ _ = Inr ()"

definition validate_worker_signal_values ::
    "string \<Rightarrow> u32 list \<Rightarrow> (u32 \<times> signal_value) list \<Rightarrow> env_error + unit" where
  "validate_worker_signal_values inst ids vals =
     (if length vals \<noteq> length ids then Inl (XReadCount inst (length vals) (length ids))
      else check_ids inst 0 ids vals)"

definition read_group ::
    "'w env_sys \<Rightarrow> string \<times> (nat \<times> u32) list \<Rightarrow> ('w, (nat \<times> signal_value) list) eact" where
  "read_group sys g = (case g of (inst, items) \<Rightarrow>
     let ids = map snd items in
     a_bind (begin_request sys inst (RWorker (WReadSignals ids))) (\<lambda>r.
     a_bind (await r) (\<lambda>d. case d of
       WorkerSignalValues vals \<Rightarrow>
         a_bind (a_lift (validate_worker_signal_values inst ids vals)) (\<lambda>_.
         a_ret (zip (map fst items) (map snd vals)))
     | _ \<Rightarrow> a_fail (XUnexpected inst))))"

definition place_values :: "nat \<Rightarrow> (nat \<times> signal_value) list \<Rightarrow> env_error + signal_value list" where
  "place_values n ivs = map_res (ok_or XMissingValue)
     (foldl (\<lambda>vs (i, v). vs[i := Some v]) (replicate n None) ivs)"

definition read_grouped :: "'w env_sys \<Rightarrow> (string \<times> u32) list \<Rightarrow> ('w, signal_value list) eact" where
  "read_grouped sys wanted =
     a_bind (a_mapM (group_reads wanted) (read_group sys)) (\<lambda>parts.
     a_lift (place_values (length wanted) (concat parts)))"

definition read_env_trace_values ::
    "'w env_sys \<Rightarrow> env_trace_signal list \<Rightarrow> ('w, signal_value list) eact" where
  "read_env_trace_values sys signals =
     read_grouped sys (map (\<lambda>x. (ts_instance x, ts_local_id x)) signals)"

definition update_env_trace_history :: "'w env \<Rightarrow> 'w env" where
  "update_env_trace_history s = (case et_active (ev_trace s) of
      None \<Rightarrow> s
    | Some a \<Rightarrow> s\<lparr>ev_trace := (ev_trace s)
        \<lparr>et_last_path := Some (tw_path (xt_writer a)), et_last_row_count := tw_row_count (xt_writer a),
         et_last_signal_count := length (xt_signals a), et_last_period_us := Some (xt_period_us a)\<rparr>\<rparr>)"

definition set_env_active :: "active_env_trace option \<Rightarrow> 'w env \<Rightarrow> 'w env" where
  "set_env_active a s = s\<lparr>ev_trace := (ev_trace s)\<lparr>et_active := a\<rparr>\<rparr>"

definition sample_env_trace :: "'w env_sys \<Rightarrow> u64 \<Rightarrow> ('w, unit) eact" where
  \<comment> \<open>\<open>sample_env_trace_after_tick\<close>\<close>
  "sample_env_trace sys sample_tick =
     a_bind (a_get (\<lambda>s. et_active (ev_trace s))) (\<lambda>active. case active of
       None \<Rightarrow> a_ret ()
     | Some a \<Rightarrow>
         if sample_tick < xt_next_due_tick a then a_ret ()
         else a_bind (read_env_trace_values sys (xt_signals a)) (\<lambda>vals.
           a_bind (a_get ev_tick_us) (\<lambda>tick.
           let time_us = sat_mul sample_tick (ucast tick) in
           a_bind (in_world XTrace (csv_write_row (sys_files (es_base sys)) (xt_writer a)
               sample_tick time_us vals)) (\<lambda>wr.
           a_mod (\<lambda>s. update_env_trace_history (set_env_active (Some (a\<lparr>xt_writer := wr,
             xt_next_due_tick := sat_add sample_tick (xt_period_ticks a)\<rparr>)) s))))))"

section \<open>One tick\<close>

definition schedule_due :: "u64 \<Rightarrow> can_schedule_job \<Rightarrow> bool" where
  "schedule_due current_tick j = (sj_enabled j \<and> \<not> current_tick < sj_next_due_tick j)"

definition fire_schedule ::
    "'w env_sys \<Rightarrow> u64 \<Rightarrow> string \<Rightarrow> string \<Rightarrow> ('w, sim_can_frame list) eact" where
  "fire_schedule sys current_tick name job =
     a_bind (\<lambda>s. (find_bus_state s name, s)) (\<lambda>bus.
     case bt_get (eb_schedules bus) job of
       None \<Rightarrow> a_ret []
     | Some j \<Rightarrow>
         if \<not> schedule_due current_tick j then a_ret []
         else a_bind (in_world XSocket (socket_send (es_base sys) (eb_iface bus) (sj_frame j))) (\<lambda>_.
           a_bind (a_mod (change_schedule name job (\<lambda>j. j\<lparr>sj_next_due_tick :=
             sat_add current_tick (max (sj_every_ticks j) 1)\<rparr>))) (\<lambda>_.
           a_ret [sj_frame j])))"

definition fire_bus :: "'w env_sys \<Rightarrow> u64 \<Rightarrow> string \<Rightarrow> ('w, unit) eact" where
  "fire_bus sys current_tick name =
     a_bind (\<lambda>s. (find_bus_state s name, s)) (\<lambda>bus.
     a_bind (a_mapM (map fst (eb_schedules bus)) (fire_schedule sys current_tick name)) (\<lambda>emitted.
     a_mod (update_bus name (\<lambda>b. foldl record_env_frame b (concat emitted)))))"

definition fire_schedules :: "'w env_sys \<Rightarrow> u64 \<Rightarrow> ('w, unit) eact" where
  "fire_schedules sys current_tick =
     a_bind (a_get (\<lambda>s. map fst (ev_can s))) (\<lambda>names. a_for names (fire_bus sys current_tick))"

definition advance_single_tick :: "'w env_sys \<Rightarrow> ('w, unit) eact" where
  "advance_single_tick sys =
     a_bind (a_get elapsed) (\<lambda>current_tick.
     a_bind (observe_env_bus_frames sys) (\<lambda>_.
     a_bind (fire_schedules sys current_tick) (\<lambda>_.
     a_bind (ask_all_ack sys (RWorker WStep)) (\<lambda>_.
     a_bind (observe_env_bus_frames sys) (\<lambda>_.
     a_bind (sample_env_trace sys (sat_add current_tick 1)) (\<lambda>_.
     a_mod (\<lambda>s. s\<lparr>ev_time := advance_ticks 1 (ev_time s)\<rparr>)))))))"

fun advance_due_ticks :: "'w env_sys \<Rightarrow> nat \<Rightarrow> ('w, unit) eact" where
  "advance_due_ticks sys 0 = a_ret ()"
| "advance_due_ticks sys (Suc n) =
     a_bind (a_get ev_shutdown) (\<lambda>stop.
     if stop then a_ret ()
     else a_bind (advance_single_tick sys) (\<lambda>_. advance_due_ticks sys n))"

end
