(* ===== verification/Env_Actions.thy ===== *)
theory Env_Actions
  imports Env
begin

text \<open>
  The environment daemon, part two: every branch of \<open>dispatch_action\<close> in \<open>envd/server/dispatch.rs\<close>, its
  trace functions, and \<open>handle_action\<close> and the actor loop of \<open>envd/server.rs\<close>, one turn at a time.
\<close>

section \<open>Guards and status\<close>

definition ensure_env_name :: "string \<Rightarrow> ('w, unit) eact" where
  "ensure_env_name requested s =
     (guard_err (ev_name s \<noteq> requested) (XWrongEnv (ev_name s) requested), s)"

definition env_time_status :: "('w, response_data) eact" where
  "env_time_status = a_get (\<lambda>s. TimeStatus (env_status s))"

definition clear_env_backlog :: "('w, unit) eact" where
  "clear_env_backlog = a_mod (\<lambda>s. s\<lparr>ev_backlog := 0\<rparr>)"

section \<open>Values and traces\<close>

definition signal_row :: "catalog_entry \<Rightarrow> env_signal_data" where
  "signal_row e = \<lparr>es_instance = ce_instance e, es_local_id = ce_local_id e,
     es_name = ce_qualified e, es_type = ce_type e, es_units = ce_units e\<rparr>"

definition value_row :: "catalog_entry \<Rightarrow> signal_value \<Rightarrow> env_signal_value_data" where
  "value_row e v = \<lparr>es_instance = ce_instance e, es_local_id = ce_local_id e,
     es_name = ce_qualified e, es_type = ce_type e, es_units = ce_units e, es_value = v\<rparr>"

definition resolve_entries :: "'w env_sys \<Rightarrow> string list \<Rightarrow> ('w, catalog_entry list) eact" where
  "resolve_entries sys selectors =
     a_bind (a_get ev_catalog) (\<lambda>c.
     a_bind (a_lift (map_err XSelector (resolve_selectors (sys_glob (es_base sys)) c selectors))) (\<lambda>resolved.
     a_ret (map (\<lambda>i. cat_entries c ! i) resolved)))"

definition read_env_signal_values ::
    "'w env_sys \<Rightarrow> string list \<Rightarrow> ('w, env_signal_value_data list) eact" where
  "read_env_signal_values sys selectors =
     a_bind (resolve_entries sys selectors) (\<lambda>es.
     a_bind (read_grouped sys (map (\<lambda>e. (ce_instance e, ce_local_id e)) es)) (\<lambda>vals.
     a_ret (map (\<lambda>(e, v). value_row e v) (zip es vals))))"

definition trace_signal_of :: "catalog_entry \<Rightarrow> env_trace_signal" where
  "trace_signal_of e =
     \<lparr>ts_instance = ce_instance e, ts_local_id = ce_local_id e, ts_name = ce_qualified e\<rparr>"

definition env_trace_period :: "string \<Rightarrow> env_error + u64" where
  "env_trace_period period =
     res_bind (map_err XDuration (parse_duration_us period)) (\<lambda>us.
     if us = 0 then Inl XTracePeriodZero else Inr us)"

definition start_env_trace :: "'w env_sys \<Rightarrow> string \<Rightarrow> string \<Rightarrow> ('w, unit) eact" where
  "start_env_trace sys path period =
     a_bind (a_get (\<lambda>s. et_active (ev_trace s))) (\<lambda>active.
     if active \<noteq> None then a_fail XTraceActive
     else if \<not> is_absolute_path path then a_fail (XTraceRelative path)
     else a_bind (a_lift (env_trace_period period)) (\<lambda>period_us.
       a_bind (a_get (\<lambda>s. (ev_tick_us s, cat_entries (ev_catalog s), env_status s))) (\<lambda>(tick, entries, status).
       let period_ticks = div_ceil period_us (ucast tick);
           signals = map trace_signal_of entries; headers = map ts_name signals in
       a_bind (in_world XTrace (csv_create (sys_files (es_base sys)) path headers)) (\<lambda>wr.
       a_bind (read_env_trace_values sys signals) (\<lambda>vals.
       a_bind (in_world XTrace (csv_write_row (sys_files (es_base sys)) wr
           (ts_elapsed_ticks status) (ts_elapsed_time_us status) vals)) (\<lambda>wr'.
       a_mod (\<lambda>s. update_env_trace_history (set_env_active (Some
         \<lparr>xt_writer = wr', xt_period_ticks = period_ticks, xt_period_us = period_us,
          xt_next_due_tick = sat_add (ts_elapsed_ticks status) period_ticks,
          xt_signals = signals\<rparr>) s))))))))"

definition stop_env_trace :: "'w env_sys \<Rightarrow> ('w, unit) eact" where
  "stop_env_trace sys =
     a_bind (a_get (\<lambda>s. et_active (ev_trace s))) (\<lambda>active. case active of
       None \<Rightarrow> a_ret ()
     | Some a \<Rightarrow> a_bind (in_world XTrace (csv_flush (sys_files (es_base sys)) (xt_writer a))) (\<lambda>_.
         a_mod (\<lambda>s. set_env_active None (update_env_trace_history s))))"

definition clear_env_history :: "'w env \<Rightarrow> 'w env" where
  "clear_env_history s = s\<lparr>ev_trace := (ev_trace s)\<lparr>et_last_path := None, et_last_row_count := 0,
     et_last_signal_count := 0, et_last_period_us := None\<rparr>\<rparr>"

definition remove_env_trace_file :: "'w env_sys \<Rightarrow> string option \<Rightarrow> ('w, unit) eact" where
  "remove_env_trace_file sys path = (case path of
      None \<Rightarrow> a_ret ()
    | Some p \<Rightarrow> a_bind (a_get (\<lambda>s. fs_exists (sys_files (es_base sys)) p (ev_world s))) (\<lambda>there.
        if there then in_world id (io_step (fs_remove (sys_files (es_base sys)) p) (XTraceRemove p))
        else a_ret ()))"

definition clear_env_trace :: "'w env_sys \<Rightarrow> ('w, unit) eact" where
  "clear_env_trace sys =
     a_bind (a_get ev_trace) (\<lambda>trace.
     a_bind (case et_active trace of
         Some a \<Rightarrow> a_bind (in_world XTrace (csv_flush (sys_files (es_base sys)) (xt_writer a))) (\<lambda>_.
           a_ret (Some (tw_path (xt_writer a))))
       | None \<Rightarrow> a_ret (et_last_path trace)) (\<lambda>path.
     a_bind (a_mod (set_env_active None)) (\<lambda>_.
     a_bind (remove_env_trace_file sys path) (\<lambda>_.
     a_mod clear_env_history))))"

definition env_trace_status :: "'w env \<Rightarrow> response_data" where
  "env_trace_status s = (case et_active (ev_trace s) of
      Some a \<Rightarrow> TraceStatus True (Some (tw_path (xt_writer a))) (tw_row_count (xt_writer a))
        (length (xt_signals a)) (Some (xt_period_us a))
    | None \<Rightarrow> TraceStatus False (et_last_path (ev_trace s)) (et_last_row_count (ev_trace s))
        (et_last_signal_count (ev_trace s)) (et_last_period_us (ev_trace s)))"

definition then_env_trace_status :: "('w, unit) eact \<Rightarrow> ('w, response_data) eact" where
  "then_env_trace_status m = a_bind m (\<lambda>_. a_get env_trace_status)"

section \<open>Actions\<close>

definition e_status :: "string \<Rightarrow> ('w, response_data) eact" where
  "e_status env = a_get (\<lambda>s. EnvStatus env True (length (ev_instances s)) (ev_tick_us s))"

definition e_reset :: "'w env_sys \<Rightarrow> ('w, response_data) eact" where
  "e_reset sys =
     a_bind (ask_all_ack sys (RInstance IReset)) (\<lambda>_.
     a_bind (ask_all_ack sys (RWorker WCanDiscardPendingRx)) (\<lambda>_.
     a_bind (reset_env_can_state sys) (\<lambda>_.
     a_bind (a_mod (\<lambda>s. s\<lparr>ev_time := te_reset (ev_time s), ev_backlog := 0\<rparr>)) (\<lambda>_.
     a_ret Ack))))"

definition e_time_start :: "'w env_sys \<Rightarrow> ('w, response_data) eact" where
  "e_time_start sys =
     a_bind (in_world id (\<lambda>w. case sys_now (es_base sys) w of (t, w') \<Rightarrow> (Inr t, w'))) (\<lambda>now.
     a_bind (in_time (te_start now)) (\<lambda>_.
     a_bind clear_env_backlog (\<lambda>_. env_time_status)))"

definition e_time_pause :: "('w, response_data) eact" where
  "e_time_pause = a_bind (in_time te_pause) (\<lambda>_. a_bind clear_env_backlog (\<lambda>_. env_time_status))"

definition e_time_speed :: "f64 option \<Rightarrow> ('w, response_data) eact" where
  "e_time_speed multiplier =
     a_bind (case multiplier of None \<Rightarrow> a_ret () | Some m \<Rightarrow> in_time (te_set_speed m)) (\<lambda>_.
     a_get (\<lambda>s. Speed (te_speed (ev_time s))))"

definition e_time_step :: "'w env_sys \<Rightarrow> string \<Rightarrow> ('w, response_data) eact" where
  "e_time_step sys duration =
     a_bind (a_lift (map_err XDuration (parse_duration_us duration))) (\<lambda>us.
     a_bind clear_env_backlog (\<lambda>_.
     a_bind (\<lambda>s. (map_err XTime (step_ticks (ev_tick_us s) us (ev_time s)), s)) (\<lambda>step.
     a_bind (advance_due_ticks sys (unat (advanced_ticks step))) (\<lambda>_.
     a_ret (TimeAdvanced step)))))"

definition env_bus_row :: "nat \<times> string \<times> env_can_bus \<Rightarrow> can_bus_data" where
  "env_bus_row x = (case x of (idx, _, bus) \<Rightarrow>
     \<lparr>cb_id = (if idx < 2 ^ 32 then of_nat idx else - 1), cb_name = eb_name bus,
      cb_bitrate = eb_bitrate bus, cb_bitrate_data = eb_bitrate_data bus,
      cb_fd_capable = eb_fd_capable bus, cb_attached_iface = Some (eb_iface bus)\<rparr>)"

definition e_can_buses :: "('w, response_data) eact" where
  "e_can_buses = a_get (\<lambda>s. CanBuses (map env_bus_row (enumerate 0 (ev_can s))))"

definition e_can_load_dbc :: "'w env_sys \<Rightarrow> string \<Rightarrow> string \<Rightarrow> ('w, response_data) eact" where
  "e_can_load_dbc sys name path =
     a_bind (\<lambda>s. (find_bus_state s name, s)) (\<lambda>_.
     a_bind (\<lambda>s. (map_err XDbc (overlay_load (sys_read_text (es_base sys) (ev_world s))
         (sys_parse_dbc (es_base sys)) path), s)) (\<lambda>overlay.
     a_bind (a_mod (update_bus name (\<lambda>b. b\<lparr>eb_dbc := Some overlay\<rparr>))) (\<lambda>_.
     a_ret (DbcLoaded name (length (overlay_signal_names overlay))))))"

definition e_can_send ::
    "'w env_sys \<Rightarrow> string \<Rightarrow> u32 \<Rightarrow> string \<Rightarrow> u8 option \<Rightarrow> ('w, response_data) eact" where
  "e_can_send sys name arb data_hex flags =
     a_bind (\<lambda>s. (parse_env_frame s name arb data_hex (case flags of Some f \<Rightarrow> f | None \<Rightarrow> 0), s)) (\<lambda>frame.
     a_bind (send_env_frame sys name frame) (\<lambda>_.
     a_ret (CanSent name arb (fr_len frame))))"

definition e_can_inspect :: "string \<Rightarrow> ('w, response_data) eact" where
  "e_can_inspect name =
     a_bind (\<lambda>s. (find_bus_state s name, s)) (\<lambda>bus.
     a_ret (CanInspect name (map frame_data (sort_key arb_id (map snd (eb_frames bus))))))"

definition e_schedule_add ::
    "'w env_sys \<Rightarrow> string \<Rightarrow> string option \<Rightarrow> u32 \<Rightarrow> string \<Rightarrow> string \<Rightarrow> u8 option \<Rightarrow>
     ('w, response_data) eact" where
  "e_schedule_add sys name job_id arb data_hex every flags =
     a_bind (\<lambda>s. (duration_to_env_ticks (ev_tick_us s) every, s)) (\<lambda>every_ticks.
     a_bind (\<lambda>s. (parse_env_frame s name arb data_hex (case flags of Some f \<Rightarrow> f | None \<Rightarrow> 0), s)) (\<lambda>frame.
     a_bind (case job_id of Some j \<Rightarrow> a_ret j
       | None \<Rightarrow> in_world id (\<lambda>w. case es_uuid sys w of (i, w') \<Rightarrow> (Inr (es_uuid_text sys i), w'))) (\<lambda>job.
     a_bind (a_get elapsed) (\<lambda>now.
     a_bind (\<lambda>s. (ensure_unique_schedule_job_id s job, s)) (\<lambda>_.
     a_bind (\<lambda>s. (find_bus_state s name, s)) (\<lambda>_.
     a_bind (a_mod (update_bus name (\<lambda>b. b\<lparr>eb_schedules := bt_insert job
       \<lparr>sj_id = job, sj_arb_id = arb, sj_flags = fr_flags frame, sj_data_hex = data_hex,
        sj_frame = frame, sj_every_ticks = every_ticks, sj_next_due_tick = now, sj_enabled = True\<rparr>
       (eb_schedules b)\<rparr>))) (\<lambda>_.
     a_ret Ack)))))))"

definition e_schedule_update ::
    "string \<Rightarrow> u32 \<Rightarrow> string \<Rightarrow> string \<Rightarrow> u8 option \<Rightarrow> ('w, response_data) eact" where
  "e_schedule_update job arb data_hex every flags =
     a_bind (\<lambda>s. (duration_to_env_ticks (ev_tick_us s) every, s)) (\<lambda>every_ticks.
     a_bind (a_get elapsed) (\<lambda>now.
     a_bind (\<lambda>s. (locate_schedule_bus s job, s)) (\<lambda>name.
     a_bind (\<lambda>s. (parse_env_frame s name arb data_hex (case flags of Some f \<Rightarrow> f | None \<Rightarrow> 0), s)) (\<lambda>frame.
     a_bind (a_mod (change_schedule name job
       (update_schedule arb data_hex frame every_ticks now))) (\<lambda>_.
     a_ret Ack)))))"

definition with_schedule :: "string \<Rightarrow> (string \<Rightarrow> 'w env \<Rightarrow> 'w env) \<Rightarrow> ('w, response_data) eact" where
  "with_schedule job f =
     a_bind (\<lambda>s. (locate_schedule_bus s job, s)) (\<lambda>name. a_bind (a_mod (f name)) (\<lambda>_. a_ret Ack))"

definition e_schedule_remove :: "string \<Rightarrow> ('w, response_data) eact" where
  "e_schedule_remove job = with_schedule job (\<lambda>name.
     update_bus name (\<lambda>b. b\<lparr>eb_schedules := bt_remove job (eb_schedules b)\<rparr>))"

definition e_schedule_stop :: "string \<Rightarrow> ('w, response_data) eact" where
  "e_schedule_stop job = with_schedule job (\<lambda>name.
     change_schedule name job (\<lambda>j. j\<lparr>sj_enabled := False\<rparr>))"

definition e_schedule_start :: "string \<Rightarrow> ('w, response_data) eact" where
  "e_schedule_start job = with_schedule job (\<lambda>name. change_schedule name job start_schedule)"

definition schedule_row :: "string \<Rightarrow> can_schedule_job \<Rightarrow> can_schedule_data" where
  "schedule_row name j = \<lparr>cs_job_id = sj_id j, cs_bus = name, cs_arb_id = sj_arb_id j,
     cs_data_hex = sj_data_hex j, cs_flags = sj_flags j, cs_every_ticks = sj_every_ticks j,
     cs_next_due_tick = sj_next_due_tick j, cs_enabled = sj_enabled j\<rparr>"

definition e_schedule_list :: "string option \<Rightarrow> ('w, response_data) eact" where
  "e_schedule_list wanted = a_get (\<lambda>s. CanSchedules (concat (map
     (\<lambda>(name, bus). map (schedule_row name) (map snd (eb_schedules bus)))
     (filter (\<lambda>(name, _). case wanted of None \<Rightarrow> True | Some requested \<Rightarrow> requested = name)
       (ev_can s)))))"

definition e_signals :: "'w env_sys \<Rightarrow> string list \<Rightarrow> ('w, response_data) eact" where
  "e_signals sys selectors =
     a_bind (resolve_entries sys selectors) (\<lambda>es. a_ret (EnvSignals (map signal_row es)))"

definition e_get :: "'w env_sys \<Rightarrow> string list \<Rightarrow> ('w, response_data) eact" where
  "e_get sys selectors =
     a_bind (read_env_signal_values sys selectors) (\<lambda>vals. a_ret (EnvSignalValues vals))"

definition e_close :: "('w, response_data) eact" where
  "e_close = a_bind (a_mod (\<lambda>s. s\<lparr>ev_shutdown := True\<rparr>)) (\<lambda>_. a_ret Ack)"

definition named :: "string \<Rightarrow> ('w, response_data) eact \<Rightarrow> ('w, response_data) eact" where
  \<comment> \<open>Every branch starts with \<open>ensure_env_name(state, &env)?\<close>.\<close>
  "named env m = a_bind (ensure_env_name env) (\<lambda>_. m)"

fun dispatch_env_action :: "'w env_sys \<Rightarrow> env_action \<Rightarrow> ('w, response_data) eact" where
  "dispatch_env_action sys (EStatus env) = named env (e_status env)"
| "dispatch_env_action sys (EReset env) = named env (e_reset sys)"
| "dispatch_env_action sys (ETimeStart env) = named env (e_time_start sys)"
| "dispatch_env_action sys (ETimePause env) = named env e_time_pause"
| "dispatch_env_action sys (ETimeSpeed env multiplier) = named env (e_time_speed multiplier)"
| "dispatch_env_action sys (ETimeStatus env) = named env env_time_status"
| "dispatch_env_action sys (ECanBuses env) = named env e_can_buses"
| "dispatch_env_action sys (ECanLoadDbc env name path) = named env (e_can_load_dbc sys name path)"
| "dispatch_env_action sys (ECanSend env name arb hex flags) =
     named env (e_can_send sys name arb hex flags)"
| "dispatch_env_action sys (ECanInspect env name) = named env (e_can_inspect name)"
| "dispatch_env_action sys (ECanScheduleAdd env name job arb hex every flags) =
     named env (e_schedule_add sys name job arb hex every flags)"
| "dispatch_env_action sys (ECanScheduleUpdate env job arb hex every flags) =
     named env (e_schedule_update job arb hex every flags)"
| "dispatch_env_action sys (ECanScheduleRemove env job) = named env (e_schedule_remove job)"
| "dispatch_env_action sys (ECanScheduleStop env job) = named env (e_schedule_stop job)"
| "dispatch_env_action sys (ECanScheduleStart env job) = named env (e_schedule_start job)"
| "dispatch_env_action sys (ECanScheduleList env name) = named env (e_schedule_list name)"
| "dispatch_env_action sys (ETraceStart env path period) =
     named env (then_env_trace_status (start_env_trace sys path period))"
| "dispatch_env_action sys (ETraceStop env) = named env (then_env_trace_status (stop_env_trace sys))"
| "dispatch_env_action sys (ETraceClear env) = named env (then_env_trace_status (clear_env_trace sys))"
| "dispatch_env_action sys (ETraceStatus env) = named env (a_get env_trace_status)"
| "dispatch_env_action sys (ESignals env selectors) = named env (e_signals sys selectors)"
| "dispatch_env_action sys (EGet env selectors) = named env (e_get sys selectors)"
| "dispatch_env_action sys (EClose env) = named env e_close"
| "dispatch_env_action sys (ETimeStep env duration) = named env (e_time_step sys duration)"

definition handle_env_action ::
    "'w env_sys \<Rightarrow> request \<Rightarrow> 'w env \<Rightarrow> env_error response \<times> 'w env" where
  "handle_env_action sys rq s =
     (case (case rq_action rq of REnv a \<Rightarrow> dispatch_env_action sys a | _ \<Rightarrow> a_fail XInstanceAction) s of
        (Inr d, s') \<Rightarrow> (response_ok (rq_id rq) d, s')
      | (Inl e, s') \<Rightarrow> (response_err (rq_id rq) e, s'))"

section \<open>The actor loop\<close>

definition MAX_ENV_ACTIONS_PER_TURN :: nat where "MAX_ENV_ACTIONS_PER_TURN = 16"
definition MAX_ENV_TICKS_PER_TURN :: u64 where "MAX_ENV_TICKS_PER_TURN = 64"

fun process_env_action_batch ::
    "'w env_sys \<Rightarrow> nat \<Rightarrow> request list \<Rightarrow> 'w env \<Rightarrow>
     env_error response list \<times> request list \<times> 'w env" where
  "process_env_action_batch sys 0 queue s = ([], queue, s)"
| "process_env_action_batch sys (Suc n) [] s = ([], [], s)"
| "process_env_action_batch sys (Suc n) (rq # queue) s =
     (case handle_env_action sys rq s of (rsp, s') \<Rightarrow>
        if ev_shutdown s' then ([rsp], queue, s')
        else case process_env_action_batch sys n queue s' of (rsps, rest, s'') \<Rightarrow> (rsp # rsps, rest, s''))"

definition poll_env_backlog :: "'w env_sys \<Rightarrow> 'w env \<Rightarrow> 'w env" where
  "poll_env_backlog sys s =
     (case sys_now (es_base sys) (ev_world s) of (now, w) \<Rightarrow>
      case tick_realtime_due (ev_tick_us s) now (ev_time s) of (due, e) \<Rightarrow>
        s\<lparr>ev_world := w, ev_time := e, ev_backlog := sat_add (ev_backlog s) due\<rparr>)"

definition run_env_backlog :: "'w env_sys \<Rightarrow> 'w env \<Rightarrow> 'w env" where
  "run_env_backlog sys s =
     (let tick_batch = min (ev_backlog s) MAX_ENV_TICKS_PER_TURN in
      case advance_due_ticks sys (unat tick_batch) s of
        (Inl _, s') \<Rightarrow> s'\<lparr>ev_shutdown := True\<rparr>
      | (Inr _, s') \<Rightarrow> s'\<lparr>ev_backlog := sat_sub (ev_backlog s') tick_batch\<rparr>)"

definition env_turn ::
    "'w env_sys \<Rightarrow> request list \<Rightarrow> 'w env \<Rightarrow>
     turn_end \<times> env_error response list \<times> request list \<times> 'w env" where
  \<comment> \<open>One pass of \<open>run_actor_task\<close> up to its \<open>select\<close>.\<close>
  "env_turn sys queue s0 =
     (case process_env_action_batch sys MAX_ENV_ACTIONS_PER_TURN queue s0 of (rsps, queue', s1) \<Rightarrow>
        if ev_shutdown s1 then (Stop, rsps, queue', s1)
        else let s2 = run_env_backlog sys (poll_env_backlog sys s1) in
          (if ev_shutdown s2 then Stop
           else if 0 < ev_backlog s2 then Yield
           else Wait (realtime_poll_delay (ev_tick_us s2) (ev_time s2)), rsps, queue', s2))"

fun close_all ::
    "'w env_sys \<Rightarrow> string list \<Rightarrow> 'w env \<Rightarrow> (string \<times> bool) list \<times> 'w env" where
  \<comment> \<open>\<open>shutdown_instances\<close>: who answered a \<open>Close\<close>, and who is left to be killed by process id.\<close>
  "close_all sys [] s = ([], s)"
| "close_all sys (n # ns) s =
     (case begin_request sys n (RInstance IClose) s of (r, s') \<Rightarrow>
      case close_all sys ns s' of (outs, s'') \<Rightarrow>
        ((n, case r of Inr answer \<Rightarrow> is_ok answer | Inl _ \<Rightarrow> False) # outs, s''))"

definition shutdown_instances :: "'w env_sys \<Rightarrow> 'w env \<Rightarrow> string list \<times> 'w env" where
  "shutdown_instances sys s = (case close_all sys (ev_instances s) s of (outs, s') \<Rightarrow>
     (map fst (filter (\<lambda>(_, closed). \<not> closed) outs), s'))"

end
