(* ===== verification/Env_Bootstrap.thy ===== *)
theory Env_Bootstrap
  imports Env_Actions
begin

text \<open>
  The start of an environment: \<open>envd/spec.rs\<close> and \<open>envd/server/bootstrap.rs\<close>. The environment under
  construction is a state \<open>'w env\<close> whose fields are the locals of \<open>bootstrap_inner\<close>; they are complete
  when it returns. Starting a member's process, connecting to it and one-shot requests to it are
  parameters. The members are started by tasks that run at the same time: every process is started,
  and the results are taken in the order \<open>bs_join\<close> until the first failure.
\<close>

section \<open>What is asked for\<close>

record env_instance_spec =
  is_name :: string
  is_load_spec :: load_spec

record can_bus_member_spec =
  cm_instance :: string
  cm_bus :: string

record env_can_bus_spec =
  xb_name :: string
  xb_iface :: string
  xb_dbc_path :: "string option"
  xb_members :: "can_bus_member_spec list"

record shared_member_spec =
  sm_instance :: string
  sm_channel :: string

record env_shared_spec =
  xs_name :: string
  xs_writer :: string
  xs_members :: "shared_member_spec list"

record env_spec =
  sp_name :: string
  sp_instances :: "env_instance_spec list"
  sp_can_buses :: "env_can_bus_spec list"
  sp_shared :: "env_shared_spec list"

record 'w boot_sys =
  bs_env :: "'w env_sys"
  bs_start :: "string \<Rightarrow> load_spec \<Rightarrow> 'w \<Rightarrow> bool \<times> 'w"  \<comment> \<open>\<open>bootstrap_daemon_with_exe\<close>\<close>
  bs_join :: "(string \<times> bool) list \<Rightarrow> (string \<times> bool) list"
  bs_connect :: "string \<Rightarrow> 'w \<Rightarrow> bool \<times> 'w"
  bs_send :: "string \<Rightarrow> request \<Rightarrow> 'w \<Rightarrow> daemon_error response option \<times> 'w"
    \<comment> \<open>\<open>connection::send_request\<close>, \<open>None\<close> for a connection error\<close>
  bs_shared_root :: "string"
  bs_create_dir :: "string \<Rightarrow> 'w \<Rightarrow> bool \<times> 'w"
  bs_kill :: "string \<Rightarrow> 'w \<Rightarrow> 'w"  \<comment> \<open>kills the process of the instance's pid file, if there is one\<close>

datatype boot_error =
  BName name_error
| BStart string
| BConnect string
| BEnv env_error
| BZeroTick string
| BTickMismatch string string u32 u32
| BColon string string
| BCatalog selector_error
| BNoRegistry string
| BNoMemberBus string string string
| BMemberTwice string string
| BSocket string
| BDbc dbc_error
| BNoInstances string
| BSharedRoot
| BWriterNotMember string string
| BRequest string "daemon_error option"

type_synonym ('w, 'a) bact = "('w env, boot_error, 'a) act"

definition b_world :: "('e \<Rightarrow> boot_error) \<Rightarrow> ('w, 'e, 'a) act \<Rightarrow> ('w, 'a) bact" where
  "b_world f m s = (case m (ev_world s) of (r, w) \<Rightarrow> (map_err f r, s\<lparr>ev_world := w\<rparr>))"

section \<open>Names\<close>

definition check_names :: "string list \<Rightarrow> name_error + unit" where
  "check_names names = res_bind (map_res validate_instance_name names) (\<lambda>_. Inr ())"

definition validate_spec_names :: "env_spec \<Rightarrow> name_error + unit" where
  "validate_spec_names sp =
     res_bind (validate_env_name (sp_name sp)) (\<lambda>_.
     res_bind (check_names (map is_name (sp_instances sp))) (\<lambda>_.
     res_bind (check_names (concat (map (\<lambda>b. map cm_instance (xb_members b)) (sp_can_buses sp)))) (\<lambda>_.
     check_names (concat (map (\<lambda>c. xs_writer c # map sm_instance (xs_members c)) (sp_shared sp))))))"

section \<open>Members\<close>

fun start_all :: "'w boot_sys \<Rightarrow> env_instance_spec list \<Rightarrow> 'w \<Rightarrow> (string \<times> bool) list \<times> 'w" where
  "start_all sys [] w = ([], w)"
| "start_all sys (i # is) w =
     (case bs_start sys (is_name i) (is_load_spec i) w of (ok, w1) \<Rightarrow>
      case start_all sys is w1 of (rest, w2) \<Rightarrow> ((is_name i, ok) # rest, w2))"

fun join_all :: "(string \<times> bool) list \<Rightarrow> string list \<times> boot_error option" where
  \<comment> \<open>The names pushed to \<open>started_instances\<close>, and the first failure.\<close>
  "join_all [] = ([], None)"
| "join_all ((n, ok) # rest) =
     (if ok then (case join_all rest of (started, e) \<Rightarrow> (n # started, e)) else ([], Some (BStart n)))"

definition connect_worker :: "'w boot_sys \<Rightarrow> string \<Rightarrow> ('w, unit) bact" where
  "connect_worker sys n =
     a_bind (b_world id (io_step (bs_connect sys n) (BConnect n))) (\<lambda>_.
     a_mod (\<lambda>s. s\<lparr>ev_workers := hm_insert n True (ev_workers s)\<rparr>))"

definition ask_members ::
    "'w boot_sys \<Rightarrow> string list \<Rightarrow> request_action \<Rightarrow>
     ('w, (string \<times> (worker_error + response_data)) list) bact" where
  "ask_members sys names action = a_map_err BEnv (begin_all (bs_env sys) names action)"

definition validate_env_tick_duration_us :: "string \<Rightarrow> u32 \<Rightarrow> boot_error + u32" where
  "validate_env_tick_duration_us name tick = (if tick = 0 then Inl (BZeroTick name) else Inr tick)"

definition join_tick ::
    "string \<Rightarrow> u32 option \<Rightarrow> string \<times> (worker_error + response_data) \<Rightarrow> boot_error + u32 option" where
  \<comment> \<open>One answer to \<open>Info\<close>.\<close>
  "join_tick env tick answer = (case answer of (n, r) \<Rightarrow>
     res_bind (map_err (\<lambda>e. BEnv (XWorker e)) r) (\<lambda>d. case d of
       ProjectInfo _ us _ \<Rightarrow>
         res_bind (validate_env_tick_duration_us n us) (\<lambda>us.
         case tick of
           Some expected \<Rightarrow> if expected \<noteq> us then Inl (BTickMismatch env n us expected) else Inr tick
         | None \<Rightarrow> Inr (Some us))
     | _ \<Rightarrow> Inl (BEnv (XUnexpected n))))"

fun join_ticks ::
    "string \<Rightarrow> u32 option \<Rightarrow> (string \<times> (worker_error + response_data)) list \<Rightarrow> boot_error + u32 option" where
  "join_ticks env tick [] = Inr tick"
| "join_ticks env tick (a # as) = res_bind (join_tick env tick a) (\<lambda>tick'. join_ticks env tick' as)"

definition signals_answer ::
    "string \<times> (worker_error + response_data) \<Rightarrow> boot_error + (string \<times> signal_meta list)" where
  "signals_answer answer = (case answer of (n, r) \<Rightarrow>
     res_bind (map_err (\<lambda>e. BEnv (XWorker e)) r) (\<lambda>d. case d of
       Signals sigs \<Rightarrow> Inr (n, sigs)
     | _ \<Rightarrow> Inl (BEnv (XUnexpected n))))"

definition buses_answer ::
    "string \<times> (worker_error + response_data) \<Rightarrow> boot_error + (string \<times> can_bus_data list)" where
  "buses_answer answer = (case answer of (n, r) \<Rightarrow>
     res_bind (map_err (\<lambda>e. BEnv (XWorker e)) r) (\<lambda>d. case d of
       CanBuses buses \<Rightarrow> Inr (n, buses)
     | _ \<Rightarrow> Inl (BEnv (XUnexpected n))))"

section \<open>The signal catalog\<close>

definition catalog_entry_of :: "string \<Rightarrow> signal_meta \<Rightarrow> boot_error + catalog_entry" where
  "catalog_entry_of inst s =
     (if CHR '':'' \<in> set (sig_name s) then Inl (BColon inst (sig_name s))
      else Inr \<lparr>ce_instance = inst, ce_local_id = sig_id s, ce_signal_name = sig_name s,
        ce_qualified = inst @ CHR '':'' # sig_name s, ce_type = sig_type s, ce_units = sig_units s\<rparr>)"

definition build_env_signal_catalog :: "(string, signal_meta list) hmap \<Rightarrow> boot_error + env_catalog" where
  "build_env_signal_catalog instance_signals =
     res_bind (map_res (\<lambda>(inst, s). catalog_entry_of inst s)
       (concat (map (\<lambda>(inst, sigs). map (\<lambda>s. (inst, s)) sigs) instance_signals))) (\<lambda>entries.
     map_err BCatalog (catalog_build entries))"

section \<open>CAN buses\<close>

type_synonym bus_rates = "bool \<times> u32 \<times> u32"
type_synonym attached_set = "(string \<times> string) list"

definition join_member ::
    "(string, can_bus_data list) hmap \<Rightarrow> string \<Rightarrow> bus_rates \<times> attached_set \<Rightarrow> can_bus_member_spec \<Rightarrow>
     boot_error + bus_rates \<times> attached_set" where
  "join_member instance_buses bus acc m =
     (case acc of ((fd, rate, rate_data), attached) \<Rightarrow>
      res_bind (ok_or (BNoRegistry (cm_instance m)) (hm_get instance_buses (cm_instance m))) (\<lambda>buses.
      res_bind (ok_or (BNoMemberBus bus (cm_instance m) (cm_bus m))
        (find (\<lambda>b. cb_name b = cm_bus m) buses)) (\<lambda>meta.
      if (cm_instance m, cm_bus m) \<in> set attached then Inl (BMemberTwice (cm_instance m) (cm_bus m))
      else Inr ((fd \<or> cb_fd_capable meta, max rate (cb_bitrate meta), max rate_data (cb_bitrate_data meta)),
        (cm_instance m, cm_bus m) # attached))))"

fun join_members ::
    "(string, can_bus_data list) hmap \<Rightarrow> string \<Rightarrow> bus_rates \<times> attached_set \<Rightarrow>
     can_bus_member_spec list \<Rightarrow> boot_error + bus_rates \<times> attached_set" where
  "join_members instance_buses bus acc [] = Inr acc"
| "join_members instance_buses bus acc (m # ms) =
     res_bind (join_member instance_buses bus acc m) (\<lambda>acc'. join_members instance_buses bus acc' ms)"

definition load_bus_dbc :: "'w boot_sys \<Rightarrow> string option \<Rightarrow> ('w, dbc_overlay option) bact" where
  "load_bus_dbc sys path = (case path of
      None \<Rightarrow> a_ret None
    | Some p \<Rightarrow> (\<lambda>s. (map_err BDbc (res_bind
        (overlay_load (sys_read_text (es_base (bs_env sys)) (ev_world s)) (sys_parse_dbc (es_base (bs_env sys))) p)
        (\<lambda>ov. Inr (Some ov))), s)))"

definition build_bus ::
    "'w boot_sys \<Rightarrow> (string, can_bus_data list) hmap \<Rightarrow> attached_set \<Rightarrow> env_can_bus_spec \<Rightarrow>
     ('w, attached_set) bact" where
  "build_bus sys instance_buses attached b =
     a_bind (a_lift (join_members instance_buses (xb_name b) ((False, 0, 0), attached) (xb_members b)))
       (\<lambda>((fd, rate, rate_data), attached').
     a_bind (b_world id (io_step (sys_can_open (es_base (bs_env sys)) (xb_iface b) rate rate_data fd)
       (BSocket (xb_iface b)))) (\<lambda>_.
     a_bind (load_bus_dbc sys (xb_dbc_path b)) (\<lambda>dbc.
     a_bind (a_mod (\<lambda>s. s\<lparr>ev_can := bt_insert (xb_name b)
       \<lparr>eb_name = xb_name b, eb_iface = xb_iface b, eb_fd_capable = fd, eb_bitrate = rate,
        eb_bitrate_data = rate_data, eb_dbc = dbc, eb_frames = [], eb_schedules = []\<rparr> (ev_can s)\<rparr>)) (\<lambda>_.
     a_ret attached'))))"

fun build_buses ::
    "'w boot_sys \<Rightarrow> (string, can_bus_data list) hmap \<Rightarrow> attached_set \<Rightarrow> env_can_bus_spec list \<Rightarrow>
     ('w, unit) bact" where
  "build_buses sys instance_buses attached [] = a_ret ()"
| "build_buses sys instance_buses attached (b # bs) =
     a_bind (build_bus sys instance_buses attached b) (\<lambda>attached'.
     build_buses sys instance_buses attached' bs)"

definition attach_member :: "'w boot_sys \<Rightarrow> string \<Rightarrow> can_bus_member_spec \<Rightarrow> ('w, unit) bact" where
  "attach_member sys iface m =
     a_map_err BEnv (a_bind (begin_request (bs_env sys) (cm_instance m)
       (RWorker (WCanAttach (cm_bus m) iface))) (\<lambda>r. await_ack (cm_instance m, r)))"

definition attach_members :: "'w boot_sys \<Rightarrow> env_can_bus_spec list \<Rightarrow> ('w, unit) bact" where
  "attach_members sys buses =
     a_for buses (\<lambda>b. a_for (xb_members b) (attach_member sys (xb_iface b)))"

section \<open>Shared channels\<close>

definition send_action_success :: "'w boot_sys \<Rightarrow> string \<Rightarrow> instance_action \<Rightarrow> ('w, boot_error, unit) act" where
  "send_action_success sys inst action w =
     (case es_uuid (bs_env sys) w of (i, w1) \<Rightarrow>
      case bs_send sys inst \<lparr>rq_id = i, rq_action = RInstance action\<rparr> w1 of
        (None, w2) \<Rightarrow> (Inl (BRequest inst None), w2)
      | (Some rsp, w2) \<Rightarrow>
          (if rp_success rsp then Inr () else Inl (BRequest inst (rp_error rsp)), w2))"

definition region_path :: "'w boot_sys \<Rightarrow> string \<Rightarrow> string \<Rightarrow> string" where
  "region_path sys env channel =
     bs_shared_root sys @ ''/shared/'' @ env @ ''__'' @ channel @ ''.bin''"

definition attach_shared_channel ::
    "'w boot_sys \<Rightarrow> string \<Rightarrow> env_shared_spec \<Rightarrow> ('w, boot_error, unit) act" where
  "attach_shared_channel sys env c =
     a_bind (io_step (bs_create_dir sys (bs_shared_root sys @ ''/shared'')) BSharedRoot) (\<lambda>_.
     if \<not> list_ex (\<lambda>m. sm_instance m = xs_writer c) (xs_members c)
     then a_fail (BWriterNotMember (xs_name c) (xs_writer c))
     else a_for (sort_key (\<lambda>m. sm_instance m \<noteq> xs_writer c) (xs_members c)) (\<lambda>m.
       send_action_success sys (sm_instance m)
         (ISharedAttach (sm_channel m) (region_path sys env (xs_name c))
           (sm_instance m = xs_writer c) (xs_writer c))))"

section \<open>The whole start\<close>

definition env_new :: "env_spec \<Rightarrow> string \<Rightarrow> 'w \<Rightarrow> 'w env" where
  "env_new sp socket_path w =
     \<lparr>ev_name = sp_name sp, ev_socket_path = socket_path, ev_tick_us = 0,
      ev_instances = map is_name (sp_instances sp), ev_catalog = \<lparr>cat_entries = [], cat_index = []\<rparr>,
      ev_workers = [], ev_time = engine_default, ev_backlog = 0, ev_can = [],
      ev_trace = \<lparr>et_active = None, et_last_path = None, et_last_row_count = 0,
        et_last_signal_count = 0, et_last_period_us = None\<rparr>,
      ev_shutdown = False, ev_world = w\<rparr>"

definition bootstrap_connected :: "'w boot_sys \<Rightarrow> env_spec \<Rightarrow> ('w, unit) bact" where
  \<comment> \<open>\<open>bootstrap_inner\<close> once every member runs.\<close>
  "bootstrap_connected sys sp =
     (let names = map is_name (sp_instances sp) in
      a_bind (a_for names (connect_worker sys)) (\<lambda>_.
      a_bind (ask_members sys names (RInstance IInfo)) (\<lambda>infos.
      a_bind (a_lift (join_ticks (sp_name sp) None infos)) (\<lambda>tick.
      a_bind (ask_members sys names (RInstance ISignals)) (\<lambda>sigs.
      a_bind (a_lift (map_res signals_answer sigs)) (\<lambda>instance_signals.
      a_bind (a_lift (build_env_signal_catalog (hm_collect instance_signals))) (\<lambda>catalog.
      a_bind (ask_members sys names (RWorker WCanBuses)) (\<lambda>buses.
      a_bind (a_lift (map_res buses_answer buses)) (\<lambda>instance_buses.
      a_bind (build_buses sys (hm_collect instance_buses) [] (sp_can_buses sp)) (\<lambda>_.
      a_bind (attach_members sys (sp_can_buses sp)) (\<lambda>_.
      a_bind (a_for (sp_shared sp) (\<lambda>c. b_world id (attach_shared_channel sys (sp_name sp) c))) (\<lambda>_.
      a_bind (a_lift (ok_or (BNoInstances (sp_name sp)) tick)) (\<lambda>tick_us.
      a_mod (\<lambda>s. s\<lparr>ev_tick_us := tick_us, ev_catalog := catalog\<rparr>))))))))))))))"

definition bootstrap_inner ::
    "'w boot_sys \<Rightarrow> string \<Rightarrow> env_spec \<Rightarrow> 'w \<Rightarrow> (boot_error + 'w env) \<times> string list \<times> 'w" where
  \<comment> \<open>The result, \<open>started_instances\<close>, and the world.\<close>
  "bootstrap_inner sys socket_path sp w =
     (case start_all sys (sp_instances sp) w of (outs, w1) \<Rightarrow>
      case join_all (bs_join sys outs) of
        (started, Some e) \<Rightarrow> (Inl e, started, w1)
      | (started, None) \<Rightarrow>
          (case bootstrap_connected sys sp (env_new sp socket_path w1) of
             (Inl e, s) \<Rightarrow> (Inl e, started, ev_world s)
           | (Inr _, s) \<Rightarrow> (Inr s, started, ev_world s)))"

fun shutdown_bootstrapped :: "'w boot_sys \<Rightarrow> string list \<Rightarrow> 'w \<Rightarrow> 'w" where
  "shutdown_bootstrapped sys [] w = w"
| "shutdown_bootstrapped sys (n # ns) w =
     (case send_action_success sys n IClose w of
        (Inr _, w1) \<Rightarrow> shutdown_bootstrapped sys ns w1
      | (Inl _, w1) \<Rightarrow> shutdown_bootstrapped sys ns (bs_kill sys n w1))"

definition bootstrap :: "'w boot_sys \<Rightarrow> string \<Rightarrow> env_spec \<Rightarrow> 'w \<Rightarrow> (boot_error + 'w env) \<times> 'w" where
  "bootstrap sys socket_path sp w = (case validate_spec_names sp of
      Inl e \<Rightarrow> (Inl (BName e), w)
    | Inr _ \<Rightarrow>
        (case bootstrap_inner sys socket_path sp w of
           (Inr s, _, w1) \<Rightarrow> (Inr s, w1)
         | (Inl e, started, w1) \<Rightarrow> (Inl e, shutdown_bootstrapped sys started w1)))"

end
