(* ===== verification/Env_Safety.thy ===== *)
theory Env_Safety
  imports Env_Bootstrap
begin

text \<open>
  What holds of every environment that has started: its buses and schedules stay well formed and its
  job identifiers unique over all requests and ticks; a started environment has workers for all its
  members and one tick duration; who is shut down when a start fails.
\<close>

section \<open>The invariant\<close>

definition job_ok :: "string \<Rightarrow> bool \<Rightarrow> string \<Rightarrow> can_schedule_job \<Rightarrow> bool" where
  "job_ok bus fd k j \<longleftrightarrow> sj_id j = k \<and> 0 < sj_every_ticks j \<and> validate_frame bus fd (sj_frame j) = Inr () \<and>
     sj_arb_id j = arb_id (sj_frame j) \<and> sj_flags j = fr_flags (sj_frame j) \<and>
     parse_data_hex (sj_data_hex j) = Inr (payload (sj_frame j))"

definition bus_ok :: "string \<Rightarrow> env_can_bus \<Rightarrow> bool" where
  "bus_ok n b \<longleftrightarrow> eb_name b = n \<and> bt_inv (eb_schedules b) \<and>
     (\<forall>k j. bt_get (eb_schedules b) k = Some j \<longrightarrow> job_ok n (eb_fd_capable b) k j)"

definition has_job :: "env_can_bus \<Rightarrow> string \<Rightarrow> bool" where
  "has_job b k = (bt_get (eb_schedules b) k \<noteq> None)"

definition can_ok :: "(string, env_can_bus) btree \<Rightarrow> bool" where
  "can_ok m \<longleftrightarrow> bt_inv m \<and> (\<forall>n b. bt_get m n = Some b \<longrightarrow> bus_ok n b) \<and>
     (\<forall>n b n' b' k. bt_get m n = Some b \<and> bt_get m n' = Some b' \<and> has_job b k \<and> has_job b' k \<longrightarrow> n = n')"

definition env_trace_ok :: "active_env_trace option \<Rightarrow> bool" where
  "env_trace_ok active = (case active of None \<Rightarrow> True | Some a \<Rightarrow>
     0 < xt_period_ticks a \<and> 0 < xt_period_us a)"

definition env_ok :: "'w env \<Rightarrow> bool" where
  "env_ok s \<longleftrightarrow> ev_tick_us s \<noteq> 0 \<and> engine_inv (ev_time s) \<and> can_ok (ev_can s) \<and>
     hm_inv (ev_workers s) \<and> (\<forall>i \<in> set (ev_instances s). hm_get (ev_workers s) i \<noteq> None) \<and>
     env_trace_ok (et_active (ev_trace s))"

section \<open>Buses\<close>

definition bus_step :: "string \<Rightarrow> (env_can_bus \<Rightarrow> env_can_bus) \<Rightarrow> bool" where
  \<comment> \<open>Keeps a bus well formed and adds no job.\<close>
  "bus_step n f \<longleftrightarrow> (\<forall>b. bus_ok n b \<longrightarrow> bus_ok n (f b) \<and> (\<forall>k. has_job (f b) k \<longrightarrow> has_job b k))"

lemma can_ok_update:
  assumes m: "can_ok m" and f: "bus_step n f"
  shows "can_ok (bt_update n f m)"
proof -
  have old: "\<exists>b0. bt_get m x = Some b0 \<and> bus_ok x b \<and> (\<forall>k. has_job b k \<longrightarrow> has_job b0 k)"
    if b: "bt_get (bt_update n f m) x = Some b" for x b
  proof (cases "x = n")
    case True
    then obtain b0 where "bt_get m n = Some b0" "b = f b0" using b by (auto simp: bt_get_update)
    then show ?thesis using m f True unfolding can_ok_def bus_step_def by blast
  next
    case False
    then have "bt_get m x = Some b" using b by (simp add: bt_get_update)
    then show ?thesis using m unfolding can_ok_def by blast
  qed
  have inv: "bt_inv (bt_update n f m)" using m by (simp add: can_ok_def bt_inv_update)
  have "x = x'" if "bt_get (bt_update n f m) x = Some b" "bt_get (bt_update n f m) x' = Some b'"
      "has_job b k" "has_job b' k" for x b x' b' k
    using old[OF that(1)] old[OF that(2)] that(3,4) m unfolding can_ok_def by blast
  then show ?thesis using inv old unfolding can_ok_def by blast
qed

lemma can_ok_nil: "can_ok []"
  by (simp add: can_ok_def bt_inv_def)

lemma bus_step_frames: "bus_step n (\<lambda>b. foldl record_env_frame b frames)"
proof -
  have "eb_name (foldl record_env_frame b frames) = eb_name b \<and>
      eb_schedules (foldl record_env_frame b frames) = eb_schedules b \<and>
      eb_fd_capable (foldl record_env_frame b frames) = eb_fd_capable b" for b
    by (induction frames arbitrary: b) (auto simp: record_env_frame_def)
  then show ?thesis by (simp add: bus_step_def bus_ok_def has_job_def)
qed

lemma bus_step_frame: "bus_step n (\<lambda>b. record_env_frame b frame)"
  using bus_step_frames[of n "[frame]"] by simp

lemma bus_step_dbc: "bus_step n (\<lambda>b. b\<lparr>eb_dbc := d\<rparr>)"
  by (simp add: bus_step_def bus_ok_def has_job_def)

lemma bus_step_reset: "bus_step n reset_bus"
  by (auto simp: bus_step_def bus_ok_def has_job_def reset_bus_def bt_inv_map_values bt_get_map_values
      job_ok_def)

lemma bus_step_remove: "bus_step n (\<lambda>b. b\<lparr>eb_schedules := bt_remove job (eb_schedules b)\<rparr>)"
  by (auto simp: bus_step_def bus_ok_def has_job_def bt_inv_remove bt_get_remove split: if_splits)

lemma bus_step_change:
  assumes "\<And>fd j. job_ok n fd job j \<Longrightarrow> job_ok n fd job (f j)"
  shows "bus_step n (\<lambda>b. b\<lparr>eb_schedules := bt_update job f (eb_schedules b)\<rparr>)"
  using assms
  by (auto simp: bus_step_def bus_ok_def has_job_def bt_inv_update bt_get_update split: if_splits)

lemma env_ok_bus: "env_ok s \<Longrightarrow> bus_step n f \<Longrightarrow> env_ok (update_bus n f s)"
  by (simp add: env_ok_def update_bus_def can_ok_update)

lemma frame_of_hex:
  assumes "parse_env_frame s n arb hex flags = Inr frame"
  shows "\<exists>b. bt_get (ev_can s) n = Some b \<and> validate_frame (eb_name b) (eb_fd_capable b) frame = Inr () \<and>
    arb_id frame = arb \<and> parse_data_hex hex = Inr (payload frame)"
proof -
  obtain bytes where p: "parse_data_hex hex = Inr bytes"
    and f: "frame = \<lparr>arb_id = arb, fr_len = of_nat (length bytes), fr_flags = flags,
       fr_data = bytes @ replicate (64 - length bytes) 0\<rparr>"
    and v: "validate_env_frame s n frame = Inr ()"
    using assms by (auto simp: parse_env_frame_def res_simps Let_def)
  have len: "length bytes \<le> 64" using parse_data_hex_length[OF p] .
  have "unat (of_nat (length bytes) :: u8) = length bytes" using len by (simp add: unat_of_nat)
  then have "payload frame = bytes" using len by (simp add: f payload_def)
  then show ?thesis using p f v
    by (auto simp: validate_env_frame_def find_bus_state_def res_simps)
qed

section \<open>Primitive actions\<close>

lemma env_ok_world [simp]: "env_ok (s\<lparr>ev_world := w\<rparr>) = env_ok s"
  and env_ok_backlog [simp]: "env_ok (s\<lparr>ev_backlog := b\<rparr>) = env_ok s"
  and env_ok_shutdown [simp]: "env_ok (s\<lparr>ev_shutdown := d\<rparr>) = env_ok s"
  by (simp_all add: env_ok_def)

lemma keeps_in_world [keeps]: "a_keeps env_ok (in_world f m)"
  by (rule a_keepsI) (simp add: in_world_def split: prod.split)

lemma keeps_in_time [keeps]:
  assumes "\<And>e. engine_inv e \<Longrightarrow> engine_inv (snd (m e))"
  shows "a_keeps env_ok (in_time m)"
proof
  fix s assume s: "env_ok s"
  have "engine_inv (snd (m (ev_time s)))" using assms s by (simp add: env_ok_def)
  then show "env_ok (snd (in_time m s))"
    using s by (cases "m (ev_time s)") (simp add: in_time_def env_ok_def)
qed

lemma keeps_begin_request [keeps]: "a_keeps env_ok (begin_request sys n action)"
  by (rule a_keepsI)
    (auto simp: begin_request_def env_ok_def hm.inv_insert hm.get_insert split: option.split prod.split)

lemma keeps_bus [keeps]: "bus_step n f \<Longrightarrow> a_keeps env_ok (a_mod (update_bus n f))"
  by (rule a_keeps_mod) (rule env_ok_bus)

lemma keeps_ask [keeps]:
  "a_keeps env_ok (begin_all sys names action)" "a_keeps env_ok (await_ack p)"
  "a_keeps env_ok (ask_all_ack sys action)"
  unfolding ask_all_ack_def begin_all_def await_ack_def await_def by (intro keeps)+

lemma keeps_observe [keeps]: "a_keeps env_ok (observe_env_bus_frames sys)"
  unfolding observe_env_bus_frames_def observe_bus_def by (intro keeps bus_step_frames)

lemma keeps_send: "a_keeps env_ok (send_env_frame sys n frame)"
  unfolding send_env_frame_def by (intro keeps bus_step_frame)

lemma keeps_discard: "a_keeps env_ok (discard_bus sys n)"
proof
  fix s :: "'a env" assume s: "env_ok s"
  have "env_ok (snd (in_world XSocket m s))" for m :: "('a, socket_error, sim_can_frame list) act"
    by (rule a_keepsD[OF keeps_in_world s])
  then show "env_ok (snd (discard_bus sys n s))"
    using s by (auto simp: discard_bus_def env_ok_bus bus_step_reset split: option.split)
qed

lemma keeps_reset_can [keeps]: "a_keeps env_ok (reset_env_can_state sys)"
  unfolding reset_env_can_state_def by (intro keeps keeps_discard)

lemma keeps_read [keeps]: "a_keeps env_ok (read_grouped sys wanted)"
  "a_keeps env_ok (read_env_trace_values sys signals)"
  unfolding read_env_trace_values_def read_grouped_def read_group_def Let_def await_def
  by (intro keeps; simp add: keeps split: response_data.split)+

lemma env_ok_active: "env_ok s \<Longrightarrow> env_trace_ok a \<Longrightarrow> env_ok (set_env_active a s)"
  and env_ok_env_history: "env_ok s \<Longrightarrow> env_ok (update_env_trace_history s)"
  and env_ok_clear: "env_ok s \<Longrightarrow> env_ok (clear_env_history s)"
  by (auto simp: env_ok_def set_env_active_def update_env_trace_history_def clear_env_history_def
      split: option.split)

section \<open>Ticks\<close>

lemma keeps_env_sample [keeps]: "a_keeps env_ok (sample_env_trace sys t)"
proof -
  have "env_trace_ok (Some (a\<lparr>xt_writer := wr, xt_next_due_tick := d\<rparr>))"
    if "env_ok s" "a_get (\<lambda>s. et_active (ev_trace s)) s = (Inr active, u)" "active = Some a"
    for s u active a wr d
    using that by (auto simp: env_ok_def env_trace_ok_def)
  then show ?thesis
    unfolding sample_env_trace_def Let_def
    by (intro keeps a_keeps_mod env_ok_env_history env_ok_active) blast+
qed

lemma keeps_fire [keeps]: "a_keeps env_ok (fire_schedules sys t)"
proof -
  have "bus_step n (\<lambda>b. b\<lparr>eb_schedules := bt_update job (\<lambda>j. j\<lparr>sj_next_due_tick := d j\<rparr>) (eb_schedules b)\<rparr>)"
    for n job d
    by (rule bus_step_change) (simp add: job_ok_def)
  then show ?thesis
    unfolding fire_schedules_def fire_bus_def fire_schedule_def change_schedule_def
    by (intro keeps bus_step_frames; assumption)
qed

lemma keeps_env_tick [keeps]: "a_keeps env_ok (advance_single_tick sys)"
  unfolding advance_single_tick_def
  by (intro keeps a_keeps_mod) (simp add: env_ok_def engine_inv_ops)

lemma keeps_env_ticks [keeps]: "a_keeps env_ok (advance_due_ticks sys n)"
proof (induction n)
  case (Suc n)
  then show ?case unfolding advance_due_ticks.simps by (intro keeps)
qed (simp add: keeps)

section \<open>Actions\<close>

lemma keeps_guard [keeps]: "a_keeps env_ok (ensure_env_name env)"
  by (simp add: a_keeps_def ensure_env_name_def)

lemma keeps_clear_env_backlog [keeps]: "a_keeps env_ok clear_env_backlog"
  unfolding clear_env_backlog_def by (intro a_keeps_mod) simp

lemma keeps_resolve [keeps]: "a_keeps env_ok (resolve_entries sys selectors)"
  unfolding resolve_entries_def by (intro keeps)

lemma keeps_e_simple:
  "a_keeps env_ok (e_status env)" "a_keeps env_ok (e_reset sys)" "a_keeps env_ok (e_time_start sys)"
  "a_keeps env_ok e_time_pause" "a_keeps env_ok (e_time_speed m)" "a_keeps env_ok (e_time_step sys d)"
  "a_keeps env_ok env_time_status" "a_keeps env_ok e_can_buses"
  "a_keeps env_ok (e_can_load_dbc sys n path)" "a_keeps env_ok (e_can_send sys n arb hex flags)"
  "a_keeps env_ok (e_can_inspect n)" "a_keeps env_ok (e_schedule_list which)"
  "a_keeps env_ok (e_signals sys selectors)" "a_keeps env_ok (e_get sys selectors)"
  "a_keeps env_ok e_close"
  unfolding e_status_def e_reset_def e_time_start_def e_time_pause_def e_time_speed_def e_time_step_def
    env_time_status_def e_can_buses_def e_can_load_dbc_def e_can_send_def e_can_inspect_def
    e_schedule_list_def e_signals_def e_get_def read_env_signal_values_def e_close_def
  by (intro keeps keeps_send bus_step_dbc engine_inv_ops a_keeps_mod; (assumption
      | simp add: env_ok_def te_reset_def engine_inv_default))+

lemma find_Some_set: "find P xs = Some x \<Longrightarrow> x \<in> set xs \<and> P x"
  by (induction xs) (auto split: if_splits)

lemma found_schedule:
  assumes "locate_schedule_bus s job = Inr n"
  shows "\<exists>b. (n, b) \<in> set (ev_can s) \<and> has_job b job"
proof -
  obtain b where "find (\<lambda>(_, bus). bt_get (eb_schedules bus) job \<noteq> None) (ev_can s) = Some (n, b)"
    using assms by (auto simp: locate_schedule_bus_def res_simps simp del: not_None_eq)
  from find_Some_set[OF this] show ?thesis by (auto simp: has_job_def)
qed

lemma keeps_e_schedules:
  "a_keeps env_ok (e_schedule_remove job)" "a_keeps env_ok (e_schedule_stop job)"
  "a_keeps env_ok (e_schedule_start job)"
  unfolding e_schedule_remove_def e_schedule_stop_def e_schedule_start_def with_schedule_def
    change_schedule_def start_schedule_def
  by (intro keeps bus_step_remove bus_step_change; simp add: job_ok_def)+

lemma env_ticks_pos:
  assumes "duration_to_env_ticks tick raw = Inr n"
  shows "0 < n"
proof -
  obtain us where "us \<noteq> 0" "tick \<noteq> 0" "n = div_ceil us (ucast tick)"
    using assms by (auto simp: duration_to_env_ticks_def res_simps split: if_splits)
  then show ?thesis using div_ceil_pos by simp
qed

lemma schedule_job_ok:
  assumes "env_ok s" "duration_to_env_ticks tick every = Inr ticks"
    and "parse_env_frame s n arb hex flags = Inr frame"
  shows "\<exists>b. bt_get (ev_can s) n = Some b \<and> job_ok n (eb_fd_capable b) job
    \<lparr>sj_id = job, sj_arb_id = arb, sj_flags = fr_flags frame, sj_data_hex = hex, sj_frame = frame,
     sj_every_ticks = ticks, sj_next_due_tick = now, sj_enabled = en\<rparr>"
proof -
  obtain b where b: "bt_get (ev_can s) n = Some b" "validate_frame (eb_name b) (eb_fd_capable b) frame = Inr ()"
    "arb_id frame = arb" "parse_data_hex hex = Inr (payload frame)"
    using frame_of_hex[OF assms(3)] by auto
  then have "eb_name b = n" using assms(1) by (auto simp: env_ok_def can_ok_def bus_ok_def)
  then show ?thesis using b env_ticks_pos[OF assms(2)] by (simp add: job_ok_def)
qed

lemma can_ok_add_job:
  assumes m: "can_ok m" and b: "bt_get m n = Some b" and job: "job_ok n (eb_fd_capable b) k j"
    and new: "\<And>n' b'. bt_get m n' = Some b' \<Longrightarrow> \<not> has_job b' k"
  shows "can_ok (bt_update n (\<lambda>b. b\<lparr>eb_schedules := bt_insert k j (eb_schedules b)\<rparr>) m)"
proof -
  let ?f = "\<lambda>b. b\<lparr>eb_schedules := bt_insert k j (eb_schedules b)\<rparr>"
  have bi: "bus_ok n b" using m b by (simp add: can_ok_def)
  have fb: "bus_ok n (?f b)"
    using bi job by (auto simp: bus_ok_def bt_inv_insert bt_get_insert split: if_splits)
  have fj: "has_job (?f b) k' \<longleftrightarrow> k' = k \<or> has_job b k'" for k'
    using bi by (simp add: has_job_def bus_ok_def bt_get_insert)
  have get: "bt_get (bt_update n ?f m) x = (if x = n then Some (?f b) else bt_get m x)" for x
    using b by (simp add: bt_get_update)
  have inv: "bt_inv (bt_update n ?f m)" using m by (simp add: can_ok_def bt_inv_update)
  have ok: "bus_ok x c" if "bt_get (bt_update n ?f m) x = Some c" for x c
    using that fb m unfolding get can_ok_def by (auto split: if_splits)
  have jobs: "\<exists>c0. bt_get m x = Some c0 \<and> (has_job c k' \<longleftrightarrow> (x = n \<and> k' = k) \<or> has_job c0 k')"
    if "bt_get (bt_update n ?f m) x = Some c" for x c k'
    using that fj b unfolding get by (auto split: if_splits)
  have "x = x'" if c: "bt_get (bt_update n ?f m) x = Some c" "bt_get (bt_update n ?f m) x' = Some c'"
      "has_job c k'" "has_job c' k'" for x c x' c' k'
    using jobs[OF c(1), of k'] jobs[OF c(2), of k'] c(3,4) m new unfolding can_ok_def by blast
  then show ?thesis using inv ok unfolding can_ok_def by blast
qed

lemma unique_job:
  assumes "ensure_unique_schedule_job_id s job = Inr ()" "bt_get (ev_can s) n = Some b"
  shows "\<not> has_job b job"
proof -
  have "\<not> list_ex (\<lambda>(_, bus). bt_get (eb_schedules bus) job \<noteq> None) (ev_can s)"
    using assms(1) by (simp add: ensure_unique_schedule_job_id_def guard_err_def split: if_splits)
  then show ?thesis using map_of_SomeD[OF assms(2)] by (auto simp: list_ex_iff has_job_def)
qed

lemma a_keeps_result: "(\<And>s r t. P s \<Longrightarrow> m s = (r, t) \<Longrightarrow> P t) \<Longrightarrow> a_keeps P m"
  by (metis a_keepsI prod.collapse)

lemma new_job_id_world:
  "(case job_id of Some j \<Rightarrow> a_ret j
     | None \<Rightarrow> in_world id (\<lambda>w. case es_uuid sys w of (i, w') \<Rightarrow> (Inr (es_uuid_text sys i), w'))) s = (r, t)
   \<Longrightarrow> \<exists>w. t = s\<lparr>ev_world := w\<rparr>"
  by (cases job_id) (auto simp: in_world_def split: prod.splits intro: exI[of _ "ev_world s"])

lemma keeps_schedule_add: "a_keeps env_ok (e_schedule_add sys n job_id arb hex every flags)"
proof (rule a_keeps_result)
  fix s :: "'a env" and r t
  assume s: "env_ok s" and run: "e_schedule_add sys n job_id arb hex every flags s = (r, t)"
  let ?flags = "case flags of Some f \<Rightarrow> f | None \<Rightarrow> 0"
  consider "t = s" | ticks frame job u where
      "duration_to_env_ticks (ev_tick_us s) every = Inr ticks"
      "parse_env_frame s n arb hex ?flags = Inr frame"
      "\<exists>w. u = s\<lparr>ev_world := w\<rparr>"
      "t = u \<or> ensure_unique_schedule_job_id u job = Inr () \<and>
        t = update_bus n (\<lambda>b. b\<lparr>eb_schedules := bt_insert job
          \<lparr>sj_id = job, sj_arb_id = arb, sj_flags = fr_flags frame, sj_data_hex = hex, sj_frame = frame,
           sj_every_ticks = ticks, sj_next_due_tick = elapsed u, sj_enabled = True\<rparr> (eb_schedules b)\<rparr>) u"
    using run new_job_id_world[of sys job_id s]
    unfolding e_schedule_add_def a_bind_cases by (fastforce simp: act_simps)
  then show "env_ok t"
  proof cases
    case 2
    obtain w where u: "u = s\<lparr>ev_world := w\<rparr>" using 2(3) by auto
    show ?thesis
    proof (cases "t = u")
      case False
      with 2(4) have uniq: "ensure_unique_schedule_job_id u job = Inr ()"
        and t: "t = update_bus n (\<lambda>b. b\<lparr>eb_schedules := bt_insert job
          \<lparr>sj_id = job, sj_arb_id = arb, sj_flags = fr_flags frame, sj_data_hex = hex, sj_frame = frame,
           sj_every_ticks = ticks, sj_next_due_tick = elapsed u, sj_enabled = True\<rparr> (eb_schedules b)\<rparr>) u"
        by auto
      obtain b where b: "bt_get (ev_can s) n = Some b" "job_ok n (eb_fd_capable b) job
          \<lparr>sj_id = job, sj_arb_id = arb, sj_flags = fr_flags frame, sj_data_hex = hex, sj_frame = frame,
           sj_every_ticks = ticks, sj_next_due_tick = elapsed u, sj_enabled = True\<rparr>"
        using schedule_job_ok[OF s 2(1,2)] by blast
      have "can_ok (ev_can t)"
        using can_ok_add_job[OF _ b] unique_job[OF uniq] s
        by (simp add: t u update_bus_def env_ok_def)
      then show ?thesis using s by (simp add: t u update_bus_def env_ok_def)
    qed (use s u in simp)
  qed (use s in simp)
qed

lemma keeps_schedule_update: "a_keeps env_ok (e_schedule_update job arb hex every flags)"
proof (rule a_keeps_result)
  fix s :: "'a env" and r t
  assume s: "env_ok s" and run: "e_schedule_update job arb hex every flags s = (r, t)"
  let ?flags = "case flags of Some f \<Rightarrow> f | None \<Rightarrow> 0"
  consider "t = s" | ticks frame n where
      "duration_to_env_ticks (ev_tick_us s) every = Inr ticks"
      "parse_env_frame s n arb hex ?flags = Inr frame"
      "t = change_schedule n job (update_schedule arb hex frame ticks (elapsed s)) s"
    using run unfolding e_schedule_update_def a_bind_cases by (fastforce simp: act_simps)
  then show "env_ok t"
  proof cases
    case 2
    obtain b where b: "bt_get (ev_can s) n = Some b"
      and new: "job_ok n (eb_fd_capable b) job \<lparr>sj_id = job, sj_arb_id = arb, sj_flags = fr_flags frame,
        sj_data_hex = hex, sj_frame = frame, sj_every_ticks = ticks, sj_next_due_tick = elapsed s,
        sj_enabled = True\<rparr>"
      using schedule_job_ok[OF s 2(1,2)] by blast
    let ?f = "update_schedule arb hex frame ticks (elapsed s)"
    let ?g = "\<lambda>b. b\<lparr>eb_schedules := bt_update job ?f (eb_schedules b)\<rparr>"
    let ?h = "\<lambda>c. if c = b then ?g c else c"
    have "bus_step n ?h"
    proof -
      have "job_ok n (eb_fd_capable b) job (?f j)" if "job_ok n (eb_fd_capable b) job j" for j
        using new that by (simp add: job_ok_def update_schedule_def)
      then show ?thesis
        by (auto simp: bus_step_def bus_ok_def has_job_def bt_inv_update bt_get_update split: if_splits)
    qed
    moreover have "c = b" if "(n, c) \<in> set (ev_can s)" for c
      using s b that unfolding env_ok_def can_ok_def bt_inv_def
      by (metis eq_key_imp_eq_value map_of_SomeD)
    then have "bt_update n ?h (ev_can s) = bt_update n ?g (ev_can s)"
      by (auto simp: bt_update_def)
    ultimately show ?thesis using env_ok_bus[OF s, of n ?h]
      by (simp add: 2(3) change_schedule_def update_bus_def)
  qed (use s in simp)
qed

lemma keeps_env_traces:
  "a_keeps env_ok (start_env_trace sys path period)" "a_keeps env_ok (stop_env_trace sys)"
  "a_keeps env_ok (clear_env_trace sys)" "a_keeps env_ok (a_get env_trace_status)"
proof -
  have "env_trace_ok (Some \<lparr>xt_writer = wr, xt_period_ticks = div_ceil us (ucast tick),
      xt_period_us = us, xt_next_due_tick = d, xt_signals = sigs\<rparr>)"
    if "a_lift (env_trace_period period) s1 = (Inr us, t1)" "env_ok s2"
      "a_get (\<lambda>s. (ev_tick_us s, cat_entries (ev_catalog s), env_status s)) s2 = (Inr x, t2)"
      "x = (tick, y)"
    for s1 :: "'a env" and us t1 and s2 :: "'a env" and x t2 tick y wr d sigs
    using that div_ceil_pos[of us tick]
    by (auto simp: env_trace_period_def res_simps env_ok_def env_trace_ok_def word_gt_0 split: if_splits)
  then show "a_keeps env_ok (start_env_trace sys path period)"
    unfolding start_env_trace_def Let_def
    by (intro keeps a_keeps_mod env_ok_env_history env_ok_active; blast)
  show "a_keeps env_ok (stop_env_trace sys)"
    unfolding stop_env_trace_def
    by (intro keeps a_keeps_mod env_ok_env_history env_ok_active) (auto simp: env_trace_ok_def)
  show "a_keeps env_ok (clear_env_trace sys)"
    unfolding clear_env_trace_def remove_env_trace_file_def
    by (intro keeps a_keeps_mod env_ok_clear env_ok_active) (auto simp: env_trace_ok_def)
  show "a_keeps env_ok (a_get env_trace_status)" by (intro keeps)
qed

lemma keeps_env_action: "a_keeps env_ok (dispatch_env_action sys a)"
  by (cases a)
    (auto simp only: dispatch_env_action.simps named_def then_env_trace_status_def
      intro!: keeps keeps_e_simple keeps_e_schedules keeps_schedule_add keeps_schedule_update
        keeps_env_traces)

lemma env_ok_action:
  assumes "env_ok s"
  shows "env_ok (snd (handle_env_action sys rq s))"
proof -
  let ?m = "case rq_action rq of REnv a \<Rightarrow> dispatch_env_action sys a | _ \<Rightarrow> a_fail XInstanceAction"
  have "a_keeps env_ok ?m" by (cases "rq_action rq") (auto intro: keeps_env_action keeps)
  note ok = a_keepsD[OF this assms]
  obtain r t where r: "?m s = (r, t)" by fastforce
  show ?thesis using ok by (cases r) (simp_all add: handle_env_action_def r)
qed

lemma env_ok_poll:
  assumes "env_ok s"
  shows "env_ok (poll_env_backlog sys s)"
proof -
  obtain now w where now: "sys_now (es_base sys) (ev_world s) = (now, w)" by fastforce
  obtain due e where due: "tick_realtime_due (ev_tick_us s) now (ev_time s) = (due, e)" by fastforce
  have "engine_inv e" using engine_inv_due[of "ev_time s" "ev_tick_us s" now] assms due
    by (simp add: env_ok_def)
  then show ?thesis using assms by (simp add: poll_env_backlog_def now due env_ok_def)
qed

lemma env_ok_run:
  assumes "env_ok s"
  shows "env_ok (run_env_backlog sys s)"
proof -
  let ?n = "unat (min (ev_backlog s) MAX_ENV_TICKS_PER_TURN)"
  obtain r t where r: "advance_due_ticks sys ?n s = (r, t)" by fastforce
  have "env_ok t" using a_keepsD[OF keeps_env_ticks assms, of sys ?n] r by simp
  then show ?thesis by (cases r) (simp_all add: run_env_backlog_def Let_def r)
qed

inductive env_step :: "'w env_sys \<Rightarrow> 'w env \<Rightarrow> 'w env \<Rightarrow> bool" for sys where
  es_action: "env_step sys s (snd (handle_env_action sys rq s))"
| es_poll: "env_step sys s (poll_env_backlog sys s)"
| es_run: "env_step sys s (run_env_backlog sys s)"
| es_world: "env_step sys s (s\<lparr>ev_world := w\<rparr>)"

inductive_cases env_stepE: "env_step sys s t"

lemma env_step_ok: "env_step sys s t \<Longrightarrow> env_ok s \<Longrightarrow> env_ok t"
  by (elim env_stepE) (auto simp only: env_ok_world intro: env_ok_action env_ok_poll env_ok_run)

section \<open>Starting an environment\<close>

text \<open>The environment under construction, with workers for the members in \<open>A\<close>.\<close>

definition boot_ok :: "env_spec \<Rightarrow> string list \<Rightarrow> 'w env \<Rightarrow> bool" where
  "boot_ok sp A s \<longleftrightarrow> ev_name s = sp_name sp \<and> ev_instances s = map is_name (sp_instances sp) \<and>
     env_ok (s\<lparr>ev_tick_us := 1, ev_instances := A\<rparr>)"

text \<open>What holds after a successful action.\<close>

definition a_gives :: "('s \<Rightarrow> bool) \<Rightarrow> ('s, 'e, 'a) act \<Rightarrow> ('a \<Rightarrow> 's \<Rightarrow> bool) \<Rightarrow> bool" where
  "a_gives P m Q \<longleftrightarrow> (\<forall>s x t. P s \<longrightarrow> m s = (Inr x, t) \<longrightarrow> Q x t)"

lemma a_givesD: "a_gives P m Q \<Longrightarrow> P s \<Longrightarrow> m s = (Inr x, t) \<Longrightarrow> Q x t"
  by (simp add: a_gives_def)

lemma a_gives_bind: "a_gives P m Q \<Longrightarrow> (\<And>x. a_gives (Q x) (f x) R) \<Longrightarrow> a_gives P (a_bind m f) R"
  by (auto simp: a_gives_def a_bind_Inr)

lemma a_gives_keeps: "a_keeps P m \<Longrightarrow> a_gives P m (\<lambda>_. P)"
  by (auto simp: a_gives_def a_keeps_def)

lemma a_gives_lift: "a_gives P (a_lift r) (\<lambda>x s. P s \<and> r = Inr x)"
  by (simp add: a_gives_def a_lift_def)

lemma a_gives_if_fact: "(F \<Longrightarrow> a_gives P m Q) \<Longrightarrow> a_gives (\<lambda>s. P s \<and> F) m Q"
  by (auto simp: a_gives_def)

lemma boot_ok_new: "boot_ok sp [] (env_new sp path w)"
  by (simp add: boot_ok_def env_ok_def env_new_def engine_inv_default can_ok_nil hm_inv_def env_trace_ok_def)

lemma boot_keeps_world [keeps]: "a_keeps (boot_ok sp A) (b_world f m)"
  by (rule a_keepsI) (auto simp: b_world_def boot_ok_def env_ok_def split: prod.split)

lemma boot_keeps_begin [keeps]: "a_keeps (boot_ok sp A) (begin_request sys n action)"
  by (rule a_keepsI)
    (auto simp: begin_request_def boot_ok_def env_ok_def hm.inv_insert hm.get_insert
      split: option.split prod.split)

lemma boot_keeps_ask [keeps]: "a_keeps (boot_ok sp A) (ask_members sys names action)"
  "a_keeps (boot_ok sp A) (attach_member sys iface m)"
  unfolding ask_members_def begin_all_def attach_member_def await_ack_def await_def by (intro keeps)+

lemma can_ok_insert_bus:
  assumes m: "can_ok m" and b: "bus_ok n b" "\<And>k. \<not> has_job b k"
  shows "can_ok (bt_insert n b m)"
  using m b unfolding can_ok_def
  by (auto simp: bt_inv_insert bt_get_insert split: if_splits) metis

lemma boot_keeps_buses: "a_keeps (boot_ok sp A) (build_buses sys ib attached bs)"
proof (induction bs arbitrary: attached)
  case (Cons b bs)
  have mod: "boot_ok sp A (s\<lparr>ev_can := bt_insert n \<lparr>eb_name = n, eb_iface = i, eb_fd_capable = fd,
      eb_bitrate = r, eb_bitrate_data = rd, eb_dbc = dbc, eb_frames = [], eb_schedules = []\<rparr> (ev_can s)\<rparr>)"
    if "boot_ok sp A s" for s n i fd r rd dbc
    using that by (auto simp: boot_ok_def env_ok_def bus_ok_def has_job_def bt_inv_def
        intro!: can_ok_insert_bus)
  have "a_keeps (boot_ok sp A) (build_bus sys ib attached b)" for attached
    unfolding build_bus_def load_bus_dbc_def case_prod_beta by (intro keeps a_keeps_mod mod)
  then show ?case using Cons unfolding build_buses.simps by (intro keeps)
qed (simp add: keeps)

lemma boot_keeps_attach: "a_keeps (boot_ok sp A) (attach_members sys bs)"
  unfolding attach_members_def by (intro keeps)

lemma connect_all:
  "boot_ok sp A s \<Longrightarrow> a_for names (connect_worker sys) s = (Inr u, t) \<Longrightarrow> boot_ok sp (A @ names) t"
proof (induction names arbitrary: A s)
  case (Cons n names)
  obtain s1 where 1: "connect_worker sys n s = (Inr (), s1)"
    and rest: "a_for names (connect_worker sys) s1 = (Inr u, t)"
    using Cons.prems(2) by (auto simp: a_bind_Inr)
  obtain w where "s1 = s\<lparr>ev_world := w, ev_workers := hm_insert n True (ev_workers s)\<rparr>"
    using 1 by (auto simp: connect_worker_def a_bind_Inr b_world_def split: prod.splits)
  then have "boot_ok sp (A @ [n]) s1"
    using Cons.prems(1) by (auto simp: boot_ok_def env_ok_def hm.inv_insert hm.get_insert)
  from Cons.IH[OF this rest] show ?case by simp
qed simp

lemma join_tick_Inr:
  "join_tick env tick (n, r) = Inr tick' \<longleftrightarrow> (\<exists>lib us c. r = Inr (ProjectInfo lib us c) \<and> us \<noteq> 0 \<and>
     (tick = None \<or> tick = Some us) \<and> tick' = Some us)"
proof (cases r)
  case (Inr d)
  then show ?thesis
    by (cases d) (auto simp: join_tick_def validate_env_tick_duration_us_def map_err_def res_bind_def
        split: option.splits)
qed (simp add: join_tick_def map_err_def res_bind_def)

lemma join_ticks_same:
  assumes "join_ticks env tick as = Inr (Some us)" "tick \<noteq> Some 0"
  shows "us \<noteq> 0 \<and> (\<forall>(n, r) \<in> set as. \<exists>lib c. r = Inr (ProjectInfo lib us c))"
proof -
  have "join_ticks env tick as = Inr tick' \<Longrightarrow> tick \<noteq> Some 0 \<Longrightarrow>
      tick' \<noteq> Some 0 \<and> (tick \<noteq> None \<longrightarrow> tick' = tick) \<and>
      (\<forall>(n, r) \<in> set as. \<exists>lib us c. tick' = Some us \<and> r = Inr (ProjectInfo lib us c))" for tick'
  proof (induction env tick as rule: join_ticks.induct)
    case (2 env tick a as)
    obtain n r where "a = (n, r)" by (cases a)
    with 2 show ?case by (fastforce simp: res_simps join_tick_Inr)
  qed simp
  from this[OF assms] show ?thesis by fastforce
qed

lemma boot_connected_ok:
  "a_gives (boot_ok sp []) (bootstrap_connected sys sp) (\<lambda>_. env_ok)"
  "a_gives (boot_ok sp []) (bootstrap_connected sys sp)
     (\<lambda>_ s. ev_name s = sp_name sp \<and> ev_instances s = map is_name (sp_instances sp))"
proof -
  let ?A = "map is_name (sp_instances sp)"
  have connect: "a_gives (boot_ok sp []) (a_for ?A (connect_worker sys)) (\<lambda>_. boot_ok sp ?A)"
    using connect_all[of sp "[]" _ ?A sys] by (auto simp: a_gives_def)
  have last: "a_gives (boot_ok sp ?A) (a_mod (\<lambda>s. s\<lparr>ev_tick_us := us, ev_catalog := c\<rparr>))
      (\<lambda>_ s. env_ok s \<and> ev_name s = sp_name sp \<and> ev_instances s = ?A)" if "us \<noteq> 0" for us c
    using that by (auto simp: a_gives_def boot_ok_def env_ok_def)
  have tick: "us \<noteq> 0" if "join_ticks (sp_name sp) None infos = Inr tick" "ok_or e tick = Inr us"
    for infos tick us and e :: boot_error
    using join_ticks_same[of "sp_name sp" None infos us] that by (auto simp: ok_or_Inr)
  have all: "a_gives (boot_ok sp []) (bootstrap_connected sys sp)
      (\<lambda>_ s. env_ok s \<and> ev_name s = sp_name sp \<and> ev_instances s = ?A)"
    unfolding bootstrap_connected_def Let_def
    by (rule connect a_gives_bind a_gives_if_fact a_gives_lift
        | rule a_gives_keeps, (rule boot_keeps_ask boot_keeps_buses boot_keeps_attach keeps)+
        | rule last, rule tick, assumption+)+
  then show "a_gives (boot_ok sp []) (bootstrap_connected sys sp) (\<lambda>_. env_ok)"
    and "a_gives (boot_ok sp []) (bootstrap_connected sys sp)
     (\<lambda>_ s. ev_name s = sp_name sp \<and> ev_instances s = map is_name (sp_instances sp))"
    by (auto simp: a_gives_def)
qed

end
