(* ===== verification/Env_Fleet.thy ===== *)
theory Env_Fleet
  imports Env_Safety
begin

text \<open>
  The environment daemon and the instance daemons together: the exchange of a worker is the member's
  own \<open>handle_action\<close> on its state. What the members' clocks do when the environment advances.
\<close>

section \<open>A fleet of daemons\<close>

record 'v fleet =
  fl_outer :: 'v  \<comment> \<open>the world all the processes share\<close>
  fl_daemons :: "(string, 'v daemon) hmap"

definition fleet_ask ::
    "'v daemon_sys \<Rightarrow> string \<Rightarrow> request \<Rightarrow> 'v fleet \<Rightarrow> worker_reply \<times> 'v fleet" where
  "fleet_ask dsys name rq w = (case hm_get (fl_daemons w) name of
      None \<Rightarrow> (ConnectionClosed, w)
    | Some d \<Rightarrow>
        if dm_shutdown d then (ConnectionClosed, w)
        else case handle_action dsys rq (d\<lparr>dm_world := fl_outer w\<rparr>) of (rsp, d') \<Rightarrow>
          (Reply rsp, \<lparr>fl_outer = dm_world d', fl_daemons = hm_insert name d' (fl_daemons w)\<rparr>))"

text \<open>Everything else the environment does leaves the daemons' states alone.\<close>

definition spares :: "('v fleet \<Rightarrow> 'a \<times> 'v fleet) \<Rightarrow> bool" where
  "spares f = (\<forall>w. fl_daemons (snd (f w)) = fl_daemons w)"

definition fleet_env :: "'v fleet env_sys \<Rightarrow> 'v daemon_sys \<Rightarrow> bool" where
  "fleet_env sys dsys \<longleftrightarrow> es_ask sys = fleet_ask dsys \<and> spares (es_uuid sys) \<and>
     (\<forall>iface. spares (sys_can_recv (es_base sys) iface)) \<and>
     (\<forall>iface f. spares (sys_can_send (es_base sys) iface f)) \<and>
     (\<forall>path t. spares (fs_write (sys_files (es_base sys)) path t))"

definition member_time :: "'v fleet \<Rightarrow> string \<Rightarrow> time_engine option" where
  "member_time w i = map_option dm_time (hm_get (fl_daemons w) i)"

section \<open>Single requests\<close>

lemma tick_keeps_time: "dm_time (snd (advance_single_project_tick sys s)) = dm_time s"
proof -
  have "steady (dm_project s) (\<lambda>_. 0) (dm_time s) (dm_backlog s) 0 s" by (simp add: steady_def)
  from a_keepsD[OF tick_keeps_backlog this, of sys] show ?thesis by (simp add: steady_def)
qed

lemma step_time:
  assumes "dispatch_worker_action sys WStep s = (r, t)"
  shows "dm_time t = (if is_ok r then advance_ticks 1 (dm_time s) else dm_time s)"
proof -
  obtain r1 s1 where 1: "advance_single_project_tick sys s = (r1, s1)" by fastforce
  have "dm_time s1 = dm_time s" using tick_keeps_time[of sys s] 1 by simp
  then show ?thesis using assms 1
    by (cases r1) (auto simp: w_step_def a_bind_def a_map_err_def count_tick_def)
qed

lemma read_time: "dm_time (snd (dispatch_worker_action sys (WReadSignals ids) s)) = dm_time s"
proof -
  have "a_keeps (\<lambda>s'. dm_time s' = dm_time s) (on_world f m)" for f :: "'e \<Rightarrow> daemon_error" and m :: "('w, 'e, 'x) act"
    by (auto simp: a_keeps_def on_world_def split: prod.split)
  then have "a_keeps (\<lambda>s'. dm_time s' = dm_time s) (dispatch_worker_action sys (WReadSignals ids))"
    unfolding dispatch_worker_action.simps read_signal_values_by_ids_def check_read_value_def signal_of_id_def
    by (intro keeps)
  from a_keepsD[OF this] show ?thesis by simp
qed

lemma response_ok_result:
  "is_ok (worker_result i (Reply (fst (handle_action sys rq s)))) \<Longrightarrow>
     is_ok (fst (dispatch_action sys (rq_action rq) s))"
  by (auto simp: worker_result_def handle_action_def response_ok_def response_err_def
      split: prod.splits sum.splits if_splits)

lemma handle_action_state: "snd (handle_action sys rq s) = snd (dispatch_action sys (rq_action rq) s)"
  by (auto simp: handle_action_def split: prod.split sum.split)

lemma exchange_step:
  assumes fl: "fleet_env sys dsys" and x: "worker_exchange sys i (RWorker WStep) w = (r, w')"
  shows "(\<forall>j. j \<noteq> i \<longrightarrow> member_time w' j = member_time w j) \<and>
    (member_time w' i = member_time w i \<or> member_time w' i = map_option (advance_ticks 1) (member_time w i)) \<and>
    (is_ok r \<longrightarrow> member_time w' i = map_option (advance_ticks 1) (member_time w i))"
proof -
  obtain u w1 where u: "es_uuid sys w = (u, w1)" by fastforce
  have same: "fl_daemons w1 = fl_daemons w"
    using fl u unfolding fleet_env_def spares_def by (metis snd_conv)
  let ?rq = "\<lparr>rq_id = u, rq_action = RWorker WStep\<rparr>"
  have run: "(r, w') = (case fleet_ask dsys i ?rq w1 of (reply, w2) \<Rightarrow> (worker_result u reply, w2))"
    using x u fl by (simp add: worker_exchange_def fleet_env_def)
  show ?thesis
  proof (cases "\<exists>d. hm_get (fl_daemons w) i = Some d \<and> \<not> dm_shutdown d")
    case False
    then have "w' = w1 \<and> \<not> is_ok r"
      using run same by (auto simp: fleet_ask_def worker_result_def split: option.splits)
    then show ?thesis using same by (simp add: member_time_def)
  next
    case True
    then obtain d where d: "hm_get (fl_daemons w) i = Some d" "\<not> dm_shutdown d" by auto
    let ?d = "d\<lparr>dm_world := fl_outer w1\<rparr>"
    obtain res d' where act: "dispatch_worker_action dsys WStep ?d = (res, d')" by fastforce
    have w': "w' = \<lparr>fl_outer = dm_world d', fl_daemons = hm_insert i d' (fl_daemons w)\<rparr>"
      and r: "r = worker_result u (Reply (fst (handle_action dsys ?rq ?d)))"
      using run d same act handle_action_state[of dsys ?rq ?d]
      by (auto simp: fleet_ask_def dispatch_action_def split: prod.splits)
    have "is_ok r \<longrightarrow> is_ok res"
      using response_ok_result[of u dsys ?rq ?d] r act by (simp add: dispatch_action_def)
    moreover have "dm_time d' = (if is_ok res then advance_ticks 1 (dm_time d) else dm_time d)"
      using step_time[OF act] by simp
    ultimately show ?thesis using d by (auto simp: w' member_time_def hm_insert_def update_conv')
  qed
qed

lemma exchange_read:
  assumes fl: "fleet_env sys dsys" and x: "worker_exchange sys i (RWorker (WReadSignals ids)) w = (r, w')"
  shows "member_time w' = member_time w"
proof -
  obtain u w1 where u: "es_uuid sys w = (u, w1)" by fastforce
  have same: "fl_daemons w1 = fl_daemons w"
    using fl u unfolding fleet_env_def spares_def by (metis snd_conv)
  let ?rq = "\<lparr>rq_id = u, rq_action = RWorker (WReadSignals ids)\<rparr>"
  have run: "w' = snd (fleet_ask dsys i ?rq w1)"
    using x u fl by (auto simp: worker_exchange_def fleet_env_def split: prod.splits)
  show ?thesis
  proof (cases "hm_get (fl_daemons w) i")
    case None
    then show ?thesis using run same by (auto simp: fleet_ask_def member_time_def)
  next
    case (Some d)
    have "dm_time (snd (handle_action dsys ?rq (d\<lparr>dm_world := fl_outer w1\<rparr>))) = dm_time d"
      using read_time[of dsys ids] by (simp add: handle_action_state dispatch_action_def)
    then show ?thesis using run same Some
      by (auto simp: fleet_ask_def member_time_def hm_insert_def update_conv' split: prod.splits)
  qed
qed

section \<open>Everything but the step leaves the clocks alone\<close>

definition calm :: "(string \<Rightarrow> time_engine option) \<Rightarrow> string list \<Rightarrow> time_engine \<Rightarrow> 'v fleet env \<Rightarrow> bool" where
  "calm m ins e s \<longleftrightarrow> member_time (ev_world s) = m \<and> ev_instances s = ins \<and> ev_time s = e \<and> \<not> ev_shutdown s"

lemma calm_world:
  fixes m :: "('v fleet, 'e, 'x) act"
  assumes "\<And>w. fl_daemons (snd (m w)) = fl_daemons w"
  shows "a_keeps (calm mt ins e) (in_world f m)"
proof
  fix s :: "'v fleet env" assume "calm mt ins e s"
  moreover have "fl_daemons (snd (m (ev_world s))) = fl_daemons (ev_world s)" by (rule assms)
  ultimately show "calm mt ins e (snd (in_world f m s))"
    by (cases "m (ev_world s)") (auto simp: calm_def in_world_def member_time_def fun_eq_iff)
qed

lemma calm_mod:
  "(\<And>s. ev_world (g s) = ev_world s \<and> ev_instances (g s) = ev_instances s \<and> ev_time (g s) = ev_time s \<and>
     ev_shutdown (g s) = ev_shutdown s) \<Longrightarrow> a_keeps (calm m ins e) (a_mod g)"
  by (auto simp: a_keeps_def calm_def)

lemma calm_bus: "a_keeps (calm m ins e) (a_mod (update_bus n f))"
  by (rule calm_mod) (simp add: update_bus_def)

lemma calm_read:
  fixes sys :: "'v fleet env_sys"
  assumes "fleet_env sys dsys"
  shows "a_keeps (calm m ins e) (begin_request sys i (RWorker (WReadSignals ids)))"
proof
  fix s :: "'v fleet env" assume s: "calm m ins e s"
  obtain r w where x: "worker_exchange sys i (RWorker (WReadSignals ids)) (ev_world s) = (r, w)" by fastforce
  show "calm m ins e (snd (begin_request sys i (RWorker (WReadSignals ids)) s))"
    using s x exchange_read[OF assms x] by (auto simp: begin_request_def calm_def split: option.split)
qed

lemma calm_phases:
  assumes fl: "fleet_env sys dsys"
  shows "a_keeps (calm m ins e) (observe_env_bus_frames sys)"
    and "a_keeps (calm m ins e) (fire_schedules sys t)"
    and "a_keeps (calm m ins e) (sample_env_trace sys t)"
proof -
  have recv: "a_keeps (calm m ins e) (in_world XSocket (socket_recv (es_base sys) iface))" for iface
    using fl by (intro calm_world) (auto simp: fleet_env_def spares_def socket_recv_def split: prod.split; metis snd_conv)
  have send: "a_keeps (calm m ins e) (in_world XSocket (socket_send (es_base sys) iface f))" for iface f
    using fl by (intro calm_world)
      (auto simp: fleet_env_def spares_def socket_send_def send_frame_def split: prod.split; metis snd_conv)
  have put: "a_keeps (\<lambda>w. fl_daemons w = d) (io_step (fs_write (sys_files (es_base sys)) path x) err)" for path x err d
    using fl by (auto simp: a_keeps_def fleet_env_def spares_def io_step_def split: prod.split; metis snd_conv)
  have "a_keeps (\<lambda>w. fl_daemons w = d) (csv_write_row (sys_files (es_base sys)) wr x us vals)" for wr x us vals d
    unfolding csv_write_row_def Let_def by (intro keeps put)
  note kept = this
  have row: "a_keeps (calm m ins e) (in_world XTrace (csv_write_row (sys_files (es_base sys)) wr x us vals))" for wr x us vals
    by (rule calm_world) (rule a_keepsD[OF kept refl])
  have hist: "a_keeps (calm m ins e) (a_mod (\<lambda>s. update_env_trace_history (set_env_active a s)))" for a
    by (rule calm_mod) (simp add: update_env_trace_history_def set_env_active_def split: option.split)
  show "a_keeps (calm m ins e) (observe_env_bus_frames sys)"
    unfolding observe_env_bus_frames_def observe_bus_def by (intro keeps recv calm_bus)
  show "a_keeps (calm m ins e) (fire_schedules sys t)"
    unfolding fire_schedules_def fire_bus_def fire_schedule_def change_schedule_def
    by (intro keeps send calm_bus)
  show "a_keeps (calm m ins e) (sample_env_trace sys t)"
    unfolding sample_env_trace_def read_env_trace_values_def read_grouped_def read_group_def await_def Let_def
    by (intro keeps row hist calm_read[OF fl]; simp add: keeps split: response_data.split)
qed

section \<open>A round of steps\<close>

definition same_clock :: "'v fleet env \<Rightarrow> 'v fleet env \<Rightarrow> bool" where
  "same_clock s t \<longleftrightarrow> ev_instances t = ev_instances s \<and> ev_time t = ev_time s \<and> ev_shutdown t = ev_shutdown s"

definition ticked :: "'v fleet env \<Rightarrow> 'v fleet env \<Rightarrow> string \<Rightarrow> bool" where
  "ticked s t i \<longleftrightarrow> member_time (ev_world t) i = map_option (advance_ticks 1) (member_time (ev_world s) i)"

definition still :: "'v fleet env \<Rightarrow> 'v fleet env \<Rightarrow> string \<Rightarrow> bool" where
  "still s t i \<longleftrightarrow> member_time (ev_world t) i = member_time (ev_world s) i"

lemma clock_trans:
  "still s s1 i \<Longrightarrow> still s1 t i \<Longrightarrow> still s t i"
  "still s s1 i \<Longrightarrow> ticked s1 t i \<Longrightarrow> ticked s t i"
  "ticked s s1 i \<Longrightarrow> still s1 t i \<Longrightarrow> ticked s t i"
  by (simp_all add: still_def ticked_def)

lemma begin_step:
  assumes fl: "fleet_env sys dsys" and b: "begin_request sys i (RWorker WStep) s = (r, t)"
  shows "same_clock s t \<and> (\<forall>j. j \<noteq> i \<longrightarrow> still s t j) \<and> (still s t i \<or> ticked s t i) \<and>
    (\<forall>a. r = Inr a \<longrightarrow> is_ok a \<longrightarrow> ticked s t i)"
proof (cases "hm_get (ev_workers s) i = Some True")
  case False
  then have "t = s \<and> (\<forall>a. r \<noteq> Inr a)" using b by (auto simp: begin_request_def split: option.splits if_splits)
  then show ?thesis by (simp add: same_clock_def still_def)
next
  case True
  obtain a w where x: "worker_exchange sys i (RWorker WStep) (ev_world s) = (a, w)" by fastforce
  have "r = Inr a" "ev_world t = w" "same_clock s t"
    using b True x by (auto simp: begin_request_def same_clock_def)
  then show ?thesis using exchange_step[OF fl x] by (simp add: still_def ticked_def)
qed

lemma begin_steps:
  assumes fl: "fleet_env sys dsys"
  shows "distinct names \<Longrightarrow> begin_all sys names (RWorker WStep) s = (r, t) \<Longrightarrow>
    same_clock s t \<and> (\<forall>j. still s t j \<or> j \<in> set names \<and> ticked s t j) \<and>
    (\<forall>pending. r = Inr pending \<longrightarrow> map fst pending = names \<and>
      (\<forall>(n, a) \<in> set pending. is_ok a \<longrightarrow> ticked s t n))"
proof (induction names arbitrary: s r t)
  case Nil
  then show ?case by (auto simp: begin_all_def same_clock_def still_def)
next
  case (Cons n names)
  obtain r1 s1 where 1: "begin_request sys n (RWorker WStep) s = (r1, s1)" by fastforce
  note step = begin_step[OF fl 1]
  show ?case
  proof (cases r1)
    case (Inl e)
    then have "r = Inl e" "t = s1" using Cons.prems(2) 1 by (auto simp: begin_all_def a_bind_def)
    then show ?thesis using step by auto
  next
    case (Inr a)
    obtain r2 s2 where 2: "begin_all sys names (RWorker WStep) s1 = (r2, s2)" by fastforce
    have d: "distinct names" "n \<notin> set names" using Cons.prems(1) by auto
    note rest = Cons.IH[OF d(1) 2]
    have t: "t = s2" and r: "r = (case r2 of Inl e \<Rightarrow> Inl e | Inr p \<Rightarrow> Inr ((n, a) # p))"
      using Cons.prems(2) 1 2 Inr by (auto simp: begin_all_def a_bind_def split: prod.splits sum.splits)
    have n: "still s1 t n" using rest d t by blast
    have j: "still s s1 j" if "j \<noteq> n" for j using step that by blast
    have "same_clock s t" using step rest t by (simp add: same_clock_def)
    moreover have "still s t j \<or> j \<in> set (n # names) \<and> ticked s t j" for j
    proof (cases "j = n")
      case True
      then show ?thesis using step n clock_trans by (metis list.set_intros(1))
    next
      case False
      then show ?thesis using j[OF False] rest t clock_trans by (metis list.set_intros(2))
    qed
    moreover have "ticked s t k" if p: "r = Inr pending" "(k, b) \<in> set pending" "is_ok b" for pending k b
    proof (cases "k = n \<and> b = a")
      case True
      then show ?thesis using step n Inr p(3) clock_trans(3) by blast
    next
      case False
      then obtain p' where p': "r2 = Inr p'" "(k, b) \<in> set p'" using p r by (auto split: sum.splits)
      then have "k \<in> set names" using rest by (metis fst_conv imageI list.set_map)
      moreover have "ticked s1 t k" using rest p' p(3) t by blast
      ultimately show ?thesis using j[of k] d(2) clock_trans(2) by metis
    qed
    moreover have "map fst pending = n # names" if "r = Inr pending" for pending
      using that r rest by (auto split: sum.splits)
    ultimately show ?thesis by blast
  qed
qed

lemma await_acks:
  "a_for pending await_ack s = (r, t) \<Longrightarrow> t = s \<and> (is_ok r \<longrightarrow> (\<forall>(n, a) \<in> set pending. is_ok a))"
proof (induction pending arbitrary: r)
  case (Cons p pending)
  obtain n a where p: "p = (n, a)" by (cases p)
  have one: "await_ack p s = (if a = Inr Ack then Inr () else (case a of Inl e \<Rightarrow> Inl (XWorker e)
      | Inr _ \<Rightarrow> Inl (XUnexpected n)), s)"
    by (cases a) (auto simp: p await_ack_def await_def a_bind_def map_err_def)
  show ?case
  proof (cases "a = Inr Ack")
    case True
    then have "a_for pending await_ack s = (r, t)" using Cons.prems one by (simp add: a_bind_def)
    then show ?thesis using Cons.IH p True by auto
  next
    case False
    then show ?thesis using Cons.prems one by (cases a) (auto simp: a_bind_def)
  qed
qed simp

lemma round_of_steps:
  assumes fl: "fleet_env sys dsys" and d: "distinct (ev_instances s)"
    and run: "ask_all_ack sys (RWorker WStep) s = (r, t)"
  shows "same_clock s t \<and> (\<forall>j. still s t j \<or> j \<in> set (ev_instances s) \<and> ticked s t j) \<and>
    (is_ok r \<longrightarrow> (\<forall>j \<in> set (ev_instances s). ticked s t j))"
proof -
  obtain r1 s1 where 1: "begin_all sys (ev_instances s) (RWorker WStep) s = (r1, s1)" by fastforce
  note all = begin_steps[OF fl d 1]
  show ?thesis
  proof (cases r1)
    case (Inl e)
    then have "r = Inl e" "t = s1" using run 1 by (auto simp: ask_all_ack_def a_bind_def)
    then show ?thesis using all by auto
  next
    case (Inr pending)
    then have "a_for pending await_ack s1 = (r, t)" using run 1 by (auto simp: ask_all_ack_def a_bind_def)
    note w = await_acks[OF this]
    have "ticked s s1 j" if ok: "is_ok r" and j: "j \<in> set (ev_instances s)" for j
    proof -
      have "j \<in> fst ` set pending" using all Inr j by (metis list.set_map)
      then obtain a where "(j, a) \<in> set pending" by auto
      then show ?thesis using all w Inr ok by fastforce
    qed
    then show ?thesis using w all by blast
  qed
qed

section \<open>Ticks of the fleet\<close>

lemma a_bind_assoc: "a_bind (a_bind m f) g = a_bind m (\<lambda>x. a_bind (f x) g)"
  by (rule ext) (simp add: a_bind_def split: prod.split sum.split)

lemma calm_self: "\<not> ev_shutdown s \<Longrightarrow> calm (member_time (ev_world s)) (ev_instances s) (ev_time s) s"
  by (simp add: calm_def)

lemma calm_same: "calm (member_time (ev_world s)) (ev_instances s) (ev_time s) t \<Longrightarrow> \<not> ev_shutdown s \<Longrightarrow>
    same_clock s t \<and> still s t i"
  by (simp add: calm_def same_clock_def still_def)

lemma fleet_tick:
  assumes fl: "fleet_env sys dsys" and d: "distinct (ev_instances s)" and live: "\<not> ev_shutdown s"
    and run: "advance_single_tick sys s = (r, t)"
  shows "ev_instances t = ev_instances s \<and> \<not> ev_shutdown t \<and>
    ev_time t = (if is_ok r then advance_ticks 1 (ev_time s) else ev_time s) \<and>
    (\<forall>j. still s t j \<or> j \<in> set (ev_instances s) \<and> ticked s t j) \<and>
    (is_ok r \<longrightarrow> (\<forall>j \<in> set (ev_instances s). ticked s t j))"
proof -
  let ?now = "elapsed s"
  define before where "before = a_bind (observe_env_bus_frames sys) (\<lambda>_. fire_schedules sys ?now)"
  define after where
    "after = a_bind (observe_env_bus_frames sys) (\<lambda>_. sample_env_trace sys (sat_add ?now 1))"
  have quiet: "a_keeps (calm m ins e) before" "a_keeps (calm m ins e) after" for m ins e
    unfolding before_def after_def by (intro keeps calm_phases[OF fl])+
  have split: "advance_single_tick sys s = a_bind before (\<lambda>_. a_bind (ask_all_ack sys (RWorker WStep))
      (\<lambda>_. a_bind after (\<lambda>_. a_mod (\<lambda>s. s\<lparr>ev_time := advance_ticks 1 (ev_time s)\<rparr>)))) s"
    unfolding advance_single_tick_def before_def after_def a_bind_assoc by simp
  obtain r1 s1 where 1: "before s = (r1, s1)" by fastforce
  have c1: "same_clock s s1" "still s s1 j" for j
    using calm_same[of s s1] a_keepsD[OF quiet(1) calm_self[OF live]] 1 live by auto
  obtain r2 s2 where 2: "ask_all_ack sys (RWorker WStep) s1 = (r2, s2)" by fastforce
  note c2 = round_of_steps[OF fl _ 2]
  obtain r3 s3 where 3: "after s2 = (r3, s3)" by fastforce
  have d1: "distinct (ev_instances s1)" and ins: "ev_instances s1 = ev_instances s"
    using c1 d by (simp_all add: same_clock_def)
  have live2: "\<not> ev_shutdown s2" using c1 c2[OF d1] live by (simp add: same_clock_def)
  have c3: "same_clock s2 s3" "still s2 s3 j" for j
    using calm_same[of s2 s3] a_keepsD[OF quiet(2) calm_self[OF live2]] 3 live2 by auto
  show ?thesis
  proof (cases r1)
    case (Inl e)
    then have "r = Inl e" "t = s1" using run 1 unfolding split by (auto simp: a_bind_def)
    then show ?thesis using c1 live by (simp add: same_clock_def)
  next
    case (Inr u)
    note ok1 = this
    show ?thesis
    proof (cases r2)
      case (Inl e)
      then have "r = Inl e" "t = s2" using run 1 2 ok1 unfolding split by (auto simp: a_bind_def)
      moreover have "still s s2 j \<or> j \<in> set (ev_instances s) \<and> ticked s s2 j" for j
        using c2[OF d1] c1(2) clock_trans ins by metis
      ultimately show ?thesis using c1(1) c2[OF d1] live by (simp add: same_clock_def)
    next
      case (Inr u2)
      have step: "r = (case r3 of Inl e \<Rightarrow> Inl e | Inr _ \<Rightarrow> Inr ())"
        "t = (case r3 of Inl e \<Rightarrow> s3 | Inr _ \<Rightarrow> s3\<lparr>ev_time := advance_ticks 1 (ev_time s3)\<rparr>)"
        using run 1 2 3 ok1 Inr unfolding split by (auto simp: a_bind_def split: sum.splits)
      have all: "ticked s s3 j" if "j \<in> set (ev_instances s)" for j
        using c2[OF d1] Inr that ins c1(2) c3(2) clock_trans by (metis is_ok_simps(2))
      have others: "still s s3 j \<or> j \<in> set (ev_instances s) \<and> ticked s s3 j" for j
        using c2[OF d1] c1(2) c3(2) clock_trans ins by metis
      have "same_clock s s3" using c1(1) c2[OF d1] c3(1) by (simp add: same_clock_def)
      then show ?thesis using step all others live
        by (cases r3) (auto simp: same_clock_def ticked_def still_def)
    qed
  qed
qed

lemma fleet_ticks:
  assumes fl: "fleet_env sys dsys"
  shows "distinct (ev_instances s) \<Longrightarrow> \<not> ev_shutdown s \<Longrightarrow> advance_due_ticks sys n s = (r, t) \<Longrightarrow>
    \<exists>k \<le> n. (is_ok r \<longrightarrow> k = n) \<and> ev_instances t = ev_instances s \<and>
      ev_time t = (advance_ticks 1 ^^ k) (ev_time s) \<and>
      (\<forall>i. (if i \<in> set (ev_instances s)
        then member_time (ev_world t) i = map_option (advance_ticks 1 ^^ k) (member_time (ev_world s) i) \<or>
          \<not> is_ok r \<and> member_time (ev_world t) i = map_option (advance_ticks 1 ^^ Suc k) (member_time (ev_world s) i)
        else still s t i))"
proof (induction n arbitrary: s)
  case 0
  then show ?case by (auto simp: still_def option.map_id)
next
  case (Suc n)
  obtain r1 s1 where 1: "advance_single_tick sys s = (r1, s1)" by fastforce
  note tick = fleet_tick[OF fl Suc.prems(1,2) 1]
  show ?case
  proof (cases r1)
    case (Inl e)
    then have "r = Inl e" "t = s1" using Suc.prems 1 by (auto simp: a_bind_def)
    then show ?thesis using tick Inl
      by (intro exI[of _ 0]) (auto simp: still_def ticked_def option.map_id)
  next
    case (Inr u)
    have rest: "advance_due_ticks sys n s1 = (r, t)" using Suc.prems 1 Inr by (simp add: a_bind_def)
    have "distinct (ev_instances s1)" "\<not> ev_shutdown s1" using tick Suc.prems(1) by auto
    from Suc.IH[OF this rest] obtain k where k: "k \<le> n" "is_ok r \<longrightarrow> k = n"
      "ev_instances t = ev_instances s" "ev_time t = (advance_ticks 1 ^^ k) (ev_time s1)"
      and m: "\<And>i. (if i \<in> set (ev_instances s)
        then member_time (ev_world t) i = map_option (advance_ticks 1 ^^ k) (member_time (ev_world s1) i) \<or>
          \<not> is_ok r \<and> member_time (ev_world t) i = map_option (advance_ticks 1 ^^ Suc k) (member_time (ev_world s1) i)
        else still s1 t i)"
      using tick by auto
    have "member_time (ev_world s1) i = map_option (advance_ticks 1) (member_time (ev_world s) i)"
      if "i \<in> set (ev_instances s)" for i using tick Inr that by (auto simp: ticked_def)
    then have shift: "map_option (advance_ticks 1 ^^ j) (member_time (ev_world s1) i) =
        map_option (advance_ticks 1 ^^ Suc j) (member_time (ev_world s) i)" if "i \<in> set (ev_instances s)" for i j
      using that by (simp add: option.map_comp comp_def funpow_swap1)
    have "still s t i" if "i \<notin> set (ev_instances s)" for i
      using m[of i] that tick clock_trans(1) by (metis (full_types))
    note others = this
    have members: "member_time (ev_world t) i = map_option (advance_ticks 1 ^^ Suc k) (member_time (ev_world s) i) \<or>
        \<not> is_ok r \<and> member_time (ev_world t) i = map_option (advance_ticks 1 ^^ Suc (Suc k)) (member_time (ev_world s) i)"
      if "i \<in> set (ev_instances s)" for i
      using m[of i] that unfolding shift[OF that] by simp
    have "ev_time t = (advance_ticks 1 ^^ Suc k) (ev_time s)"
      using k(4) tick Inr by (simp add: funpow_swap1)
    then show ?thesis using k(1-3) members others by (intro exI[of _ "Suc k"]) (simp del: funpow.simps)
  qed
qed

end
