(* ===== verification/Env_Progress.thy ===== *)
theory Env_Progress
  imports Env_Fleet
begin

text \<open>
  What single operations of the environment achieve: grouped reads, the frames that schedules send,
  what one refused request does to a worker.
\<close>

section \<open>Grouped reads\<close>

definition groups_cover :: "(string \<times> u32) list \<Rightarrow> read_groups \<Rightarrow> bool" where
  "groups_cover wanted g \<longleftrightarrow> bt_inv g \<and>
     (\<forall>inst items. bt_get g inst = Some items \<longrightarrow> items \<noteq> [] \<and>
        (\<forall>(i, x) \<in> set items. i < length wanted \<and> wanted ! i = (inst, x))) \<and>
     (\<forall>i < length wanted. \<exists>items. bt_get g (fst (wanted ! i)) = Some items \<and> (i, snd (wanted ! i)) \<in> set items)"

lemma groups_coverD:
  assumes "groups_cover wanted g" "bt_get g inst = Some items" "(i, x) \<in> set items"
  shows "i < length wanted" "wanted ! i = (inst, x)"
  using assms unfolding groups_cover_def by blast+

lemma group_add_cover:
  assumes c: "groups_cover wanted g"
  shows "groups_cover (wanted @ [(inst, x)]) (group_add g (length wanted, inst, x))"
proof -
  define l where "l = (case bt_get g inst of Some l \<Rightarrow> l | None \<Rightarrow> [])"
  have inv: "bt_inv g" using c by (simp add: groups_cover_def)
  have add: "group_add g (length wanted, inst, x) = bt_insert inst (l @ [(length wanted, x)]) g"
    by (simp add: group_add_def l_def)
  have get: "bt_get (bt_insert inst (l @ [(length wanted, x)]) g) k =
      (if k = inst then Some (l @ [(length wanted, x)]) else bt_get g k)" for k
    using bt_get_insert[OF inv] by simp
  have l: "i < length wanted \<and> wanted ! i = (inst, y)" if "(i, y) \<in> set l" for i y
    using that groups_coverD[OF c, of inst] by (cases "bt_get g inst") (auto simp: l_def)
  have sound: "items \<noteq> [] \<and> (\<forall>(i, y) \<in> set items. i < Suc (length wanted) \<and> (wanted @ [(inst, x)]) ! i = (k, y))"
    if "bt_get (bt_insert inst (l @ [(length wanted, x)]) g) k = Some items" for k items
  proof (cases "k = inst")
    case True
    then have "items = l @ [(length wanted, x)]" using that get by simp
    then show ?thesis using l True less_Suc_eq by (auto simp: nth_append)
  next
    case False
    then have "bt_get g k = Some items" using that get by simp
    then show ?thesis using c unfolding groups_cover_def by (fastforce simp: nth_append)
  qed
  have complete: "\<exists>items. bt_get (bt_insert inst (l @ [(length wanted, x)]) g) (fst ((wanted @ [(inst, x)]) ! i)) = Some items \<and>
      (i, snd ((wanted @ [(inst, x)]) ! i)) \<in> set items" if "i < Suc (length wanted)" for i
  proof (cases "i = length wanted")
    case True
    then show ?thesis by (simp add: get)
  next
    case False
    then have i: "i < length wanted" using that by simp
    then obtain items where "bt_get g (fst (wanted ! i)) = Some items" "(i, snd (wanted ! i)) \<in> set items"
      using c unfolding groups_cover_def by blast
    note old = this
    have "set items \<subseteq> set l" if "fst (wanted ! i) = inst" using old that by (simp add: l_def)
    then show ?thesis using i old by (auto simp: get nth_append)
  qed
  show ?thesis
    unfolding groups_cover_def add using bt_inv_insert[OF inv] sound complete by simp
qed

lemma group_reads_cover: "groups_cover wanted (group_reads wanted)"
proof (induction wanted rule: rev_induct)
  case Nil
  then show ?case by (simp add: groups_cover_def group_reads_def bt_inv_def)
next
  case (snoc y wanted)
  obtain inst x where "y = (inst, x)" by (cases y)
  then show ?case using group_add_cover[OF snoc] by (simp add: group_reads_def enumerate_append_eq)
qed

lemma place_loop:
  assumes "\<And>i v. (i, v) \<in> set ivs \<Longrightarrow> i < length vs \<and> v = f i"
  shows "length (foldl (\<lambda>vs (i, v). vs[i := Some v]) vs ivs) = length vs \<and>
    (\<forall>i < length vs. foldl (\<lambda>vs (i, v). vs[i := Some v]) vs ivs ! i =
      (if i \<in> fst ` set ivs then Some (f i) else vs ! i))"
  using assms
proof (induction ivs arbitrary: vs)
  case (Cons iv ivs)
  obtain i v where iv: "iv = (i, v)" by (cases iv)
  have "i < length vs" "v = f i" using Cons.prems[of i v] iv by simp_all
  moreover have "\<And>j u. (j, u) \<in> set ivs \<Longrightarrow> j < length (vs[i := Some v]) \<and> u = f j"
    using Cons.prems by (metis length_list_update list.set_intros(2))
  ultimately show ?case using Cons.IH[of "vs[i := Some v]"] iv by (auto simp: nth_list_update)
qed simp

lemma place_values_all:
  assumes "\<And>i v. (i, v) \<in> set ivs \<Longrightarrow> i < n \<and> v = f i" and "\<And>i. i < n \<Longrightarrow> i \<in> fst ` set ivs"
  shows "place_values n ivs = Inr (map f [0..<n])"
proof -
  have "foldl (\<lambda>vs (i, v). vs[i := Some v]) (replicate n None) ivs = map (\<lambda>i. Some (f i)) [0..<n]"
    using place_loop[of ivs "replicate n None" f] assms by (intro nth_equalityI) auto
  moreover have "map_res (ok_or e) (map (\<lambda>i. Some (f i)) is) = Inr (map f is)" for e :: env_error and "is"
    by (induction "is") (simp_all add: ok_or_def res_bind_def)
  ultimately show ?thesis by (simp add: place_values_def)
qed

text \<open>Members that answer every read: \<open>V\<close> gives the value of each signal.\<close>

definition answers :: "'w env_sys \<Rightarrow> (string \<Rightarrow> u32 \<Rightarrow> signal_value) \<Rightarrow> bool" where
  "answers sys V \<longleftrightarrow> (\<forall>inst i ids w. fst (es_ask sys inst \<lparr>rq_id = i, rq_action = RWorker (WReadSignals ids)\<rparr> w) =
     Reply (response_ok i (WorkerSignalValues (map (\<lambda>x. (x, V inst x)) ids))))"

lemma check_ids_same: "check_ids inst k ids (map (\<lambda>x. (x, f x)) ids) = Inr ()"
  by (induction ids arbitrary: k) auto

lemma read_group_answer:
  assumes a: "answers sys V" and w: "hm_get (ev_workers s) inst = Some True"
  shows "\<exists>u. read_group sys (inst, items) s =
    (Inr (map (\<lambda>(i, x). (i, V inst x)) items), s\<lparr>ev_world := u\<rparr>)"
proof -
  let ?ids = "map snd items"
  obtain i w1 where i: "es_uuid sys (ev_world s) = (i, w1)" by fastforce
  obtain reply w2 where r: "es_ask sys inst \<lparr>rq_id = i, rq_action = RWorker (WReadSignals ?ids)\<rparr> w1 = (reply, w2)"
    by fastforce
  have "reply = Reply (response_ok i (WorkerSignalValues (map (\<lambda>x. (x, V inst x)) ?ids)))"
    using a r unfolding answers_def by (metis fst_conv)
  then have b: "begin_request sys inst (RWorker (WReadSignals ?ids)) s =
      (Inr (Inr (WorkerSignalValues (map (\<lambda>x. (x, V inst x)) ?ids))), s\<lparr>ev_world := w2\<rparr>)"
    using w i r by (simp add: begin_request_def worker_exchange_def worker_result_def response_ok_def ok_or_def)
  have "zip (map fst items) (map (V inst) (map snd items)) = map (\<lambda>(i, x). (i, V inst x)) items"
    by (induction items) auto
  then show ?thesis using check_ids_same[of inst 0 ?ids "V inst"]
    by (auto simp: read_group_def a_bind_def b await_def map_err_def Let_def a_ret_def
        validate_worker_signal_values_def comp_def)
qed

lemma read_groups_answer:
  assumes a: "answers sys V"
  shows "(\<And>inst items. (inst, items) \<in> set groups \<Longrightarrow> hm_get (ev_workers s) inst = Some True) \<Longrightarrow>
    \<exists>u. a_mapM groups (read_group sys) s =
      (Inr (map (\<lambda>(inst, items). map (\<lambda>(i, x). (i, V inst x)) items) groups), s\<lparr>ev_world := u\<rparr>)"
proof (induction groups arbitrary: s)
  case Nil
  then show ?case by (auto intro: exI[of _ "ev_world s"])
next
  case (Cons g groups)
  obtain inst items where g: "g = (inst, items)" by (cases g)
  obtain u where 1: "read_group sys g s = (Inr (map (\<lambda>(i, x). (i, V inst x)) items), s\<lparr>ev_world := u\<rparr>)"
    using read_group_answer[OF a Cons.prems, of inst items items] g by auto
  obtain v where 2: "a_mapM groups (read_group sys) (s\<lparr>ev_world := u\<rparr>) =
      (Inr (map (\<lambda>(inst, items). map (\<lambda>(i, x). (i, V inst x)) items) groups), s\<lparr>ev_world := v\<rparr>)"
    using Cons.IH[of "s\<lparr>ev_world := u\<rparr>"] Cons.prems by fastforce
  then show ?case using 1 by (auto simp: a_bind_def g)
qed

lemma read_grouped_answer:
  assumes a: "answers sys V" and w: "\<And>inst x. (inst, x) \<in> set wanted \<Longrightarrow> hm_get (ev_workers s) inst = Some True"
  shows "\<exists>u. read_grouped sys wanted s = (Inr (map (\<lambda>(inst, x). V inst x) wanted), s\<lparr>ev_world := u\<rparr>)"
proof -
  let ?g = "group_reads wanted"
  let ?parts = "map (\<lambda>(inst, items). map (\<lambda>(i, x). (i, V inst x)) items) ?g"
  have inv: "bt_inv ?g" using group_reads_cover by (simp add: groups_cover_def)
  have get: "bt_get ?g inst = Some items" if "(inst, items) \<in> set ?g" for inst items
    using that inv by (simp add: bt_inv_def)
  have "hm_get (ev_workers s) inst = Some True" if g: "(inst, items) \<in> set ?g" for inst items
  proof -
    have "items \<noteq> []" using get[OF g] group_reads_cover[of wanted] unfolding groups_cover_def by blast
    then obtain i x where "(i, x) \<in> set items" by (cases items) auto
    from groups_coverD[OF group_reads_cover get[OF g] this] have "(inst, x) \<in> set wanted"
      by (metis nth_mem)
    then show ?thesis by (rule w)
  qed
  then have "\<exists>u. a_mapM ?g (read_group sys) s = (Inr ?parts, s\<lparr>ev_world := u\<rparr>)"
    by (rule read_groups_answer[OF a])
  then obtain u where u: "a_mapM ?g (read_group sys) s = (Inr ?parts, s\<lparr>ev_world := u\<rparr>)" ..
  have "place_values (length wanted) (concat ?parts) =
      Inr (map (\<lambda>i. V (fst (wanted ! i)) (snd (wanted ! i))) [0..<length wanted])"
  proof (rule place_values_all)
    fix i v assume "(i, v) \<in> set (concat ?parts)"
    then obtain inst items x where "(inst, items) \<in> set ?g" "(i, x) \<in> set items" "v = V inst x" by auto
    then show "i < length wanted \<and> v = V (fst (wanted ! i)) (snd (wanted ! i))"
      using groups_coverD[OF group_reads_cover get] by (metis fst_conv snd_conv)
  next
    fix i assume "i < length wanted"
    then obtain items where "bt_get ?g (fst (wanted ! i)) = Some items" "(i, snd (wanted ! i)) \<in> set items"
      using group_reads_cover[of wanted] unfolding groups_cover_def by blast
    then show "i \<in> fst ` set (concat ?parts)" by (force dest: map_of_SomeD)
  qed
  moreover have "map (\<lambda>i. V (fst (wanted ! i)) (snd (wanted ! i))) [0..<length wanted] =
      map (\<lambda>(inst, x). V inst x) wanted"
    by (intro nth_equalityI) (auto simp: case_prod_beta)
  ultimately show ?thesis by (auto simp: read_grouped_def a_bind_def u)
qed

section \<open>The frames of one round of schedules\<close>

definition fire_job :: "u64 \<Rightarrow> can_schedule_job \<Rightarrow> can_schedule_job" where
  "fire_job now j = (if schedule_due now j
     then j\<lparr>sj_next_due_tick := sat_add now (max (sj_every_ticks j) 1)\<rparr> else j)"

definition due_frames :: "u64 \<Rightarrow> (string, can_schedule_job) btree \<Rightarrow> sim_can_frame list" where
  "due_frames now m = map (\<lambda>(_, j). sj_frame j) (filter (\<lambda>(_, j). schedule_due now j) m)"

definition fired_bus :: "u64 \<Rightarrow> env_can_bus \<Rightarrow> env_can_bus" where
  "fired_bus now b = foldl record_env_frame
     (b\<lparr>eb_schedules := bt_map_values (fire_job now) (eb_schedules b)\<rparr>) (due_frames now (eb_schedules b))"

definition due_sends :: "u64 \<Rightarrow> (string, env_can_bus) btree \<Rightarrow> (string \<times> sim_can_frame) list" where
  "due_sends now m = concat (map (\<lambda>(_, b). map (Pair (eb_iface b)) (due_frames now (eb_schedules b))) m)"

lemma a_for_append: "a_for (xs @ ys) body s = a_bind (a_for xs body) (\<lambda>_. a_for ys body) s"
proof (induction xs arbitrary: s)
  case (Cons x xs)
  then have "a_for (xs @ ys) body = a_bind (a_for xs body) (\<lambda>_. a_for ys body)" by (intro ext)
  then show ?case by (simp add: a_bind_assoc)
qed simp

lemma a_for_map: "a_for (map f xs) body = a_for xs (\<lambda>x. body (f x))"
  by (induction xs) simp_all

lemma bt_update_twice: "bt_update k g (bt_update k f m) = bt_update k (\<lambda>v. g (f v)) m"
  by (auto simp: bt_update_def)

lemma bt_update_at:
  assumes "bt_inv m" "bt_get m k = Some v" "f v = g v"
  shows "bt_update k f m = bt_update k g m"
proof -
  have "u = v" if "(k, u) \<in> set m" for u
    using that assms(1,2) by (simp add: bt_inv_def)
  then show ?thesis using assms(3) by (auto simp: bt_update_def)
qed

lemma bt_update_split:
  assumes "distinct (map fst (pre @ (k, v) # suf))"
  shows "bt_update k f (pre @ (k, v) # suf) = pre @ (k, f v) # suf"
  using assms unfolding bt_update_def by (force intro!: map_idI)

lemma bt_get_split: "distinct (map fst (pre @ (k, v) # suf)) \<Longrightarrow> bt_get (pre @ (k, v) # suf) k = Some v"
  by (subst map_of_eq_Some_iff) simp_all

definition jobs_fired where
  "jobs_fired n frames X s r w out \<longleftrightarrow> (case out of (r', t) \<Rightarrow> ev_world t = w \<and>
    (case r of Inl e \<Rightarrow> r' = Inl (XSocket e)
     | Inr _ \<Rightarrow> \<exists>fs. r' = Inr fs \<and> concat fs = frames \<and>
         t = (update_bus n (\<lambda>b. b\<lparr>eb_schedules := X\<rparr>) s)\<lparr>ev_world := w\<rparr>))"

lemma fire_jobs:
  assumes "distinct (map fst (pre @ js))" "bt_inv (ev_can s)" "bt_get (ev_can s) n = Some b"
    "eb_schedules b = bt_map_values (fire_job now) pre @ js"
    "a_for (due_frames now js) (socket_send (es_base sys) (eb_iface b)) (ev_world s) = (r, w)"
  shows "jobs_fired n (due_frames now js) (bt_map_values (fire_job now) (pre @ js)) s r w
    (a_mapM (map fst js) (fire_schedule sys now n) s)"
  using assms
proof (induction js arbitrary: pre s b)
  case Nil
  have "bt_update n (\<lambda>b. b\<lparr>eb_schedules := bt_map_values (fire_job now) pre\<rparr>) (ev_can s) =
      bt_update n (\<lambda>b. b) (ev_can s)"
    by (rule bt_update_at[OF Nil.prems(2,3)]) (use Nil.prems(4) in simp)
  also have "\<dots> = ev_can s" by (simp add: bt_update_def case_prod_beta)
  finally show ?case using Nil.prems(5) by (auto simp: due_frames_def update_bus_def jobs_fired_def)
next
  case (Cons kj js)
  obtain k j where kj: "kj = (k, j)" by (cases kj)
  let ?pre = "bt_map_values (fire_job now) pre"
  let ?X = "bt_map_values (fire_job now) (pre @ kj # js)"
  have X: "bt_map_values (fire_job now) ((pre @ [kj]) @ js) = ?X" by simp
  have d: "distinct (map fst (?pre @ (k, j) # js))"
    using Cons.prems(1) by (simp add: kj bt_map_values_def comp_def case_prod_beta)
  have d': "distinct (map fst ((pre @ [kj]) @ js))" using Cons.prems(1) by simp
  have get: "bt_get (eb_schedules b) k = Some j" using bt_get_split[OF d] Cons.prems(4) kj by simp
  show ?case
  proof (cases "schedule_due now j")
    case False
    then have 1: "fire_schedule sys now n k s = (Inr [], s)"
      using Cons.prems(3) get by (simp add: fire_schedule_def find_bus_state_def ok_or_def a_bind_def)
    have "eb_schedules b = bt_map_values (fire_job now) (pre @ [kj]) @ js"
      using Cons.prems(4) False kj by (simp add: bt_map_values_def fire_job_def)
    moreover have "due_frames now (kj # js) = due_frames now js" using False kj by (simp add: due_frames_def)
    ultimately have "jobs_fired n (due_frames now (kj # js)) ?X s r w (a_mapM (map fst js) (fire_schedule sys now n) s)"
      using Cons.IH[OF d' Cons.prems(2,3)] Cons.prems(5) by (simp only: X)
    then show ?thesis using 1 kj
      by (cases r; cases "a_mapM (map fst js) (fire_schedule sys now n) s"; cases "fst (a_mapM (map fst js) (fire_schedule sys now n) s)")
        (auto simp: a_bind_def jobs_fired_def)
  next
    case True
    obtain r1 w1 where send: "socket_send (es_base sys) (eb_iface b) (sj_frame j) (ev_world s) = (r1, w1)" by fastforce
    have due: "due_frames now (kj # js) = sj_frame j # due_frames now js" using True kj by (simp add: due_frames_def)
    let ?f = "\<lambda>j. j\<lparr>sj_next_due_tick := sat_add now (max (sj_every_ticks j) 1)\<rparr>"
    show ?thesis
    proof (cases r1)
      case (Inl e)
      have "fire_schedule sys now n k s = (Inl (XSocket e), s\<lparr>ev_world := w1\<rparr>)"
        using Cons.prems(3) get True send Inl
        by (simp add: fire_schedule_def find_bus_state_def ok_or_def a_bind_def in_world_def map_err_def)
      then show ?thesis using Cons.prems(5) send Inl kj unfolding due by (auto simp: a_bind_def jobs_fired_def)
    next
      case (Inr u)
      let ?s1 = "change_schedule n k ?f (s\<lparr>ev_world := w1\<rparr>)"
      have 1: "fire_schedule sys now n k s = (Inr [sj_frame j], ?s1)"
        using Cons.prems(3) get True send Inr
        by (simp add: fire_schedule_def find_bus_state_def ok_or_def a_bind_def in_world_def map_err_def)
      let ?b1 = "b\<lparr>eb_schedules := bt_update k ?f (eb_schedules b)\<rparr>"
      have b1: "bt_get (ev_can ?s1) n = Some ?b1" "bt_inv (ev_can ?s1)"
        using Cons.prems(2,3) by (simp_all add: change_schedule_def update_bus_def bt_get_update bt_inv_update)
      have "eb_schedules ?b1 = bt_map_values (fire_job now) (pre @ [kj]) @ js"
        using bt_update_split[OF d, of ?f] Cons.prems(4) True kj by (simp add: bt_map_values_def fire_job_def)
      moreover have "a_for (due_frames now js) (socket_send (es_base sys) (eb_iface ?b1)) (ev_world ?s1) = (r, w)"
        using Cons.prems(5) send Inr unfolding due by (simp add: a_bind_def change_schedule_def update_bus_def)
      ultimately have 2: "jobs_fired n (due_frames now js) ?X ?s1 r w (a_mapM (map fst js) (fire_schedule sys now n) ?s1)"
        using Cons.IH[OF d' b1(2,1)] by (simp only: X)
      have "(update_bus n (\<lambda>b. b\<lparr>eb_schedules := ?X\<rparr>) ?s1)\<lparr>ev_world := w\<rparr> =
          (update_bus n (\<lambda>b. b\<lparr>eb_schedules := ?X\<rparr>) s)\<lparr>ev_world := w\<rparr>"
        by (simp add: change_schedule_def update_bus_def bt_update_twice)
      then show ?thesis using 1 2 kj due
        by (cases r; cases "a_mapM (map fst js) (fire_schedule sys now n) ?s1"; cases "fst (a_mapM (map fst js) (fire_schedule sys now n) ?s1)")
          (auto simp: a_bind_def jobs_fired_def)
    qed
  qed
qed


definition buses_fired where
  "buses_fired m s r w out \<longleftrightarrow> (case out of (r', t) \<Rightarrow> ev_world t = w \<and>
    (case r of Inl e \<Rightarrow> r' = Inl (XSocket e)
     | Inr _ \<Rightarrow> r' = Inr () \<and> t = s\<lparr>ev_can := m, ev_world := w\<rparr>))"

lemma fire_bus_due:
  assumes "bt_inv (ev_can s)" "bt_get (ev_can s) n = Some b" "bt_inv (eb_schedules b)"
    and sends: "a_for (due_frames now (eb_schedules b)) (socket_send (es_base sys) (eb_iface b)) (ev_world s) = (r, w)"
  shows "buses_fired (bt_update n (fired_bus now) (ev_can s)) s r w (fire_bus sys now n s)"
proof -
  let ?X = "bt_map_values (fire_job now) (eb_schedules b)"
  have "jobs_fired n (due_frames now (eb_schedules b)) ?X s r w
      (a_mapM (map fst (eb_schedules b)) (fire_schedule sys now n) s)"
    using fire_jobs[of "[]" "eb_schedules b" s n b now sys r w] assms
    by (simp add: bt_inv_def bt_map_values_def)
  moreover have "bt_update n (\<lambda>c. foldl record_env_frame (c\<lparr>eb_schedules := ?X\<rparr>) (due_frames now (eb_schedules b)))
      (ev_can s) = bt_update n (fired_bus now) (ev_can s)"
    by (rule bt_update_at[OF assms(1,2)]) (simp add: fired_bus_def)
  moreover have "find_bus_state s n = Inr b" using assms(2) by (simp add: find_bus_state_def ok_or_def)
  ultimately show ?thesis
    by (cases r; cases "a_mapM (map fst (eb_schedules b)) (fire_schedule sys now n) s";
        cases "fst (a_mapM (map fst (eb_schedules b)) (fire_schedule sys now n) s)")
      (auto simp: fire_bus_def a_bind_def jobs_fired_def buses_fired_def update_bus_def bt_update_twice)
qed

lemma due_sends_Cons: "due_sends now ((n, b) # bs) =
    map (Pair (eb_iface b)) (due_frames now (eb_schedules b)) @ due_sends now bs"
  by (simp add: due_sends_def)

lemma fire_buses_due:
  assumes "bt_inv (pre @ bs)" "\<And>n b. (n, b) \<in> set bs \<Longrightarrow> bt_inv (eb_schedules b)"
    "ev_can s = bt_map_values (fired_bus now) pre @ bs"
    "a_for (due_sends now bs) (\<lambda>(i, f). socket_send (es_base sys) i f) (ev_world s) = (r, w)"
  shows "buses_fired (bt_map_values (fired_bus now) (pre @ bs)) s r w (a_for (map fst bs) (fire_bus sys now) s)"
  using assms
proof (induction bs arbitrary: pre s)
  case Nil
  then show ?case by (auto simp: due_sends_def buses_fired_def)
next
  case (Cons nb bs)
  obtain n b where nb: "nb = (n, b)" by (cases nb)
  have keys: "map fst (bt_map_values (fired_bus now) pre @ (n, b) # bs) = map fst (pre @ nb # bs)" by (simp add: nb)
  have inv: "bt_inv (ev_can s)" using Cons.prems(1,3) by (simp add: bt_inv_def nb)
  have d: "distinct (map fst (bt_map_values (fired_bus now) pre @ (n, b) # bs))"
    using Cons.prems(1) unfolding bt_inv_def keys by simp
  have get: "bt_get (ev_can s) n = Some b" using bt_get_split[OF d] Cons.prems(3) nb by simp
  have si: "bt_inv (eb_schedules b)" using Cons.prems(2)[of n b] nb by simp
  let ?send = "\<lambda>(i, f). socket_send (es_base sys) i f"
  obtain r1 w1 where sends: "a_for (due_frames now (eb_schedules b)) (socket_send (es_base sys) (eb_iface b)) (ev_world s) = (r1, w1)"
    by fastforce
  have whole: "(r, w) = (case r1 of Inl e \<Rightarrow> (Inl e, w1) | Inr _ \<Rightarrow> a_for (due_sends now bs) ?send w1)"
    unfolding Cons.prems(4)[symmetric] using sends
    by (simp add: due_sends_Cons nb a_for_append a_for_map a_bind_def)
  obtain r2 t1 where 1: "fire_bus sys now n s = (r2, t1)" by fastforce
  note fired = fire_bus_due[OF inv get si sends, unfolded 1 buses_fired_def prod.case]
  show ?case
  proof (cases r1)
    case (Inl e)
    then show ?thesis using 1 fired whole nb by (simp add: a_bind_def buses_fired_def)
  next
    case (Inr u)
    have t1: "r2 = Inr ()" "t1 = s\<lparr>ev_can := bt_map_values (fired_bus now) (pre @ [nb]) @ bs, ev_world := w1\<rparr>"
      using fired Inr bt_update_split[OF d, of "fired_bus now"] Cons.prems(3) nb
      by (simp_all add: bt_map_values_def)
    have "bt_inv ((pre @ [nb]) @ bs)" "\<And>n b. (n, b) \<in> set bs \<Longrightarrow> bt_inv (eb_schedules b)"
      "ev_can t1 = bt_map_values (fired_bus now) (pre @ [nb]) @ bs"
      "a_for (due_sends now bs) ?send (ev_world t1) = (r, w)"
      using Cons.prems(1,2) t1 whole Inr by auto
    from Cons.IH[OF this] show ?thesis using 1 t1 nb
      by (cases r) (auto simp: a_bind_def buses_fired_def)
  qed
qed

lemma fire_schedules_due:
  assumes "env_ok s" "a_for (due_sends now (ev_can s)) (\<lambda>(i, f). socket_send (es_base sys) i f) (ev_world s) = (r, w)"
  shows "buses_fired (bt_map_values (fired_bus now) (ev_can s)) s r w (fire_schedules sys now s)"
proof -
  have c: "can_ok (ev_can s)" using assms(1) by (simp add: env_ok_def)
  have "bt_inv (eb_schedules b)" if "(n, b) \<in> set (ev_can s)" for n b
    using c that by (auto simp: can_ok_def bus_ok_def bt_inv_def)
  note inner = this
  have "bt_inv ([] @ ev_can s)" "ev_can s = bt_map_values (fired_bus now) [] @ ev_can s"
    using c by (simp_all add: can_ok_def bt_map_values_def)
  from fire_buses_due[OF this(1) inner this(2) assms(2)] show ?thesis
    by (simp add: fire_schedules_def)
qed

text \<open>A job that is on sends at the ticks \<open>d\<close>, \<open>d + every\<close>, \<dots> and at no tick between.\<close>

lemma fire_job_period:
  assumes "schedule_due now j" "now < later" "unat now + unat (sj_every_ticks j) < 2 ^ 64" "0 < sj_every_ticks j"
  shows "schedule_due later (fire_job now j) \<longleftrightarrow> now + sj_every_ticks j \<le> later"
proof -
  have "max (sj_every_ticks j) 1 = sj_every_ticks j"
    using assms(4) by (metis max.absorb1 word_less_1 not_le_imp_less less_irrefl)
  moreover have "sat_add now (sj_every_ticks j) = now + sj_every_ticks j"
    using assms(3) by (simp add: sat_add_def)
  ultimately show ?thesis using assms(1) by (auto simp: fire_job_def schedule_due_def)
qed

section \<open>A worker that was refused once\<close>

definition worker_gone :: "string \<Rightarrow> 'w env \<Rightarrow> bool" where
  "worker_gone i s \<longleftrightarrow> i \<in> set (ev_instances s) \<and> hm_get (ev_workers s) i = Some False"

lemma refused_gone:
  "begin_request sys i action s = (Inr (Inl e), t) \<Longrightarrow> i \<in> set (ev_instances s) \<Longrightarrow> worker_gone i t"
  by (auto simp: begin_request_def worker_gone_def hm_insert_def update_conv'
      split: option.splits if_splits prod.splits)

lemma gone_mod:
  "(\<And>s. ev_instances (f s) = ev_instances s \<and> ev_workers (f s) = ev_workers s) \<Longrightarrow>
    a_keeps (worker_gone i) (a_mod f)"
  by (rule a_keepsI) (simp add: worker_gone_def)

lemma gone_prims [keeps]:
  "a_keeps (worker_gone i) (in_world f m)" "a_keeps (worker_gone i) (in_time t)"
  "a_keeps (worker_gone i) (begin_request sys n action)" "a_keeps (worker_gone i) (discard_bus sys n)"
  "a_keeps (worker_gone i) (ensure_env_name env)"
  by (auto simp: a_keeps_def in_world_def in_time_def begin_request_def worker_gone_def discard_bus_def
      ensure_env_name_def update_bus_def hm_insert_def update_conv' split: prod.split option.split)

lemma gone_observe [keeps]:
  "a_keeps (worker_gone i) (observe_env_bus_frames sys)" "a_keeps (worker_gone i) (fire_schedules sys t)"
  unfolding observe_env_bus_frames_def observe_bus_def fire_schedules_def fire_bus_def fire_schedule_def
    change_schedule_def
  by (intro keeps gone_mod; simp add: update_bus_def)+

lemma gone_ask [keeps]:
  "a_keeps (worker_gone i) (ask_all_ack sys action)" "a_keeps (worker_gone i) (read_grouped sys wanted)"
  unfolding ask_all_ack_def begin_all_def await_ack_def await_def read_grouped_def read_group_def Let_def
  by (intro keeps; simp add: keeps split: response_data.split)+

lemma gone_sample [keeps]: "a_keeps (worker_gone i) (sample_env_trace sys t)"
  unfolding sample_env_trace_def read_env_trace_values_def Let_def
  by (intro keeps gone_mod) (simp add: update_env_trace_history_def set_env_active_def split: option.split)

lemma gone_tick [keeps]: "a_keeps (worker_gone i) (advance_single_tick sys)"
  unfolding advance_single_tick_def by (intro keeps gone_mod) simp

lemma gone_ticks [keeps]: "a_keeps (worker_gone i) (advance_due_ticks sys n)"
proof (induction n)
  case (Suc n)
  then show ?case unfolding advance_due_ticks.simps by (intro keeps)
qed (simp add: keeps)

lemma gone_schedule_add: "a_keeps (worker_gone i) (e_schedule_add sys n job_id arb hex every flags)"
proof -
  have "a_keeps (worker_gone i) (\<lambda>s. (r s, s))" for r :: "'a env \<Rightarrow> env_error + 'c" by (auto simp: a_keeps_def)
  then show ?thesis
    unfolding e_schedule_add_def by (intro keeps gone_mod; simp add: update_bus_def)
qed

lemma gone_simple:
  "a_keeps (worker_gone i) (e_status env)" "a_keeps (worker_gone i) (e_reset sys)" "a_keeps (worker_gone i) (e_time_start sys)"
  "a_keeps (worker_gone i) e_time_pause" "a_keeps (worker_gone i) (e_time_speed m)" "a_keeps (worker_gone i) (e_time_step sys d)"
  "a_keeps (worker_gone i) env_time_status" "a_keeps (worker_gone i) e_can_buses"
  "a_keeps (worker_gone i) (e_can_load_dbc sys n path)" "a_keeps (worker_gone i) (e_can_send sys n arb hex flags)"
  "a_keeps (worker_gone i) (e_can_inspect n)" "a_keeps (worker_gone i) (e_schedule_list which)"
  "a_keeps (worker_gone i) (e_signals sys selectors)" "a_keeps (worker_gone i) (e_get sys selectors)"
  "a_keeps (worker_gone i) e_close"
  "a_keeps (worker_gone i) (e_schedule_remove job)" "a_keeps (worker_gone i) (e_schedule_stop job)"
  "a_keeps (worker_gone i) (e_schedule_start job)" "a_keeps (worker_gone i) (e_schedule_update job arb hex every flags)"
  unfolding e_status_def e_reset_def e_time_start_def e_time_pause_def e_time_speed_def e_time_step_def
    env_time_status_def e_can_buses_def e_can_load_dbc_def e_can_send_def e_can_inspect_def
    e_schedule_list_def e_signals_def e_get_def read_env_signal_values_def e_close_def
    resolve_entries_def clear_env_backlog_def reset_env_can_state_def send_env_frame_def
    e_schedule_remove_def e_schedule_stop_def e_schedule_start_def with_schedule_def change_schedule_def
    e_schedule_update_def
  by (intro keeps gone_mod; simp add: update_bus_def)+

lemma gone_traces:
  "a_keeps (worker_gone i) (start_env_trace sys path period)" "a_keeps (worker_gone i) (stop_env_trace sys)"
  "a_keeps (worker_gone i) (clear_env_trace sys)"
  unfolding start_env_trace_def stop_env_trace_def clear_env_trace_def remove_env_trace_file_def
    read_env_trace_values_def Let_def case_prod_beta
  by (intro keeps gone_mod; simp add: update_env_trace_history_def set_env_active_def clear_env_history_def
      split: option.split)+

lemma gone_actions [keeps]: "a_keeps (worker_gone i) (dispatch_env_action sys a)"
  by (cases a)
    (auto simp only: dispatch_env_action.simps named_def then_env_trace_status_def
      intro!: keeps gone_simple gone_schedule_add gone_traces)

lemma gone_step: "env_step sys s t \<Longrightarrow> worker_gone i s \<Longrightarrow> worker_gone i t"
proof (induction rule: env_step.induct)
  case (es_action s rq)
  let ?m = "case rq_action rq of REnv a \<Rightarrow> dispatch_env_action sys a | _ \<Rightarrow> a_fail XInstanceAction"
  have "a_keeps (worker_gone i) ?m" by (cases "rq_action rq") (auto intro: keeps)
  note kept = a_keepsD[OF this es_action]
  obtain r t where r: "?m s = (r, t)" by fastforce
  show ?case using kept by (cases r) (simp_all add: handle_env_action_def r)
next
  case (es_poll s)
  then show ?case by (simp add: poll_env_backlog_def worker_gone_def split: prod.split)
next
  case (es_run s)
  let ?n = "unat (min (ev_backlog s) MAX_ENV_TICKS_PER_TURN)"
  obtain r t where r: "advance_due_ticks sys ?n s = (r, t)" by fastforce
  have "worker_gone i t" using a_keepsD[OF gone_ticks es_run, of sys ?n] r by simp
  then show ?case by (cases r) (simp_all add: run_env_backlog_def Let_def r worker_gone_def)
qed (simp add: worker_gone_def)

lemma ask_all_gone: "worker_gone i s \<Longrightarrow> \<exists>e. fst (ask_all_ack sys action s) = Inl e"
proof -
  have "worker_gone i s \<Longrightarrow> i \<in> set names \<Longrightarrow> \<exists>e. fst (begin_all sys names action s) = Inl e" for names
  proof (induction names arbitrary: s)
    case (Cons n names)
    obtain r s1 where 1: "begin_request sys n action s = (r, s1)" by fastforce
    show ?case
    proof (cases r)
      case (Inl e)
      then show ?thesis using 1 by (simp add: begin_all_def a_bind_def)
    next
      case (Inr a)
      have "n \<noteq> i" using Inr 1 Cons.prems(1) by (auto simp: begin_request_def worker_gone_def)
      moreover have "worker_gone i s1" using a_keepsD[OF gone_prims(3) Cons.prems(1)] 1 by (metis snd_conv)
      ultimately obtain e t where "begin_all sys names action s1 = (Inl e, t)"
        using Cons.IH Cons.prems(2) by (metis prod.collapse set_ConsD)
      then show ?thesis using 1 Inr by (simp add: begin_all_def a_bind_def)
    qed
  qed simp
  moreover assume "worker_gone i s"
  ultimately obtain e t where "begin_all sys (ev_instances s) action s = (Inl e, t)"
    unfolding worker_gone_def by (metis prod.collapse)
  then show ?thesis by (simp add: ask_all_ack_def a_bind_def)
qed

lemma tick_gone:
  assumes "worker_gone i s"
  shows "\<exists>e. fst (advance_single_tick sys s) = Inl e"
proof -
  define before where "before = a_bind (observe_env_bus_frames sys) (\<lambda>_. fire_schedules sys (elapsed s))"
  have "a_keeps (worker_gone i) before" unfolding before_def by (intro keeps)
  note kept = a_keepsD[OF this assms]
  obtain r s1 where 1: "before s = (r, s1)" by fastforce
  have split: "\<exists>rest. advance_single_tick sys s = a_bind before (\<lambda>_. a_bind (ask_all_ack sys (RWorker WStep)) rest) s"
    unfolding advance_single_tick_def before_def a_bind_assoc by auto
  obtain e t where 2: "ask_all_ack sys (RWorker WStep) s1 = (Inl e, t)"
    using ask_all_gone[of i s1 sys "RWorker WStep"] kept 1 by (metis prod.collapse snd_conv)
  show ?thesis using split 1 2 by (cases r) (auto simp: a_bind_def)
qed

end
