(* ===== verification/Env_Properties.thy ===== *)
theory Env_Properties
  imports Env_Progress
begin

text \<open>
  A small environment of two daemons, and the properties of the environment daemon: its invariant,
  the clocks of its members, grouped reads, schedules, and what a refused request does.
\<close>

section \<open>A small environment\<close>

text \<open>Two members that run the counting library, on a system where nothing else happens.\<close>

definition fleet_base :: "nat fleet daemon_sys" where
  "fleet_base = \<lparr>sys_now = (\<lambda>w. (0, w)), sys_glob = (\<lambda>_. None),
     sys_files = \<lparr>fs_create_parent = (\<lambda>_ w. (True, w)), fs_create = (\<lambda>_ w. (True, w)),
       fs_write = (\<lambda>_ _ w. (True, w)), fs_flush = (\<lambda>_ w. (True, w)),
       fs_exists = (\<lambda>_ _. False), fs_remove = (\<lambda>_ w. (True, w))\<rparr>,
     sys_can_open = (\<lambda>_ _ _ _ w. (True, w)), sys_can_recv = (\<lambda>_ w. ([], w)),
     sys_can_send = (\<lambda>_ _ w. (True, w)), sys_read_text = (\<lambda>_ _. None), sys_parse_dbc = (\<lambda>_. None),
     sys_region_file = (\<lambda>_ _. None), sys_region_load = (\<lambda>_ _. demo_region),
     sys_region_store = (\<lambda>_ _ w. w), sys_list_instances = (\<lambda>w. (None, w))\<rparr>"

definition fleet_sys :: "nat fleet env_sys" where
  "fleet_sys = \<lparr>es_base = fleet_base, es_uuid = (\<lambda>w. (7, w)), es_uuid_text = (\<lambda>_. ''id''),
     es_ask = fleet_ask idle_sys\<rparr>"

definition two_daemons :: "nat fleet" where
  "two_daemons = \<lparr>fl_outer = 0, fl_daemons =
     [(''a'', daemon_new ''a'' ''/tmp/a.sock'' counter_project (Some ''e'') 0),
      (''b'', daemon_new ''b'' ''/tmp/b.sock'' counter_project (Some ''e'') 0)]\<rparr>"

definition fleet_boot :: "nat fleet boot_sys" where
  "fleet_boot = \<lparr>bs_env = fleet_sys, bs_start = (\<lambda>_ _ w. (True, w)), bs_join = (\<lambda>outs. outs),
     bs_connect = (\<lambda>_ w. (True, w)), bs_send = (\<lambda>_ _ w. (None, w)), bs_shared_root = ''/tmp'',
     bs_create_dir = (\<lambda>_ w. (True, w)), bs_kill = (\<lambda>_ w. w)\<rparr>"
definition two_specs :: env_spec where
  "two_specs = \<lparr>sp_name = ''e'', sp_instances =
     map (\<lambda>n. \<lparr>is_name = n, is_load_spec = \<lparr>ls_libpath = ''l'', ls_env_tag = None, ls_flash = []\<rparr>\<rparr>) [''a'', ''b''],
     sp_can_buses = [], sp_shared = []\<rparr>"

lemma fleet_sys_fleet: "fleet_env fleet_sys idle_sys"
  by (simp add: fleet_env_def spares_def fleet_sys_def fleet_base_def)

definition two_env :: "nat fleet env" where
  "two_env = \<lparr>ev_name = ''e'', ev_socket_path = ''/s'', ev_tick_us = 1000,
      ev_instances = [''a'', ''b''], ev_catalog = \<lparr>cat_entries = [], cat_index = []\<rparr>,
      ev_workers = [(''a'', True), (''b'', True)], ev_time = engine_default, ev_backlog = 0, ev_can = [],
      ev_trace = \<lparr>et_active = None, et_last_path = None, et_last_row_count = 0,
        et_last_signal_count = 0, et_last_period_us = None\<rparr>,
      ev_shutdown = False, ev_world = two_daemons\<rparr>"

lemma fleet_boot_ok: "is_ok (fst (bootstrap fleet_boot ''/s'' two_specs two_daemons))"
  by code_simp

lemma two_env_tick_ok: "is_ok (fst (advance_due_ticks fleet_sys 1 two_env))"
  by code_simp

lemma two_env_open: "distinct (ev_instances two_env)" "\<not> ev_shutdown two_env"
  by (simp_all add: two_env_def)

section \<open>Properties\<close>

text \<open>
  C4: an environment that has started keeps, over all requests, realtime polls and batches of ticks
  and whatever else happens in the world: a positive tick duration, a sound clock, a worker for
  every member, a positive period in an active trace; on every bus every schedule is filed under its
  own identifier, with a positive period and a frame the bus accepts whose text, flags and
  identifier are the ones reported; and no identifier names schedules on two buses.
\<close>

theorem env_invariant:
  assumes "fst (bootstrap sys path sp w) = Inr s0" and "(env_step (bs_env sys))\<^sup>*\<^sup>* s0 s"
  shows "env_ok s"
  using assms(2)
proof (induction rule: rtranclp_induct)
  case base
  obtain w1 started where "bootstrap_connected sys sp (env_new sp path w1) = (Inr (), s0)"
    using assms(1) by (auto simp: bootstrap_def bootstrap_inner_def split: sum.splits prod.splits option.splits)
  then show ?case by (rule a_givesD[OF boot_connected_ok(1) boot_ok_new])
qed (rule env_step_ok)

theorem env_invariant_witness:
  "\<exists>s0. fst (bootstrap fleet_boot ''/s'' two_specs two_daemons) = Inr s0 \<and>
     env_ok (snd (handle_env_action (bs_env fleet_boot) \<lparr>rq_id = 1, rq_action = REnv (ETimeStart ''e'')\<rparr> s0))"
proof -
  obtain s0 where s0: "fst (bootstrap fleet_boot ''/s'' two_specs two_daemons) = Inr s0"
    using fleet_boot_ok by (cases "fst (bootstrap fleet_boot ''/s'' two_specs two_daemons)") auto
  let ?t = "snd (handle_env_action (bs_env fleet_boot) \<lparr>rq_id = 1, rq_action = REnv (ETimeStart ''e'')\<rparr> s0)"
  have "(env_step (bs_env fleet_boot))\<^sup>*\<^sup>* s0 ?t" by (rule r_into_rtranclp) (rule es_action)
  from env_invariant[OF s0 this] s0 show ?thesis by blast
qed

text \<open>
  C2: the clocks of the members follow the clock of the environment. When a batch of ticks succeeds,
  the environment and every member have advanced by exactly that many ticks. When it fails after
  \<open>k\<close> whole rounds, the environment stands at \<open>k\<close> and every member at \<open>k\<close> or \<open>k + 1\<close>. No other
  daemon's clock moves.
\<close>

theorem members_in_lockstep:
  assumes "fleet_env sys dsys" and "distinct (ev_instances s)" and "\<not> ev_shutdown s"
    and "advance_due_ticks sys n s = (r, t)"
  shows "\<exists>k \<le> n. (is_ok r \<longrightarrow> k = n) \<and> ev_time t = (advance_ticks 1 ^^ k) (ev_time s) \<and>
      (\<forall>i. (if i \<in> set (ev_instances s)
        then member_time (ev_world t) i = map_option (advance_ticks 1 ^^ k) (member_time (ev_world s) i) \<or>
          \<not> is_ok r \<and> member_time (ev_world t) i = map_option (advance_ticks 1 ^^ Suc k) (member_time (ev_world s) i)
        else member_time (ev_world t) i = member_time (ev_world s) i))"
  using fleet_ticks[OF assms] unfolding still_def by blast

theorem members_in_lockstep_witness:
  "member_time (ev_world (snd (advance_due_ticks fleet_sys 1 two_env))) ''b'' =
     Some (advance_ticks 1 engine_default)"
proof -
  obtain r t where r: "advance_due_ticks fleet_sys 1 two_env = (r, t)" by fastforce
  then have ok: "is_ok r" using two_env_tick_ok by simp
  have start: "member_time (ev_world two_env) ''b'' = Some engine_default"
    by (simp add: two_env_def two_daemons_def member_time_def daemon_new_def)
  have "''b'' \<in> set (ev_instances two_env)" by (simp add: two_env_def)
  with members_in_lockstep[OF fleet_sys_fleet two_env_open r] ok
  have "member_time (ev_world t) ''b'' = map_option (advance_ticks 1 ^^ 1) (member_time (ev_world two_env) ''b'')"
    by metis
  then show ?thesis using start r by simp
qed

text \<open>
  C19: when members answer, the grouped reads of the environment give the same values in the same
  order as reading the wanted signals one by one, and change nothing but the world.
\<close>

theorem grouped_reads_equivalent:
  assumes "answers sys V" and "\<And>inst x. (inst, x) \<in> set wanted \<Longrightarrow> hm_get (ev_workers s) inst = Some True"
  shows "\<exists>u. read_grouped sys wanted s = (Inr (map (\<lambda>(inst, x). V inst x) wanted), s\<lparr>ev_world := u\<rparr>)"
  using assms by (rule read_grouped_answer)

definition echo_sys :: "nat fleet env_sys" where
  "echo_sys = fleet_sys\<lparr>es_ask := (\<lambda>inst rq w. (case rq_action rq of
     RWorker (WReadSignals ids) \<Rightarrow>
       Reply (response_ok (rq_id rq) (WorkerSignalValues (map (\<lambda>x. (x, VU32 (x + 1))) ids)))
   | _ \<Rightarrow> ConnectionClosed, w))\<rparr>"

theorem grouped_reads_equivalent_witness:
  "fst (read_grouped echo_sys [(''b'', 5), (''a'', 2), (''b'', 3)] two_env) = Inr [VU32 6, VU32 3, VU32 4]"
proof -
  have "answers echo_sys (\<lambda>_ x. VU32 (x + 1))" by (simp add: answers_def echo_sys_def)
  moreover have "hm_get (ev_workers two_env) inst = Some True"
    if "(inst, x) \<in> set [(''b'', 5), (''a'', 2), (''b'', 3)]" for inst and x :: u32
    using that by (auto simp: two_env_def)
  ultimately obtain u where "read_grouped echo_sys [(''b'', 5), (''a'', 2), (''b'', 3)] two_env =
      (Inr (map (\<lambda>(inst, x). VU32 (x + 1)) [(''b'', 5), (''a'', 2), (''b'', 3)]), two_env\<lparr>ev_world := u\<rparr>)"
    using grouped_reads_equivalent[of echo_sys "\<lambda>_ x. VU32 (x + 1)" "[(''b'', 5), (''a'', 2), (''b'', 3)]" two_env]
    by blast
  then show ?thesis by simp
qed

text \<open>
  C11: at a tick the environment sends exactly the frames of the enabled jobs that are due, bus by bus
  and job by job in the order of their names; a job that was sent is due again one period later, and
  every other job is left as it was. The first send that fails ends the tick with that error.
\<close>

theorem schedules_fire_when_due:
  assumes "env_ok s" and "a_for (due_sends now (ev_can s)) (\<lambda>(i, f). socket_send (es_base sys) i f) (ev_world s) = (r, w)"
  shows "\<exists>r' t. fire_schedules sys now s = (r', t) \<and> ev_world t = w \<and>
    (case r of Inl e \<Rightarrow> r' = Inl (XSocket e)
     | Inr _ \<Rightarrow> r' = Inr () \<and> t = s\<lparr>ev_can := bt_map_values (fired_bus now) (ev_can s), ev_world := w\<rparr>)"
  using fire_schedules_due[OF assms] unfolding buses_fired_def by (auto split: prod.splits)

definition bus_env :: "nat fleet env" where
  "bus_env = two_env\<lparr>ev_can := [(''can0'', \<lparr>eb_name = ''can0'', eb_iface = ''vcan0'', eb_fd_capable = False,
     eb_bitrate = 500000, eb_bitrate_data = 0, eb_dbc = None, eb_frames = [], eb_schedules =
       [(''j'', \<lparr>sj_id = ''j'', sj_arb_id = 256, sj_flags = 0, sj_data_hex = ''0102'',
         sj_frame = \<lparr>arb_id = 256, fr_len = 2, fr_flags = 0, fr_data = [1, 2] @ replicate 62 0\<rparr>,
         sj_every_ticks = 5, sj_next_due_tick = 2, sj_enabled = True\<rparr>)]\<rparr>)]\<rparr>"

lemma bus_env_ok: "env_ok bus_env"
proof -
  have "job_ok ''can0'' False ''j'' \<lparr>sj_id = ''j'', sj_arb_id = 256, sj_flags = 0, sj_data_hex = ''0102'',
      sj_frame = \<lparr>arb_id = 256, fr_len = 2, fr_flags = 0, fr_data = [1, 2] @ replicate 62 0\<rparr>,
      sj_every_ticks = 5, sj_next_due_tick = 2, sj_enabled = True\<rparr>"
    unfolding job_ok_def by (intro conjI; code_simp)
  then show ?thesis
    by (simp add: env_ok_def bus_env_def two_env_def can_ok_def bus_ok_def bt_inv_def engine_inv_default hm_inv_def
        env_trace_ok_def ex_bool_eq)
qed

theorem schedules_fire_when_due_witness:
  "\<exists>t b. fire_schedules fleet_sys 3 bus_env = (Inr (), t) \<and> bt_get (ev_can t) ''can0'' = Some b \<and>
     map (\<lambda>(_, j). sj_next_due_tick j) (eb_schedules b) = [8]"
proof -
  obtain r w where sends: "a_for (due_sends 3 (ev_can bus_env)) (\<lambda>(i, f). socket_send (es_base fleet_sys) i f)
      (ev_world bus_env) = (r, w)" by fastforce
  have "is_ok (fst (a_for (due_sends 3 (ev_can bus_env)) (\<lambda>(i, f). socket_send (es_base fleet_sys) i f)
      (ev_world bus_env)))" by code_simp
  then have ok: "r = Inr ()" using sends by (cases r) auto
  obtain t where t: "fire_schedules fleet_sys 3 bus_env = (Inr (), t)"
    "t = bus_env\<lparr>ev_can := bt_map_values (fired_bus 3) (ev_can bus_env), ev_world := w\<rparr>"
    using schedules_fire_when_due[OF bus_env_ok sends] ok by auto
  have "map (\<lambda>(_, j). sj_next_due_tick j) (eb_schedules (fired_bus 3 (snd (hd (ev_can bus_env))))) = [8]"
    by code_simp
  then show ?thesis using t by (simp add: bus_env_def bt_map_values_def)
qed

text \<open>
  C20: once a member has refused a single request, or a request to it has failed, its worker is gone:
  whatever the environment does afterwards, no tick of it ever succeeds.
\<close>

theorem refused_request_disables_env:
  assumes "begin_request sys i action s = (Inr (Inl e), t)" and "i \<in> set (ev_instances s)"
    and "(env_step sys)\<^sup>*\<^sup>* t u"
  shows "\<exists>e'. fst (advance_single_tick sys u) = Inl e'"
proof -
  have "worker_gone i u"
    using assms(3) by (induction rule: rtranclp_induct) (auto intro: refused_gone[OF assms(1,2)] gone_step)
  then show ?thesis by (rule tick_gone)
qed

theorem refused_request_disables_env_witness:
  "\<exists>e'. fst (advance_single_tick fleet_sys
     (snd (begin_request fleet_sys ''a'' (RWorker (WReadSignals [9])) two_env))) = Inl e'"
proof -
  have no: "\<not> is_ok (fst (worker_exchange fleet_sys ''a'' (RWorker (WReadSignals [9])) two_daemons))" by code_simp
  obtain r w where x: "worker_exchange fleet_sys ''a'' (RWorker (WReadSignals [9])) two_daemons = (r, w)" by fastforce
  then obtain e where e: "r = Inl e" using no by (cases r) auto
  obtain t where t: "begin_request fleet_sys ''a'' (RWorker (WReadSignals [9])) two_env = (Inr (Inl e), t)"
    using x e by (simp add: begin_request_def two_env_def)
  have "''a'' \<in> set (ev_instances two_env)" by (simp add: two_env_def)
  from refused_request_disables_env[OF t this, of t] t show ?thesis by simp
qed

end
