(* ===== verification/Startup_Lock.thy ===== *)
theory Startup_Lock
  imports Prelude
begin

text \<open>
  The lock file that serialises the start of one daemon: \<open>StartupLock\<close> of \<open>process.rs\<close>, as the
  interleaving of the system calls of several processes. A process that finds the file reads it
  (\<open>clear_stale_lock\<close>) and removes it when the process named in it is gone, or when it names none
  and is old; reading and removing are separate calls. Process identifiers are not reused.
\<close>

section \<open>Processes and the lock file\<close>

datatype lock_pc =
  LIdle       \<comment> \<open>not acquiring\<close>
| LTry        \<comment> \<open>about to call \<open>open(create_new)\<close>\<close>
| LWriting    \<comment> \<open>the file was created, the identifier is not written yet\<close>
| LSeen       \<comment> \<open>\<open>create_new\<close> failed with \<open>AlreadyExists\<close>\<close>
| LClearing   \<comment> \<open>the file was found stale and is about to be removed\<close>
| LHolds      \<comment> \<open>\<open>acquire\<close> returned \<open>Ok\<close>\<close>
| LFailed     \<comment> \<open>\<open>acquire\<close> returned an error\<close>
| LGone       \<comment> \<open>the process no longer exists\<close>

record lock_state =
  lk_file :: "(nat \<times> bool) option"
    \<comment> \<open>the process that created it, and whether its identifier is written\<close>
  lk_pc :: "nat \<Rightarrow> lock_pc"

definition lock_init :: lock_state where
  "lock_init = \<lparr>lk_file = None, lk_pc = (\<lambda>_. LIdle)\<rparr>"

definition set_pc :: "nat \<Rightarrow> lock_pc \<Rightarrow> lock_state \<Rightarrow> lock_state" where
  "set_pc p c s = s\<lparr>lk_pc := (lk_pc s)(p := c)\<rparr>"

datatype lock_event =
  EvStart | EvCreate | EvWrite | EvRead | EvOld | EvRemove | EvTimeout | EvDrop | EvCrash

definition lock_event_step :: "lock_event \<Rightarrow> nat \<Rightarrow> lock_state \<Rightarrow> lock_state option" where
  \<comment> \<open>What the next call of process \<open>p\<close> does, or \<open>None\<close> when it is not its next call.\<close>
  "lock_event_step ev p s = (case (ev, lk_pc s p) of
      (EvStart, LIdle) \<Rightarrow> Some (set_pc p LTry s)
    | (EvCreate, LTry) \<Rightarrow>
        (case lk_file s of
           None \<Rightarrow> Some (set_pc p LWriting (s\<lparr>lk_file := Some (p, False)\<rparr>))
         | Some _ \<Rightarrow> Some (set_pc p LSeen s))
    | (EvWrite, LWriting) \<Rightarrow>
        \<comment> \<open>A file that was removed in between is written to without being seen by anybody.\<close>
        Some (set_pc p LHolds (if lk_file s = Some (p, False) then s\<lparr>lk_file := Some (p, True)\<rparr> else s))
    | (EvRead, LSeen) \<Rightarrow>
        (case lk_file s of
           Some (q, True) \<Rightarrow> Some (set_pc p (if lk_pc s q = LGone then LClearing else LTry) s)
         | _ \<Rightarrow> Some (set_pc p LTry s))
    | (EvOld, LSeen) \<Rightarrow>
        (case lk_file s of Some (_, False) \<Rightarrow> Some (set_pc p LClearing s) | _ \<Rightarrow> None)
    | (EvRemove, LClearing) \<Rightarrow>
        (case lk_file s of
           None \<Rightarrow> Some (set_pc p LFailed s)
         | Some _ \<Rightarrow> Some (set_pc p LTry (s\<lparr>lk_file := None\<rparr>)))
    | (EvTimeout, LTry) \<Rightarrow> Some (set_pc p LFailed s)
    | (EvDrop, LHolds) \<Rightarrow> Some (set_pc p LIdle (s\<lparr>lk_file := None\<rparr>))
    | (EvCrash, LHolds) \<Rightarrow> Some (set_pc p LGone s)
    | _ \<Rightarrow> None)"

fun lock_run :: "(lock_event \<times> nat) list \<Rightarrow> lock_state \<Rightarrow> lock_state option" where
  "lock_run [] s = Some s"
| "lock_run ((ev, p) # evs) s = (case lock_event_step ev p s of None \<Rightarrow> None | Some t \<Rightarrow> lock_run evs t)"

inductive lock_steps :: "lock_event set \<Rightarrow> lock_state \<Rightarrow> lock_state \<Rightarrow> bool" for evs where
  lock_refl: "lock_steps evs s s"
| lock_next: "lock_steps evs s t \<Longrightarrow> ev \<in> evs \<Longrightarrow> lock_event_step ev p t = Some u \<Longrightarrow> lock_steps evs s u"

section \<open>Without crashes and old files\<close>

definition lock_owner :: "lock_state \<Rightarrow> nat \<Rightarrow> bool" where
  "lock_owner s p = (lk_pc s p \<in> {LWriting, LHolds})"

definition lock_inv :: "lock_state \<Rightarrow> bool" where
  "lock_inv s \<longleftrightarrow> (\<forall>p. lk_pc s p \<noteq> LGone \<and> lk_pc s p \<noteq> LClearing) \<and>
     (\<forall>p. lock_owner s p \<longleftrightarrow> map_option fst (lk_file s) = Some p)"

lemma lock_step_shape:
  assumes "lock_event_step ev p s = Some t" "ev \<noteq> EvCrash" "ev \<noteq> EvOld"
    and "\<And>q. lk_pc s q \<noteq> LGone \<and> lk_pc s q \<noteq> LClearing"
  shows "t = s\<lparr>lk_file := lk_file t, lk_pc := (lk_pc s)(p := lk_pc t p)\<rparr>"
    and "lk_pc t p \<noteq> LGone" "lk_pc t p \<noteq> LClearing"
    and "lk_file t = lk_file s \<and> lk_pc t p \<notin> {LWriting, LHolds} \<and> \<not> lock_owner s p \<or>
     lk_file s = None \<and> lk_file t = Some (p, False) \<and> lk_pc t p = LWriting \<or>
     lock_owner s p \<and> lk_pc t p = LHolds \<and> map_option fst (lk_file t) = map_option fst (lk_file s) \<or>
     lock_owner s p \<and> lk_pc t p = LIdle \<and> lk_file t = None"
  using assms
  by (cases ev; cases "lk_pc s p";
      auto simp: lock_event_step_def lock_owner_def set_pc_def split: option.splits bool.splits if_splits)+

lemma lock_inv_step:
  assumes inv: "lock_inv s" and step: "lock_event_step ev p s = Some t" and ev: "ev \<noteq> EvCrash" "ev \<noteq> EvOld"
  shows "lock_inv t"
proof -
  have nc: "lk_pc s q \<noteq> LGone \<and> lk_pc s q \<noteq> LClearing" for q using inv by (simp add: lock_inv_def)
  have own: "lock_owner s q \<longleftrightarrow> map_option fst (lk_file s) = Some q" for q
    using inv by (simp add: lock_inv_def)
  note shape = lock_step_shape[OF step ev nc]
  have pcs: "lk_pc t q = (if q = p then lk_pc t p else lk_pc s q)" for q
    by (subst shape(1)) simp
  have other: "lock_owner t q = lock_owner s q" if "q \<noteq> p" for q
    using that pcs[of q] by (simp add: lock_owner_def)
  have self: "lock_owner t p \<longleftrightarrow> lk_pc t p \<in> {LWriting, LHolds}" by (simp add: lock_owner_def)
  have "lock_owner t q \<longleftrightarrow> map_option fst (lk_file t) = Some q" for q
    using shape(4) own[of q] own[of p] other[of q] self
    by (cases "q = p"; cases "lk_file s"; cases "lk_file t") auto
  moreover have "lk_pc t q \<noteq> LGone \<and> lk_pc t q \<noteq> LClearing" for q
    using nc[of q] shape(2,3) pcs[of q] by (cases "q = p") simp_all
  ultimately show ?thesis by (simp add: lock_inv_def)
qed

lemma lock_inv_reachable:
  "lock_steps (UNIV - {EvCrash, EvOld}) s t \<Longrightarrow> lock_inv s \<Longrightarrow> lock_inv t"
  by (induction rule: lock_steps.induct) (auto intro: lock_inv_step)

lemma lock_inv_one_holder:
  assumes "lock_inv s" "lk_pc s p = LHolds" "lk_pc s q = LHolds"
  shows "p = q"
proof -
  have "lock_owner s p" "lock_owner s q" using assms(2,3) by (simp_all add: lock_owner_def)
  then have "map_option fst (lk_file s) = Some p" "map_option fst (lk_file s) = Some q"
    using assms(1) by (simp_all add: lock_inv_def)
  then show ?thesis by simp
qed

lemma lock_run_steps: "lock_run es s = Some t \<Longrightarrow> fst ` set es \<subseteq> evs \<Longrightarrow> lock_steps evs s0 s \<Longrightarrow> lock_steps evs s0 t"
proof (induction es s rule: lock_run.induct)
  case (2 ev p es s)
  then show ?case by (auto split: option.splits intro: lock_next)
qed simp

section \<open>Properties\<close>



text \<open>
  C35: clearing a stale lock is not atomic. When a process has died holding the lock, two others can
  find the file stale; the first removes it and acquires the lock, the second then removes the new
  file and acquires it too. The same happens without any crash when a process is slow to write its
  identifier.
\<close>

theorem startup_lock_stolen:
  "(\<exists>evs s. lock_run evs lock_init = Some s \<and> lk_pc s 1 = LHolds \<and> lk_pc s 2 = LHolds \<and> lk_pc s 0 = LGone) \<and>
   (\<exists>evs s. EvCrash \<notin> fst ` set evs \<and> lock_run evs lock_init = Some s \<and> lk_pc s 0 = LHolds \<and> lk_pc s 1 = LHolds)"
proof
  let ?crash = "[(EvStart, 0), (EvCreate, 0), (EvWrite, 0), (EvCrash, 0),
    (EvStart, 1), (EvCreate, 1), (EvRead, 1), (EvStart, 2), (EvCreate, 2), (EvRead, 2),
    (EvRemove, 1), (EvCreate, 1), (EvWrite, 1), (EvRemove, 2), (EvCreate, 2), (EvWrite, 2)] :: (lock_event \<times> nat) list"
  have "\<exists>s. lock_run ?crash lock_init = Some s \<and> lk_pc s 1 = LHolds \<and> lk_pc s 2 = LHolds \<and> lk_pc s 0 = LGone"
    by (simp add: lock_event_step_def lock_init_def set_pc_def)
  then show "\<exists>evs s. lock_run evs lock_init = Some s \<and> lk_pc s 1 = LHolds \<and> lk_pc s 2 = LHolds \<and> lk_pc s 0 = LGone" ..
  let ?slow = "[(EvStart, 0), (EvCreate, 0), (EvStart, 1), (EvCreate, 1), (EvOld, 1), (EvRemove, 1),
    (EvCreate, 1), (EvWrite, 1), (EvWrite, 0)] :: (lock_event \<times> nat) list"
  have "EvCrash \<notin> fst ` set ?slow \<and> (\<exists>s. lock_run ?slow lock_init = Some s \<and> lk_pc s 0 = LHolds \<and> lk_pc s 1 = LHolds)"
    by (simp add: lock_event_step_def lock_init_def set_pc_def)
  then show "\<exists>evs s. EvCrash \<notin> fst ` set evs \<and> lock_run evs lock_init = Some s \<and> lk_pc s 0 = LHolds \<and> lk_pc s 1 = LHolds"
    by blast
qed

end
