(* ===== verification/Lifecycle.thy ===== *)
theory Lifecycle
  imports Protocol Startup_Lock Sim_Validation
begin

text \<open>
  Starting, finding and cleaning up daemons from the command line: \<open>daemon/lifecycle.rs\<close>,
  \<open>envd/lifecycle.rs\<close> and \<open>StartupLock::acquire\<close> of \<open>process.rs\<close>. Files, processes, sockets and clocks
  belong to the host, a parameter that works on a world of any type; times are in milliseconds. A
  lock is waited for in a loop that need not end, so a start returns an optional result.
\<close>

section \<open>The host\<close>

datatype child_state = PollFailed | StillRunning | Exited string

datatype create_result = Created | AlreadyThere | CreateFailed

record 'w host =
  h_root :: string  \<comment> \<open>\<open>session_root()\<close>\<close>
  h_mkdir :: "string \<Rightarrow> 'w \<Rightarrow> bool \<times> 'w"
  h_connect :: "string \<Rightarrow> 'w \<Rightarrow> bool \<times> 'w"
  h_read :: "string \<Rightarrow> 'w \<Rightarrow> string option"  \<comment> \<open>\<open>read_to_string\<close>\<close>
  h_write :: "string \<Rightarrow> string \<Rightarrow> 'w \<Rightarrow> bool \<times> 'w"
  h_sync :: "string \<Rightarrow> 'w \<Rightarrow> bool \<times> 'w"
  h_create_new :: "string \<Rightarrow> 'w \<Rightarrow> create_result \<times> 'w"
  h_exists :: "string \<Rightarrow> 'w \<Rightarrow> bool"
  h_remove :: "string \<Rightarrow> 'w \<Rightarrow> bool \<times> 'w"
  h_cleanup_endpoint :: "string \<Rightarrow> 'w \<Rightarrow> 'w"
  h_read_dir :: "string \<Rightarrow> 'w \<Rightarrow> string option list option"
    \<comment> \<open>the paths of the entries, \<open>None\<close> for an entry that cannot be read\<close>
  h_age :: "string \<Rightarrow> 'w \<Rightarrow> nat option"  \<comment> \<open>time since the last change, \<open>None\<close> without metadata\<close>
  h_now :: "'w \<Rightarrow> nat \<times> 'w"
  h_sleep :: "nat \<Rightarrow> 'w \<Rightarrow> 'w"
  h_uuid_text :: "'w \<Rightarrow> string \<times> 'w"
  h_own_pid :: string
  h_pid_exists :: "u32 \<Rightarrow> 'w \<Rightarrow> bool option"
  h_current_exe :: "string option"
  h_spawn :: "string list \<Rightarrow> 'w \<Rightarrow> u32 option \<times> 'w"
  h_try_wait :: "u32 \<Rightarrow> 'w \<Rightarrow> child_state \<times> 'w"
  h_stderr :: "u32 \<Rightarrow> 'w \<Rightarrow> string \<times> 'w"
  h_kill_wait :: "u32 \<Rightarrow> 'w \<Rightarrow> 'w"

datatype lifecycle_error =
  StartupTimeout
| StartupFailed string
| AlreadyRunning string
| NotRunning string
| BadName name_error
| SpecNotWritten
| LockTimeout string
| LifecycleIo

definition join_path :: "string \<Rightarrow> string \<Rightarrow> string" where
  \<comment> \<open>\<open>Path::join\<close>\<close>
  "join_path a b =
     (if starts_with ''/'' b then b
      else if a = [] \<or> last a = CHR ''/'' then a @ b else a @ CHR ''/'' # b)"

definition remove_quietly :: "'w host \<Rightarrow> string \<Rightarrow> 'w \<Rightarrow> 'w" where
  "remove_quietly h path w = snd (h_remove h path w)"

definition remove_if_there :: "'w host \<Rightarrow> string \<Rightarrow> 'w \<Rightarrow> 'w" where
  "remove_if_there h path w = (if h_exists h path w then remove_quietly h path w else w)"

definition make_dir :: "'w host \<Rightarrow> string \<Rightarrow> ('w, lifecycle_error, unit) act" where
  "make_dir h path w = (case h_mkdir h path w of (ok, w1) \<Rightarrow> (guard_err (\<not> ok) LifecycleIo, w1))"

section \<open>Paths\<close>

definition socket_path :: "'w host \<Rightarrow> string \<Rightarrow> string" where
  "socket_path h session = join_path (h_root h) (session @ ''.sock'')"

definition pid_path :: "'w host \<Rightarrow> string \<Rightarrow> string" where
  "pid_path h session = join_path (h_root h) (session @ ''.pid'')"

definition meta_path :: "'w host \<Rightarrow> string \<Rightarrow> string" where
  "meta_path h session = join_path (h_root h) (session @ ''.meta'')"

definition bootstrap_dir :: "'w host \<Rightarrow> string" where
  "bootstrap_dir h = join_path (h_root h) ''bootstrap''"

definition startup_lock_path :: "'w host \<Rightarrow> string \<Rightarrow> string" where
  "startup_lock_path h session = join_path (join_path (h_root h) ''locks'') (session @ ''.instance.lock'')"

definition env_root :: "'w host \<Rightarrow> string" where
  "env_root h = join_path (h_root h) ''envs''"

definition env_bootstrap_dir :: "'w host \<Rightarrow> string" where
  "env_bootstrap_dir h = join_path (env_root h) ''bootstrap''"

definition env_socket_path :: "'w host \<Rightarrow> string \<Rightarrow> string" where
  "env_socket_path h env = join_path (env_root h) (env @ ''.sock'')"

definition env_lock_path :: "'w host \<Rightarrow> string \<Rightarrow> string" where
  "env_lock_path h env = join_path (join_path (env_root h) ''locks'') (env @ ''.env.lock'')"

definition env_pid_path :: "'w host \<Rightarrow> string \<Rightarrow> string" where
  "env_pid_path h env = join_path (env_root h) (env @ ''.pid'')"

section \<open>The lock\<close>

definition LOCK_POLL_INTERVAL :: nat where "LOCK_POLL_INTERVAL = 50"
definition STALE_INVALID_LOCK_AGE :: nat where "STALE_INVALID_LOCK_AGE = 1000"

definition try_create_lock :: "'w host \<Rightarrow> string \<Rightarrow> 'w \<Rightarrow> create_result \<times> 'w" where
  "try_create_lock h path w = (case h_create_new h path w of
      (Created, w1) \<Rightarrow>
        (case h_write h path (h_own_pid h @ [CHR 0x0A]) w1 of
           (False, w2) \<Rightarrow> (CreateFailed, w2)
         | (True, w2) \<Rightarrow> (case h_sync h path w2 of (ok, w3) \<Rightarrow> (if ok then Created else CreateFailed, w3)))
    | (r, w1) \<Rightarrow> (r, w1))"

definition remove_stale :: "'w host \<Rightarrow> string \<Rightarrow> ('w, lifecycle_error, bool) act" where
  "remove_stale h path w = (case h_remove h path w of (ok, w1) \<Rightarrow> (if ok then Inr True else Inl LifecycleIo, w1))"

definition clear_stale_lock :: "'w host \<Rightarrow> string \<Rightarrow> ('w, lifecycle_error, bool) act" where
  "clear_stale_lock h path w = (case h_read h path w of
      None \<Rightarrow> (Inr False, w)
    | Some contents \<Rightarrow> (case parse_u32 (trim contents) of
        Some owner \<Rightarrow> (case h_pid_exists h owner w of
            None \<Rightarrow> (Inl LifecycleIo, w)
          | Some True \<Rightarrow> (Inr False, w)
          | Some False \<Rightarrow> remove_stale h path w)
      | None \<Rightarrow> (case h_age h path w of
            None \<Rightarrow> (Inl LifecycleIo, w)
          | Some age \<Rightarrow> if STALE_INVALID_LOCK_AGE \<le> age then remove_stale h path w else (Inr False, w))))"

partial_function (option) acquire_loop ::
    "'w host \<Rightarrow> string \<Rightarrow> nat \<Rightarrow> 'w \<Rightarrow> ((lifecycle_error + unit) \<times> 'w) option" where
  "acquire_loop h path deadline w = (case try_create_lock h path w of
      (Created, w1) \<Rightarrow> Some (Inr (), w1)
    | (CreateFailed, w1) \<Rightarrow> Some (Inl LifecycleIo, w1)
    | (AlreadyThere, w1) \<Rightarrow> (case clear_stale_lock h path w1 of
        (Inl e, w2) \<Rightarrow> Some (Inl e, w2)
      | (Inr cleared, w2) \<Rightarrow>
          if cleared then acquire_loop h path deadline w2
          else (case h_now h w2 of (t, w3) \<Rightarrow>
            if deadline \<le> t then Some (Inl (LockTimeout path), w3)
            else acquire_loop h path deadline (h_sleep h LOCK_POLL_INTERVAL w3))))"

definition lock_acquire ::
    "'w host \<Rightarrow> string \<Rightarrow> string \<Rightarrow> nat \<Rightarrow> 'w \<Rightarrow> ((lifecycle_error + unit) \<times> 'w) option" where
  \<comment> \<open>\<open>StartupLock::acquire\<close>, with the path's parent.\<close>
  "lock_acquire h parent path timeout w = (case make_dir h parent w of
      (Inl e, w1) \<Rightarrow> Some (Inl e, w1)
    | (Inr _, w1) \<Rightarrow> (case h_now h w1 of (t, w2) \<Rightarrow> acquire_loop h path (t + timeout) w2))"

definition with_startup_lock ::
    "'w host \<Rightarrow> string \<Rightarrow> string \<Rightarrow> ('w, lifecycle_error, unit) act \<Rightarrow> 'w \<Rightarrow>
     ((lifecycle_error + unit) \<times> 'w) option" where
  \<comment> \<open>\<open>Drop\<close> removes the file on every way out.\<close>
  "with_startup_lock h parent path body w = (case lock_acquire h parent path 10000 w of
      None \<Rightarrow> None
    | Some (Inl e, w1) \<Rightarrow> Some (Inl e, w1)
    | Some (Inr _, w1) \<Rightarrow> (case body w1 of (r, w2) \<Rightarrow> Some (r, remove_quietly h path w2)))"

section \<open>Starting a daemon\<close>

definition read_pid :: "'w host \<Rightarrow> string \<Rightarrow> 'w \<Rightarrow> u32 option" where
  "read_pid h pidfile w = (case h_read h pidfile w of None \<Rightarrow> None | Some v \<Rightarrow> parse_u32 (trim v))"

definition exit_message :: "string \<Rightarrow> string \<Rightarrow> string \<Rightarrow> string" where
  "exit_message what status stderr =
     (let details = trim stderr in if details = [] then what @ '' exited with status '' @ status else details)"

function wait_until_up ::
    "'w host \<Rightarrow> string \<Rightarrow> string \<Rightarrow> string \<Rightarrow> string \<Rightarrow> u32 \<Rightarrow> nat \<Rightarrow> ('w, lifecycle_error, unit) act" where
  "wait_until_up h what pidfile socket spec_path child waited w =
     (if waited < 5000 then
        (case (if read_pid h pidfile w = Some child then h_connect h socket w else (False, w)) of
           (True, w1) \<Rightarrow> (Inr (), remove_quietly h spec_path w1)
         | (False, w1) \<Rightarrow> (case h_try_wait h child w1 of
             (PollFailed, w2) \<Rightarrow> (Inl LifecycleIo, w2)
           | (Exited status, w2) \<Rightarrow> (case h_stderr h child w2 of (text, w3) \<Rightarrow>
               (Inl (StartupFailed (exit_message what status text)), remove_quietly h spec_path w3))
           | (StillRunning, w2) \<Rightarrow>
               wait_until_up h what pidfile socket spec_path child (waited + 100) (h_sleep h 100 w2)))
      else (Inl StartupTimeout, h_kill_wait h child (remove_quietly h spec_path w)))"
  by pat_completeness auto
termination
  by (relation "measure (\<lambda>(_, _, _, _, _, _, waited, _). 5000 - waited)") auto

declare wait_until_up.simps [simp del]

definition ensure_running :: "'w host \<Rightarrow> string \<Rightarrow> ('w, lifecycle_error, unit) act" where
  "ensure_running h session =
     a_bind (a_lift (map_err BadName (validate_instance_name session))) (\<lambda>_.
     a_bind (make_dir h (h_root h)) (\<lambda>_.
     \<lambda>w. case h_connect h (socket_path h session) w of (ok, w1) \<Rightarrow>
       (if ok then Inr () else Inl (NotRunning session), w1)))"

definition env_ensure_running :: "'w host \<Rightarrow> string \<Rightarrow> ('w, lifecycle_error, unit) act" where
  "env_ensure_running h env =
     a_bind (a_lift (map_err BadName (validate_env_name env))) (\<lambda>_.
     a_bind (make_dir h (env_root h)) (\<lambda>_.
     \<lambda>w. case h_connect h (env_socket_path h env) w of (ok, w1) \<Rightarrow>
       (if ok then Inr () else Inl (NotRunning env), w1)))"

definition start_locked ::
    "'w host \<Rightarrow> (string \<Rightarrow> 'w \<Rightarrow> bool \<times> 'w) \<Rightarrow> string \<Rightarrow> string \<Rightarrow> ('w, lifecycle_error, unit) act" where
  \<comment> \<open>The part of \<open>bootstrap_with_exe\<close> under the lock; \<open>write_spec\<close> is \<open>write_load_spec\<close> of the spec.\<close>
  "start_locked h write_spec exe session w =
     (case h_connect h (socket_path h session) w of
        (True, w1) \<Rightarrow> (Inl (AlreadyRunning session), w1)
      | (False, w1) \<Rightarrow> (case h_uuid_text h w1 of (u, w2) \<Rightarrow>
          let spec_path = join_path (bootstrap_dir h) (session @ ''-'' @ u @ ''.json'') in
          case write_spec spec_path w2 of
            (False, w3) \<Rightarrow> (Inl SpecNotWritten, w3)
          | (True, w3) \<Rightarrow> (case h_spawn h [exe, ''__internal'', ''instance-daemon'', ''--instance'', session,
                ''--load-spec-path'', spec_path] w3 of
              (None, w4) \<Rightarrow> (Inl LifecycleIo, remove_quietly h spec_path w4)
            | (Some child, w4) \<Rightarrow>
                wait_until_up h ''daemon'' (pid_path h session) (socket_path h session) spec_path child 0 w4)))"

definition bootstrap_with_exe ::
    "'w host \<Rightarrow> (string \<Rightarrow> 'w \<Rightarrow> bool \<times> 'w) \<Rightarrow> string \<Rightarrow> string \<Rightarrow> 'w \<Rightarrow>
     ((lifecycle_error + unit) \<times> 'w) option" where
  "bootstrap_with_exe h write_spec exe session w =
     (case a_bind (a_lift (map_err BadName (validate_instance_name session))) (\<lambda>_.
           a_bind (make_dir h (h_root h)) (\<lambda>_. make_dir h (bootstrap_dir h))) w of
        (Inl e, w1) \<Rightarrow> Some (Inl e, w1)
      | (Inr _, w1) \<Rightarrow> with_startup_lock h (join_path (h_root h) ''locks'') (startup_lock_path h session)
          (start_locked h write_spec exe session) w1)"

definition bootstrap_daemon ::
    "'w host \<Rightarrow> (string \<Rightarrow> 'w \<Rightarrow> bool \<times> 'w) \<Rightarrow> string \<Rightarrow> 'w \<Rightarrow> ((lifecycle_error + unit) \<times> 'w) option" where
  "bootstrap_daemon h write_spec session w = (case h_current_exe h of
      None \<Rightarrow> Some (Inl LifecycleIo, w)
    | Some exe \<Rightarrow> bootstrap_with_exe h write_spec exe session w)"

definition spawn_env_daemon :: "'w host \<Rightarrow> string \<Rightarrow> 'w \<Rightarrow> u32 option \<times> 'w" where
  "spawn_env_daemon h spec_path w = (case h_current_exe h of
      None \<Rightarrow> (None, w)
    | Some exe \<Rightarrow> h_spawn h [exe, ''__internal'', ''env-daemon'', ''--env-spec-path'', spec_path] w)"

definition env_start_locked ::
    "'w host \<Rightarrow> (string \<Rightarrow> 'w \<Rightarrow> bool \<times> 'w) \<Rightarrow> string \<Rightarrow> ('w, lifecycle_error, unit) act" where
  "env_start_locked h write_spec env w =
     (case h_connect h (env_socket_path h env) w of
        (True, w1) \<Rightarrow> (Inl (AlreadyRunning env), w1)
      | (False, w1) \<Rightarrow> (case h_uuid_text h w1 of (u, w2) \<Rightarrow>
          let spec_path = join_path (env_bootstrap_dir h) (env @ ''-'' @ u @ ''.json'') in
          case write_spec spec_path w2 of
            (False, w3) \<Rightarrow> (Inl SpecNotWritten, w3)
          | (True, w3) \<Rightarrow> (case spawn_env_daemon h spec_path w3 of
              (None, w4) \<Rightarrow> (Inl LifecycleIo, w4)
            | (Some child, w4) \<Rightarrow>
                wait_until_up h ''env daemon'' (env_pid_path h env) (env_socket_path h env) spec_path child 0 w4)))"

definition env_bootstrap ::
    "'w host \<Rightarrow> (string \<Rightarrow> 'w \<Rightarrow> bool \<times> 'w) \<Rightarrow> string \<Rightarrow> 'w \<Rightarrow> ((lifecycle_error + unit) \<times> 'w) option" where
  "env_bootstrap h write_spec env w =
     (case a_bind (a_lift (map_err BadName (validate_env_name env))) (\<lambda>_.
           a_bind (make_dir h (env_root h)) (\<lambda>_. make_dir h (env_bootstrap_dir h))) w of
        (Inl e, w1) \<Rightarrow> Some (Inl e, w1)
      | (Inr _, w1) \<Rightarrow> with_startup_lock h (join_path (env_root h) ''locks'') (env_lock_path h env)
          (env_start_locked h write_spec env) w1)"

section \<open>The registry\<close>

record instance_runtime_info =
  rt_name :: string
  rt_socket_path :: string
  rt_running :: bool
  rt_env :: "string option"

definition path_file_stem :: "string \<Rightarrow> string option" where
  \<comment> \<open>\<open>Path::file_stem\<close>\<close>
  "path_file_stem p = (case path_file_name p of
      None \<Rightarrow> None
    | Some n \<Rightarrow> (case rsplit_once CHR ''.'' n of
        None \<Rightarrow> Some n
      | Some (stem, _) \<Rightarrow> Some (if stem = [] then n else stem)))"

definition read_env_tag :: "'w host \<Rightarrow> string \<Rightarrow> 'w \<Rightarrow> string option" where
  "read_env_tag h session w = (case h_read h (meta_path h session) w of
      None \<Rightarrow> None
    | Some v \<Rightarrow> let t = trim v in if t = [] then None else Some t)"

definition write_env_tag :: "'w host \<Rightarrow> string \<Rightarrow> string option \<Rightarrow> ('w, lifecycle_error, unit) act" where
  "write_env_tag h session env w = (case env of
      Some e \<Rightarrow> (case h_write h (meta_path h session) e w of (ok, w1) \<Rightarrow> (guard_err (\<not> ok) LifecycleIo, w1))
    | None \<Rightarrow> (Inr (), remove_if_there h (meta_path h session) w))"

definition remove_env_tag :: "'w host \<Rightarrow> string \<Rightarrow> 'w \<Rightarrow> 'w" where
  "remove_env_tag h session w = remove_if_there h (meta_path h session) w"

definition cleanup_runtime_artifacts :: "'w host \<Rightarrow> string \<Rightarrow> 'w \<Rightarrow> 'w" where
  "cleanup_runtime_artifacts h session w =
     remove_env_tag h session
       (remove_if_there h (pid_path h session)
         (h_cleanup_endpoint h (socket_path h session) w))"

definition sock_stem :: "string \<Rightarrow> string option" where
  \<comment> \<open>The name of the daemon whose endpoint the path is.\<close>
  "sock_stem path =
     (if path_extension path \<noteq> Some ''sock'' then None
      else case path_file_stem path of
        Some stem \<Rightarrow> if utf8_valid stem then Some stem else None
      | None \<Rightarrow> None)"

fun scan_endpoints ::
    "'w host \<Rightarrow> (string \<Rightarrow> string \<Rightarrow> bool \<Rightarrow> 'w \<Rightarrow> 'r) \<Rightarrow> string option list \<Rightarrow> ('w, lifecycle_error, 'r list) act" where
  \<comment> \<open>The loop of \<open>list_instances\<close> and \<open>list_envs\<close>; \<open>row\<close> takes name, path and whether it can be
    connected to.\<close>
  "scan_endpoints h row [] w = (Inr [], w)"
| "scan_endpoints h row (None # es) w = (Inl LifecycleIo, w)"
| "scan_endpoints h row (Some path # es) w = (case sock_stem path of
      None \<Rightarrow> scan_endpoints h row es w
    | Some stem \<Rightarrow> (case h_connect h path w of (running, w1) \<Rightarrow>
        (case scan_endpoints h row es w1 of
           (Inl e, w2) \<Rightarrow> (Inl e, w2)
         | (Inr rest, w2) \<Rightarrow> (Inr (row stem path running w1 # rest), w2))))"

definition scan_dir ::
    "'w host \<Rightarrow> (string \<Rightarrow> string \<Rightarrow> bool \<Rightarrow> 'w \<Rightarrow> 'r) \<Rightarrow> string \<Rightarrow> ('w, lifecycle_error, 'r list) act" where
  "scan_dir h row dir =
     a_bind (make_dir h dir) (\<lambda>_.
     \<lambda>w. case h_read_dir h dir w of
       None \<Rightarrow> (Inl LifecycleIo, w)
     | Some es \<Rightarrow> scan_endpoints h row es w)"

definition instance_row :: "'w host \<Rightarrow> string \<Rightarrow> string \<Rightarrow> bool \<Rightarrow> 'w \<Rightarrow> instance_runtime_info" where
  "instance_row h stem path running w =
     \<lparr>rt_name = stem, rt_socket_path = path, rt_running = running, rt_env = read_env_tag h stem w\<rparr>"

definition list_instances :: "'w host \<Rightarrow> ('w, lifecycle_error, instance_runtime_info list) act" where
  "list_instances h = a_bind (scan_dir h (instance_row h) (h_root h)) (\<lambda>rows. a_ret (sort_key rt_name rows))"

definition list_envs :: "'w host \<Rightarrow> ('w, lifecycle_error, (string \<times> string \<times> bool) list) act" where
  "list_envs h =
     a_bind (scan_dir h (\<lambda>stem path running _. (stem, path, running)) (env_root h)) (\<lambda>rows. a_ret (sort_key fst rows))"

section \<open>Waiting for the lock and for the daemon\<close>

text \<open>A clock that calls never turn back and that a sleep moves on.\<close>

definition clocked :: "'w host \<Rightarrow> string \<Rightarrow> ('w \<Rightarrow> nat) \<Rightarrow> bool" where
  "clocked h path clock \<longleftrightarrow>
     (\<forall>w. h_now h w = (clock w, w)) \<and> (\<forall>d w. clock w + d \<le> clock (h_sleep h d w)) \<and>
     (\<forall>w. clock w \<le> clock (snd (try_create_lock h path w))) \<and>
     (\<forall>w. clock w \<le> clock (snd (clear_stale_lock h path w)))"

lemma acquire_returns:
  assumes c: "clocked h path clock" and stale: "\<And>w. fst (clear_stale_lock h path w) \<noteq> Inr True"
  shows "\<exists>r. acquire_loop h path deadline w = Some r"
proof (induction "deadline - clock w" arbitrary: w rule: less_induct)
  case less
  obtain c1 w1 where 1: "try_create_lock h path w = (c1, w1)" by fastforce
  obtain c2 w2 where 2: "clear_stale_lock h path w1 = (c2, w2)" by fastforce
  have now: "h_now h w2 = (clock w2, w2)" using c by (simp add: clocked_def)
  have "clock w \<le> clock w1" "clock w1 \<le> clock w2" "clock w2 + 50 \<le> clock (h_sleep h 50 w2)"
    using c 1 2 unfolding clocked_def by (metis snd_conv)+
  then have "deadline - clock (h_sleep h 50 w2) < deadline - clock w \<or> deadline \<le> clock w2" by linarith
  then have "\<exists>r. acquire_loop h path deadline (h_sleep h 50 w2) = Some r \<or> deadline \<le> clock w2"
    using less by blast
  moreover have "c2 \<noteq> Inr True" using stale[of w1] 2 by simp
  ultimately show ?case
    by (subst acquire_loop.simps)
      (auto simp: 1 2 now LOCK_POLL_INTERVAL_def split: create_result.split sum.split)
qed

lemma wait_until_up_result:
  assumes "wait_until_up h what pidfile socket spec_path child waited w = (r, t)"
  shows "(r = Inr () \<longrightarrow> (\<exists>u v. read_pid h pidfile u = Some child \<and> h_connect h socket u = (True, v) \<and>
      t = remove_quietly h spec_path v)) \<and>
    (r = Inl StartupTimeout \<longrightarrow> (\<exists>u. t = h_kill_wait h child (remove_quietly h spec_path u)))"
  using assms
proof (induction h what pidfile socket spec_path child waited w rule: wait_until_up.induct)
  case (1 h what pidfile socket spec_path child waited w)
  show ?case
  proof (cases "waited < 5000")
    case False
    then show ?thesis using 1(2) by (subst (asm) wait_until_up.simps) auto
  next
    case True
    obtain ok w1 where c: "(if read_pid h pidfile w = Some child then h_connect h socket w else (False, w)) = (ok, w1)"
      by fastforce
    obtain st w2 where st: "h_try_wait h child w1 = (st, w2)" by fastforce
    show ?thesis
    proof (cases ok)
      case ok: True
      then have "read_pid h pidfile w = Some child" "h_connect h socket w = (True, w1)"
        using c by (auto split: if_splits)
      moreover have "r = Inr ()" "t = remove_quietly h spec_path w1"
        using 1(2) True ok c by (subst (asm) wait_until_up.simps; simp)+
      ultimately show ?thesis by auto
    next
      case no: False
      show ?thesis
      proof (cases st)
        case StillRunning
        have "wait_until_up h what pidfile socket spec_path child (waited + 100) (h_sleep h 100 w2) = (r, t)"
          using 1(2) True no c st StillRunning by (subst (asm) wait_until_up.simps) simp
        then show ?thesis using 1(1)[OF True c[symmetric] _ st[symmetric] StillRunning] no by simp
      next
        case PollFailed
        then show ?thesis using 1(2) True no c st by (subst (asm) wait_until_up.simps) auto
      next
        case (Exited status)
        then show ?thesis using 1(2) True no c st
          by (subst (asm) wait_until_up.simps) (auto split: prod.splits)
      qed
    qed
  qed
qed

lemma stale_error: "clear_stale_lock h path w = (Inl e, t) \<Longrightarrow> e \<noteq> StartupTimeout"
  by (auto simp: clear_stale_lock_def remove_stale_def split: option.splits bool.splits if_splits prod.splits)

lemma acquire_error:
  assumes "acquire_loop h path deadline w = Some out"
  shows "fst out \<noteq> Inl StartupTimeout"
proof (rule acquire_loop.raw_induct[where P = "\<lambda>h path deadline w out. fst out \<noteq> Inl StartupTimeout", OF _ assms])
  fix f h path deadline w out
  assume IH: "\<And>h path deadline w y. f h path deadline w = Some y \<Longrightarrow> fst y \<noteq> Inl StartupTimeout"
    and step: "(case try_create_lock h path w of
      (Created, w1) \<Rightarrow> Some (Inr (), w1)
    | (AlreadyThere, w1) \<Rightarrow> (case clear_stale_lock h path w1 of
        (Inl e, w2) \<Rightarrow> Some (Inl e, w2)
      | (Inr cleared, w2) \<Rightarrow>
          if cleared then f h path deadline w2
          else (case h_now h w2 of (t, w3) \<Rightarrow>
            if deadline \<le> t then Some (Inl (LockTimeout path), w3)
            else f h path deadline (h_sleep h LOCK_POLL_INTERVAL w3)))
    | (CreateFailed, w1) \<Rightarrow> Some (Inl LifecycleIo, w1)) = Some out"
  show "fst out \<noteq> Inl StartupTimeout"
    using step IH stale_error[of h path]
    by (auto split: prod.splits create_result.splits sum.splits if_splits)
qed

lemma lock_acquire_error:
  assumes "lock_acquire h parent path timeout w = Some (Inl e, t)"
  shows "e \<noteq> StartupTimeout"
proof -
  obtain d w1 where d: "make_dir h parent w = (d, w1)" by fastforce
  obtain n w2 where n: "h_now h w1 = (n, w2)" by fastforce
  show ?thesis
  proof (cases d)
    case (Inl e')
    then have "e' = LifecycleIo" using d by (auto simp: make_dir_def guard_err_def split: prod.splits if_splits)
    then show ?thesis using assms d Inl by (simp add: lock_acquire_def)
  next
    case (Inr u)
    then have "acquire_loop h path (n + timeout) w2 = Some (Inl e, t)"
      using assms d n by (simp add: lock_acquire_def)
    from acquire_error[OF this] show ?thesis by simp
  qed
qed

lemma start_locked_result:
  assumes "start_locked h write_spec exe session w = (r, t)"
  shows "(r = Inr () \<longrightarrow> (\<exists>spec child w3 w4 u v.
      h_spawn h [exe, ''__internal'', ''instance-daemon'', ''--instance'', session, ''--load-spec-path'', spec] w3 = (Some child, w4) \<and>
      read_pid h (pid_path h session) u = Some child \<and> h_connect h (socket_path h session) u = (True, v) \<and>
      t = remove_quietly h spec v)) \<and>
    (r = Inl StartupTimeout \<longrightarrow> (\<exists>spec child w3 w4 u.
      h_spawn h [exe, ''__internal'', ''instance-daemon'', ''--instance'', session, ''--load-spec-path'', spec] w3 = (Some child, w4) \<and>
      t = h_kill_wait h child (remove_quietly h spec u)))"
proof -
  obtain up w1 where 1: "h_connect h (socket_path h session) w = (up, w1)" by fastforce
  obtain n w2 where 2: "h_uuid_text h w1 = (n, w2)" by fastforce
  let ?spec = "join_path (bootstrap_dir h) (session @ ''-'' @ n @ ''.json'')"
  obtain ok w3 where 3: "write_spec ?spec w2 = (ok, w3)" by fastforce
  obtain c w4 where 4: "h_spawn h [exe, ''__internal'', ''instance-daemon'', ''--instance'', session,
      ''--load-spec-path'', ?spec] w3 = (c, w4)" by fastforce
  show ?thesis
  proof (cases "\<exists>child. \<not> up \<and> ok \<and> c = Some child")
    case False
    then show ?thesis using assms
      using 1 2 3 4 by (cases up; cases ok; cases c) (auto simp: start_locked_def Let_def)
  next
    case True
    then obtain child where c: "\<not> up" ok "c = Some child" by blast
    have "wait_until_up h ''daemon'' (pid_path h session) (socket_path h session) ?spec child 0 w4 = (r, t)"
      using assms c 1 2 3 4 by (simp add: start_locked_def Let_def)
    from wait_until_up_result[OF this] show ?thesis using 4 c(3) by blast
  qed
qed

section \<open>A host with one daemon\<close>

definition tiny_host :: "nat host" where
  "tiny_host = \<lparr>h_root = ''/r'', h_mkdir = (\<lambda>_ n. (True, n)), h_connect = (\<lambda>_ n. (0 < n, n)),
     h_read = (\<lambda>p n. if 0 < n \<and> p = ''/r/s.pid'' then Some ''7'' else None), h_write = (\<lambda>_ _ n. (True, n)),
     h_sync = (\<lambda>_ n. (True, n)), h_create_new = (\<lambda>_ n. (Created, n)), h_exists = (\<lambda>_ _. False),
     h_remove = (\<lambda>_ n. (True, n)), h_cleanup_endpoint = (\<lambda>_ n. n), h_read_dir = (\<lambda>_ _. Some []),
     h_age = (\<lambda>_ _. None), h_now = (\<lambda>n. (0, n)), h_sleep = (\<lambda>_ n. n), h_uuid_text = (\<lambda>n. (''u'', n)),
     h_own_pid = ''3'', h_pid_exists = (\<lambda>_ _. Some True), h_current_exe = Some ''/exe'',
     h_spawn = (\<lambda>_ n. (Some 7, 1)), h_try_wait = (\<lambda>_ n. (StillRunning, n)), h_stderr = (\<lambda>_ n. ([], n)),
     h_kill_wait = (\<lambda>_ n. n)\<rparr>"

section \<open>Properties\<close>

text \<open>
  C12: when starting an instance reports success, the name is valid, a process was spawned for it, the
  pid file named exactly that process and the socket accepted a connection; when it reports a
  timeout, the process it had spawned has been killed. In both cases the spec file has been removed
  and the start lock released.
\<close>

theorem daemon_start_sound:
  assumes "bootstrap_with_exe h write_spec exe session w = Some (r, t)" and "r = Inr () \<or> r = Inl StartupTimeout"
  shows "validate_instance_name session = Inr () \<and> (\<exists>spec child w3 w4 u.
      h_spawn h [exe, ''__internal'', ''instance-daemon'', ''--instance'', session, ''--load-spec-path'', spec] w3 = (Some child, w4) \<and>
      (if r = Inr ()
       then read_pid h (pid_path h session) u = Some child \<and> fst (h_connect h (socket_path h session) u) \<and>
         t = remove_quietly h (startup_lock_path h session)
           (remove_quietly h spec (snd (h_connect h (socket_path h session) u)))
       else t = remove_quietly h (startup_lock_path h session) (h_kill_wait h child (remove_quietly h spec u))))"
proof -
  let ?pre = "a_bind (a_lift (map_err BadName (validate_instance_name session))) (\<lambda>_.
    a_bind (make_dir h (h_root h)) (\<lambda>_. make_dir h (bootstrap_dir h)))"
  obtain p w1 where pre: "?pre w = (p, w1)" by fastforce
  have io: "e \<noteq> StartupTimeout" if "make_dir h d x = (Inl e, y)" for d x e y
    using that by (auto simp: make_dir_def guard_err_def split: prod.splits if_splits)
  have p: "p = Inr ()"
  proof (cases p)
    case (Inl e)
    have "e \<noteq> StartupTimeout"
      using pre Inl io by (auto simp: a_bind_cases map_err_def split: sum.splits)
    then show ?thesis using assms pre Inl by (auto simp: bootstrap_with_exe_def)
  qed simp
  then have name: "validate_instance_name session = Inr ()"
    using pre by (cases "validate_instance_name session") (auto simp: a_bind_def map_err_def)
  have locked: "with_startup_lock h (join_path (h_root h) ''locks'') (startup_lock_path h session)
      (start_locked h write_spec exe session) w1 = Some (r, t)"
    using assms(1) pre p by (simp add: bootstrap_with_exe_def)
  obtain l w2 where l: "lock_acquire h (join_path (h_root h) ''locks'') (startup_lock_path h session) 10000 w1 = Some (l, w2)"
    using locked by (auto simp: with_startup_lock_def split: option.splits)
  show ?thesis
  proof (cases l)
    case (Inl e)
    then have "r = Inl e" using locked l by (simp add: with_startup_lock_def)
    moreover have "e \<noteq> StartupTimeout" using lock_acquire_error[OF l[unfolded Inl]] .
    ultimately show ?thesis using assms(2) by auto
  next
    case (Inr u)
    obtain s w3 where s: "start_locked h write_spec exe session w2 = (s, w3)" by fastforce
    have "s = r" "t = remove_quietly h (startup_lock_path h session) w3"
      using locked l Inr s by (auto simp: with_startup_lock_def)
    then show ?thesis using start_locked_result[OF s] name assms(2)
      by (elim disjE) (simp, metis fst_conv snd_conv)+
  qed
qed

theorem daemon_start_sound_witness:
  "bootstrap_with_exe tiny_host (\<lambda>_ n. (True, n)) ''/exe'' ''s'' 0 = Some (Inr (), 1) \<and>
   validate_instance_name ''s'' = Inr ()"
proof -
  have name: "validate_instance_name ''s'' = Inr ()" by code_simp
  have "read_pid tiny_host (pid_path tiny_host ''s'') 1 = Some 7" by code_simp
  then have "bootstrap_with_exe tiny_host (\<lambda>_ n. (True, n)) ''/exe'' ''s'' 0 = Some (Inr (), 1)"
    by (simp add: bootstrap_with_exe_def name map_err_def a_bind_def make_dir_def guard_err_def with_startup_lock_def
        lock_acquire_def acquire_loop.simps try_create_lock_def start_locked_def wait_until_up.simps
        remove_quietly_def tiny_host_def Let_def)
  from daemon_start_sound[OF this] this show ?thesis by blast
qed

text \<open>
  Waiting for the start lock ends: with a clock that sleeping moves on, and when the lock file is
  not found stale again and again, the loop returns, at the latest when its time is over.
\<close>

theorem lock_acquire_terminates:
  assumes "clocked h path clock" and "\<And>w. fst (clear_stale_lock h path w) \<noteq> Inr True"
  shows "\<exists>r. lock_acquire h parent path timeout w = Some r"
  using acquire_returns[OF assms] unfolding lock_acquire_def by (auto split: sum.split prod.split)

definition held_host :: "nat host" where
  "held_host = tiny_host\<lparr>h_create_new := (\<lambda>_ n. (AlreadyThere, n)), h_read := (\<lambda>_ _. Some ''4''),
     h_now := (\<lambda>n. (n, n)), h_sleep := (\<lambda>d n. n + d)\<rparr>"

theorem lock_acquire_terminates_witness:
  "\<exists>r. lock_acquire held_host ''/r/locks'' ''/r/locks/s.instance.lock'' 10000 5 = Some r"
proof (rule lock_acquire_terminates[where clock = "\<lambda>n. n"])
  have four: "parse_u32 (trim ''4'') = Some 4" by code_simp
  then have same: "clear_stale_lock held_host path n = (Inr False, n)" for path n
    by (simp add: clear_stale_lock_def held_host_def tiny_host_def)
  then show "fst (clear_stale_lock held_host path n) \<noteq> Inr True" for path n by simp
  show "clocked held_host path (\<lambda>n. n)" for path
    using same by (simp add: clocked_def try_create_lock_def held_host_def tiny_host_def)
qed

end
