(* ===== verification/Connection.thy ===== *)
theory Connection
  imports Lifecycle
begin

text \<open>
  Requests from the command line to a daemon: \<open>connection.rs\<close>. Connecting, writing and reading with
  a time limit are the host's; the text of requests and responses is serde's. What is modelled is the
  preparation of the daemon, one exchange, which failures are tried again, how long is waited and when
  it stops.
\<close>

section \<open>Errors\<close>

datatype io_kind =
  NotFound | ConnectionRefused | ConnectionAborted | ConnectionReset | TimedOut | Interrupted | OtherKind

datatype io_end = Elapsed | IoFailed io_kind  \<comment> \<open>how a timed call fails\<close>

datatype connection_error =
  CDaemon lifecycle_error
| CEnvDaemon lifecycle_error
| CTimeout
| CIo io_kind
| CSerde
| CMissingResponse

section \<open>The transport\<close>

text \<open>Durations are in nanoseconds; the longest is \<open>2\<^sup>64\<close> seconds less one nanosecond.\<close>

definition MAX_DURATION :: nat where "MAX_DURATION = 2 ^ 64 * 10 ^ 9 - 1"

record request_transport =
  max_attempts :: u32
  retry_delay_base :: nat
  connect_timeout :: nat
  write_timeout :: nat
  read_timeout :: nat

definition default_transport :: request_transport where
  "default_transport = \<lparr>max_attempts = 3, retry_delay_base = 100 * 10 ^ 6,
     connect_timeout = 2 * 10 ^ 9, write_timeout = 5 * 10 ^ 9, read_timeout = 30 * 10 ^ 9\<rparr>"

record ('w, 'e) wire_sys =
  ws_connect :: "nat \<Rightarrow> string \<Rightarrow> 'w \<Rightarrow> (io_end + unit) \<times> 'w"
  ws_write :: "nat \<Rightarrow> string \<Rightarrow> 'w \<Rightarrow> (io_end + unit) \<times> 'w"
  ws_read_line :: "nat \<Rightarrow> 'w \<Rightarrow> (io_end + string) \<times> 'w"
  ws_sleep :: "nat \<Rightarrow> 'w \<Rightarrow> 'w"
  ws_show :: "request \<Rightarrow> string option"
  ws_parse :: "string \<Rightarrow> 'e response option"

definition ended :: "io_end \<Rightarrow> connection_error" where
  "ended e = (case e of Elapsed \<Rightarrow> CTimeout | IoFailed k \<Rightarrow> CIo k)"

definition timed :: "('w \<Rightarrow> (io_end + 'a) \<times> 'w) \<Rightarrow> ('w, connection_error, 'a) act" where
  \<comment> \<open>\<open>timeout(d, f).await.map_err(|_| Timeout)??\<close>\<close>
  "timed f w = (case f w of (r, w1) \<Rightarrow> (map_err ended r, w1))"

definition send_once ::
    "('w, 'e) wire_sys \<Rightarrow> request_transport \<Rightarrow> string \<Rightarrow> string \<Rightarrow> ('w, connection_error, 'e response) act" where
  "send_once ws t endpoint msg =
     a_bind (timed (ws_connect ws (connect_timeout t) endpoint)) (\<lambda>_.
     a_bind (timed (ws_write ws (write_timeout t) msg)) (\<lambda>_.
     a_bind (timed (ws_read_line ws (read_timeout t))) (\<lambda>line.
     if line = [] then a_fail CMissingResponse
     else a_lift (ok_or CSerde (ws_parse ws (trim_end line))))))"

definition should_retry :: "connection_error \<Rightarrow> bool" where
  "should_retry err = (case err of
      CTimeout \<Rightarrow> True
    | CIo kind \<Rightarrow> kind \<in> {NotFound, ConnectionRefused, ConnectionAborted, ConnectionReset, TimedOut, Interrupted}
    | _ \<Rightarrow> False)"

definition retry_delay_for_attempt :: "request_transport \<Rightarrow> nat \<Rightarrow> nat" where
  "retry_delay_for_attempt t attempt =
     (let shift = min (attempt - 1) 3; d = retry_delay_base t * 2 ^ shift
      in if d \<le> MAX_DURATION then d else MAX_DURATION)"

function send_loop ::
    "('w, 'e) wire_sys \<Rightarrow> request_transport \<Rightarrow> string \<Rightarrow> string \<Rightarrow> nat \<Rightarrow>
     ('w, connection_error, 'e response) act" where
  "send_loop ws t endpoint msg attempt w =
     (case send_once ws t endpoint msg w of
        (Inr rsp, w1) \<Rightarrow> (Inr rsp, w1)
      | (Inl err, w1) \<Rightarrow>
          if unat (max_attempts t) \<le> attempt + 1 \<or> \<not> should_retry err then (Inl err, w1)
          else send_loop ws t endpoint msg (attempt + 1)
            (ws_sleep ws (retry_delay_for_attempt t (attempt + 1)) w1))"
  by pat_completeness auto
termination
  by (relation "measure (\<lambda>(_, t, _, _, attempt, _). unat (max_attempts t) - attempt)") auto

declare send_loop.simps [simp del]

definition send_to_endpoint ::
    "('w, 'e) wire_sys \<Rightarrow> request_transport \<Rightarrow> string \<Rightarrow> request \<Rightarrow> ('w, connection_error, 'e response) act" where
  "send_to_endpoint ws t endpoint rq = (case ws_show ws rq of
      None \<Rightarrow> a_fail CSerde
    | Some line \<Rightarrow> send_loop ws t endpoint (line @ [CHR 0x0A]) 0)"

section \<open>Requests\<close>

type_synonym ('w, 'a) may_hang = "'w \<Rightarrow> ((connection_error + 'a) \<times> 'w) option"

definition session_prepare ::
    "'w host \<Rightarrow> (load_spec \<Rightarrow> string \<Rightarrow> 'w \<Rightarrow> bool \<times> 'w) \<Rightarrow> string \<Rightarrow> request \<Rightarrow> ('w, unit) may_hang" where
  "session_prepare h write_spec session rq w = (case rq_action rq of
      RInstance (ILoad spec) \<Rightarrow>
        map_option (\<lambda>(r, w1). (map_err CDaemon r, w1)) (bootstrap_daemon h (write_spec spec) session w)
    | _ \<Rightarrow> (case ensure_running h session w of (r, w1) \<Rightarrow> Some (map_err CDaemon r, w1)))"

definition send_request ::
    "'w host \<Rightarrow> ('w, 'e) wire_sys \<Rightarrow> (load_spec \<Rightarrow> string \<Rightarrow> 'w \<Rightarrow> bool \<times> 'w) \<Rightarrow> string \<Rightarrow> request \<Rightarrow>
     ('w, 'e response) may_hang" where
  "send_request h ws write_spec session rq w = (case session_prepare h write_spec session rq w of
      None \<Rightarrow> None
    | Some (Inl e, w1) \<Rightarrow> Some (Inl e, w1)
    | Some (Inr _, w1) \<Rightarrow> Some (send_to_endpoint ws default_transport (socket_path h session) rq w1))"

definition send_env_request ::
    "'w host \<Rightarrow> ('w, 'e) wire_sys \<Rightarrow> string \<Rightarrow> request \<Rightarrow> ('w, connection_error, 'e response) act" where
  "send_env_request h ws env rq =
     a_bind (a_map_err CEnvDaemon (env_ensure_running h env)) (\<lambda>_.
     send_to_endpoint ws default_transport (env_socket_path h env) rq)"

section \<open>How often a request is sent\<close>

text \<open>The exchanges of a run of the loop: what each returned and the world it started in.\<close>

fun attempts_from ::
    "('w, 'e) wire_sys \<Rightarrow> request_transport \<Rightarrow> string \<Rightarrow> string \<Rightarrow> nat \<Rightarrow> nat \<Rightarrow> 'w \<Rightarrow> 'w" where
  \<comment> \<open>The world in which exchange \<open>attempt + k\<close> starts.\<close>
  "attempts_from ws t endpoint msg attempt 0 w = w"
| "attempts_from ws t endpoint msg attempt (Suc k) w =
     attempts_from ws t endpoint msg (attempt + 1) k
       (ws_sleep ws (retry_delay_for_attempt t (attempt + 1)) (snd (send_once ws t endpoint msg w)))"

lemma send_loop_result:
  "\<exists>k. (k = 0 \<or> attempt + k < unat (max_attempts t)) \<and>
     send_loop ws t endpoint msg attempt w = send_once ws t endpoint msg (attempts_from ws t endpoint msg attempt k w) \<and>
     (\<forall>j < k. \<exists>e. fst (send_once ws t endpoint msg (attempts_from ws t endpoint msg attempt j w)) = Inl e \<and> should_retry e) \<and>
     (\<forall>e. fst (send_loop ws t endpoint msg attempt w) = Inl e \<longrightarrow>
        \<not> should_retry e \<or> unat (max_attempts t) \<le> attempt + k + 1)"
proof (induction ws t endpoint msg attempt w rule: send_loop.induct)
  case (1 ws t endpoint msg attempt w)
  obtain r w1 where once: "send_once ws t endpoint msg w = (r, w1)" by fastforce
  show ?case
  proof (cases r)
    case (Inr rsp)
    then show ?thesis using once by (intro exI[of _ 0]) (simp add: send_loop.simps)
  next
    case (Inl err)
    show ?thesis
    proof (cases "unat (max_attempts t) \<le> attempt + 1 \<or> \<not> should_retry err")
      case True
      then show ?thesis using once Inl by (intro exI[of _ 0]) (auto simp: send_loop.simps)
    next
      case False
      let ?w2 = "ws_sleep ws (retry_delay_for_attempt t (attempt + 1)) w1"
      have step: "send_loop ws t endpoint msg attempt w = send_loop ws t endpoint msg (attempt + 1) ?w2"
        using once Inl False by (subst send_loop.simps) simp
      obtain k where k: "k = 0 \<or> attempt + 1 + k < unat (max_attempts t)"
        "send_loop ws t endpoint msg (attempt + 1) ?w2 =
           send_once ws t endpoint msg (attempts_from ws t endpoint msg (attempt + 1) k ?w2)"
        "\<forall>j < k. \<exists>e. fst (send_once ws t endpoint msg (attempts_from ws t endpoint msg (attempt + 1) j ?w2)) = Inl e \<and> should_retry e"
        "\<forall>e. fst (send_loop ws t endpoint msg (attempt + 1) ?w2) = Inl e \<longrightarrow>
           \<not> should_retry e \<or> unat (max_attempts t) \<le> attempt + 1 + k + 1"
        using 1[OF once[symmetric] Inl False] by blast
      have "\<exists>e. fst (send_once ws t endpoint msg (attempts_from ws t endpoint msg attempt j w)) = Inl e \<and> should_retry e"
        if "j < Suc k" for j
        using that k(3) once Inl False by (cases j) auto
      then show ?thesis using k False once Inl by (intro exI[of _ "Suc k"]) (auto simp: step)
    qed
  qed
qed

text \<open>A peer that takes every request but answers too late; \<open>taken\<close> counts the requests it took.\<close>

definition late_peer :: "('w, 'e) wire_sys \<Rightarrow> ('w \<Rightarrow> nat) \<Rightarrow> bool" where
  "late_peer ws taken \<longleftrightarrow>
     (\<forall>d ep w. fst (ws_connect ws d ep w) = Inr () \<and> taken (snd (ws_connect ws d ep w)) = taken w) \<and>
     (\<forall>d m w. fst (ws_write ws d m w) = Inr () \<and> taken (snd (ws_write ws d m w)) = taken w + 1) \<and>
     (\<forall>d w. fst (ws_read_line ws d w) = Inl Elapsed \<and> taken (snd (ws_read_line ws d w)) = taken w) \<and>
     (\<forall>d w. taken (ws_sleep ws d w) = taken w)"

lemma send_once_late:
  assumes "late_peer ws taken"
  shows "\<exists>u. send_once ws t ep msg w = (Inl CTimeout, u) \<and> taken u = taken w + 1"
proof -
  obtain r1 w1 where 1: "ws_connect ws (connect_timeout t) ep w = (r1, w1)" by fastforce
  obtain r2 w2 where 2: "ws_write ws (write_timeout t) msg w1 = (r2, w2)" by fastforce
  obtain r3 w3 where 3: "ws_read_line ws (read_timeout t) w2 = (r3, w3)" by fastforce
  have a: "r1 = Inr ()" "taken w1 = taken w" using assms 1 unfolding late_peer_def by (metis fst_conv, metis snd_conv)
  have b: "r2 = Inr ()" "taken w2 = taken w1 + 1" using assms 2 unfolding late_peer_def by (metis fst_conv, metis snd_conv)
  have c: "r3 = Inl Elapsed" "taken w3 = taken w2" using assms 3 unfolding late_peer_def by (metis fst_conv, metis snd_conv)
  show ?thesis using a b c by (simp add: send_once_def timed_def a_bind_def 1 2 3 ended_def)
qed

lemma send_loop_late:
  assumes late: "late_peer ws taken"
  shows "attempt < unat (max_attempts t) \<Longrightarrow>
    \<exists>u. send_loop ws t ep msg attempt w = (Inl CTimeout, u) \<and> taken u = taken w + (unat (max_attempts t) - attempt)"
proof (induction "unat (max_attempts t) - attempt" arbitrary: attempt w rule: less_induct)
  case less
  obtain w1 where once: "send_once ws t ep msg w = (Inl CTimeout, w1)" "taken w1 = taken w + 1"
    using send_once_late[OF late] by blast
  show ?case
  proof (cases "unat (max_attempts t) \<le> attempt + 1")
    case True
    then have "unat (max_attempts t) - attempt = 1" using less.prems by simp
    then show ?thesis using once True by (subst send_loop.simps) simp
  next
    case False
    let ?w2 = "ws_sleep ws (retry_delay_for_attempt t (attempt + 1)) w1"
    have "taken ?w2 = taken w + 1" using late once(2) by (simp add: late_peer_def)
    moreover have "unat (max_attempts t) - (attempt + 1) < unat (max_attempts t) - attempt"
      "attempt + 1 < unat (max_attempts t)" using False less.prems by auto
    then obtain u where "send_loop ws t ep msg (attempt + 1) ?w2 = (Inl CTimeout, u)"
      "taken u = taken ?w2 + (unat (max_attempts t) - (attempt + 1))"
      using less.hyps[of "attempt + 1" ?w2] by blast
    ultimately show ?thesis using once(1) False
      by (subst send_loop.simps) (simp add: should_retry_def)
  qed
qed

section \<open>Properties\<close>

text \<open>
  A request is sent at most as often as the transport allows (three times by default, and always
  at least once), every exchange but the last failed in a way that may pass, what is returned is what
  the last exchange gave, and an error is returned only when it is final or the attempts are used up.
\<close>

theorem retry_bounded:
  assumes "ws_show ws rq = Some line"
  shows "\<exists>k < max 1 (unat (max_attempts t)).
    let start = attempts_from ws t endpoint (line @ [CHR 0x0A]) 0; once = send_once ws t endpoint (line @ [CHR 0x0A]) in
      send_to_endpoint ws t endpoint rq w = once (start k w) \<and>
      (\<forall>j < k. \<exists>e. fst (once (start j w)) = Inl e \<and> should_retry e) \<and>
      (\<forall>e. fst (once (start k w)) = Inl e \<longrightarrow> \<not> should_retry e \<or> unat (max_attempts t) \<le> k + 1)"
proof -
  obtain k where k: "k = 0 \<or> 0 + k < unat (max_attempts t)"
    and run: "send_loop ws t endpoint (line @ [CHR 0x0A]) 0 w =
      send_once ws t endpoint (line @ [CHR 0x0A]) (attempts_from ws t endpoint (line @ [CHR 0x0A]) 0 k w)"
    and rest: "\<forall>j < k. \<exists>e. fst (send_once ws t endpoint (line @ [CHR 0x0A])
        (attempts_from ws t endpoint (line @ [CHR 0x0A]) 0 j w)) = Inl e \<and> should_retry e"
      "\<forall>e. fst (send_loop ws t endpoint (line @ [CHR 0x0A]) 0 w) = Inl e \<longrightarrow>
        \<not> should_retry e \<or> unat (max_attempts t) \<le> 0 + k + 1"
    using send_loop_result[of 0 t ws endpoint "line @ [CHR 0x0A]" w] by blast
  have "k < max 1 (unat (max_attempts t))" using k by auto
  moreover have "send_to_endpoint ws t endpoint rq w = send_loop ws t endpoint (line @ [CHR 0x0A]) 0 w"
    using assms by (simp add: send_to_endpoint_def)
  ultimately show ?thesis using run rest unfolding Let_def by (intro exI[of _ k]) simp
qed

definition late_sys :: "(nat, unit) wire_sys" where
  "late_sys = \<lparr>ws_connect = (\<lambda>_ _ n. (Inr (), n)), ws_write = (\<lambda>_ _ n. (Inr (), n + 1)),
     ws_read_line = (\<lambda>_ n. (Inl Elapsed, n)), ws_sleep = (\<lambda>_ n. n),
     ws_show = (\<lambda>_. Some ''{}''), ws_parse = (\<lambda>_. None)\<rparr>"

theorem retry_bounded_witness:
  "snd (send_to_endpoint late_sys default_transport ''/tmp/s.sock'' \<lparr>rq_id = 1, rq_action = RInstance IPing\<rparr> 0) \<le> 3"
proof -
  have line: "ws_show late_sys \<lparr>rq_id = 1, rq_action = RInstance IPing\<rparr> = Some ''{}''" by (simp add: late_sys_def)
  have max: "max 1 (unat (max_attempts default_transport)) = 3" by (simp add: default_transport_def)
  obtain k where k: "k < 3" and run: "send_to_endpoint late_sys default_transport ''/tmp/s.sock''
      \<lparr>rq_id = 1, rq_action = RInstance IPing\<rparr> 0 =
      send_once late_sys default_transport ''/tmp/s.sock'' (''{}'' @ [CHR 0x0A])
        (attempts_from late_sys default_transport ''/tmp/s.sock'' (''{}'' @ [CHR 0x0A]) 0 k 0)"
    using retry_bounded[OF line, of default_transport "''/tmp/s.sock''" 0] unfolding max Let_def by blast
  have "attempts_from late_sys default_transport ''/tmp/s.sock'' m a k n \<le> n + k" for m a k n
  proof (induction k arbitrary: a n)
    case (Suc k)
    then show ?case using Suc[of "a + 1" "Suc n"]
      by (simp add: late_sys_def send_once_def timed_def a_bind_def)
  qed simp
  note grow = this
  show ?thesis
    using k grow[of "''{}'' @ [CHR 0x0A]" 0 k 0]
    unfolding run by (simp add: late_sys_def send_once_def timed_def a_bind_def)
qed

text \<open>
  C24: a timeout of the read is taken for a failure that may pass, so a request is carried out again
  although the daemon has already taken it: with a daemon that answers too late, one request is
  carried out as often as the transport allows attempts, three times by default.
\<close>

theorem late_answer_repeats_request:
  assumes "late_peer ws taken" and "ws_show ws rq = Some line"
  shows "\<exists>u. send_to_endpoint ws default_transport endpoint rq w = (Inl CTimeout, u) \<and> taken u = taken w + 3"
  using send_loop_late[OF assms(1), of 0 default_transport endpoint "line @ [CHR 0x0A]" w] assms(2)
  by (simp add: send_to_endpoint_def default_transport_def)

theorem late_answer_repeats_request_witness:
  "send_to_endpoint late_sys default_transport ''/tmp/s.sock''
     \<lparr>rq_id = 1, rq_action = RInstance (ITimeStep ''1s'')\<rparr> 0 = (Inl CTimeout, 3)"
proof -
  have "late_peer late_sys (\<lambda>n. n)" by (simp add: late_peer_def late_sys_def)
  moreover have "ws_show late_sys \<lparr>rq_id = 1, rq_action = RInstance (ITimeStep ''1s'')\<rparr> = Some ''{}''"
    by (simp add: late_sys_def)
  ultimately show ?thesis using late_answer_repeats_request[of late_sys "\<lambda>n. n" _ "''{}''" "''/tmp/s.sock''" 0] by simp
qed

end
