(* ===== verification/Config.thy ===== *)
theory Config
  imports Trace Containers
begin

text \<open>
  The configuration file: the types of \<open>config/recipe.rs\<close> and the look-ups of \<open>config/mod.rs\<close>. The
  TOML text itself is the parser's; where it is read from is modelled.
\<close>

section \<open>Values and tables\<close>

datatype toml_value =
  TString string
| TInteger "64 word"  \<comment> \<open>an \<open>i64\<close>\<close>
| TFloat f64
| TBoolean bool
| TDatetime string
| TArray "toml_value list"
| TTable "(string \<times> toml_value) list"

record flash_file_block_def =
  fb_file :: string
  fb_format :: "string option"
  fb_base :: "string option"

datatype flash_block_def =
  FlashFile flash_file_block_def
| InlineU32 u32 string
| InlineI32 u32 string
| InlineF32 u32 string  \<comment> \<open>the bits of the \<open>f32\<close>\<close>
| InlineBool bool string

record load_defaults =
  ld_lib :: "string option"
  ld_flash :: "flash_block_def list"

record defaults_config =
  df_json :: "bool option"
  df_speed :: "f64 option"
  df_load :: "load_defaults option"

record device_def =
  dv_lib :: string
  dv_flash :: "flash_block_def list"

record env_instance =
  ei_name :: string
  ei_lib :: "string option"
  ei_device :: "string option"

record env_can_bus_def =
  cd_members :: "string list"
  cd_vcan :: string
  cd_dbc :: "string option"

record env_shared_channel_def =
  sd_members :: "string list"
  sd_writer :: string

record env_def =
  ed_instances :: "env_instance list"
  ed_can :: "(string, env_can_bus_def) btree"
  ed_shared :: "(string, env_shared_channel_def) btree"

section \<open>Recipes\<close>

datatype print_spec = PrintAll string | PrintSignals "string list"

datatype step_spec = StepDuration string | StepDetailed string "string option"

record assert_spec =
  as_signal :: string
  as_instance :: "string option"
  as_eq :: "toml_value option"
  as_gt :: "f64 option"
  as_lt :: "f64 option"
  as_gte :: "f64 option"
  as_lte :: "f64 option"
  as_approx :: "f64 option"
  as_tolerance :: "f64 option"

text \<open>The last argument of a step is its own instance.\<close>

datatype recipe_step =
  RecSet "(string, toml_value) btree" "string option"
| RecStep step_spec "string option"
| RecPrint print_spec "string option"
| RecSpeed f64 "string option"
| RecReset "string option"
| RecSleep "64 word"
| RecFor for_spec "string option"
| RecAssert assert_spec
and for_spec = ForSpec string f64 f64 f64 "recipe_step list"
  \<comment> \<open>signal, from, to, by, each\<close>

record recipe_def =
  rc_description :: "string option"
  rc_env :: "string list"
  rc_instances :: "string list"
  rc_instance :: "string option"
  rc_steps :: "recipe_step list"

record file_config =
  fc_defaults :: "defaults_config option"
  fc_device :: "(string, device_def) btree"
  fc_recipe :: "(string, recipe_def) btree"
  fc_env :: "(string, env_def) btree"

datatype config_error =
  ConfigParse
| MissingRecipe string
| MissingEnv string
| UnsupportedSetValue
| ConfigIo

definition toml_value_to_cli_string :: "toml_value \<Rightarrow> config_error + string" where
  "toml_value_to_cli_string v = (case v of
      TString s \<Rightarrow> Inr s
    | TInteger n \<Rightarrow> Inr (show_int (sint n))
    | TFloat x \<Rightarrow> Inr (show_float (rnd64 False) x)
    | TBoolean b \<Rightarrow> Inr (if b then ''true'' else ''false'')
    | _ \<Rightarrow> Inl UnsupportedSetValue)"

section \<open>Finding and reading the file\<close>

record app_config =
  ac_file :: file_config
  ac_source_path :: "string option"

definition default_config :: app_config where
  "default_config = \<lparr>ac_file = \<lparr>fc_defaults = None, fc_device = [], fc_recipe = [], fc_env = []\<rparr>,
     ac_source_path = None\<rparr>"

definition config_recipe :: "app_config \<Rightarrow> string \<Rightarrow> config_error + recipe_def" where
  "config_recipe c name = ok_or (MissingRecipe name) (bt_get (fc_recipe (ac_file c)) name)"

definition config_env :: "app_config \<Rightarrow> string \<Rightarrow> config_error + env_def" where
  "config_env c name = ok_or (MissingEnv name) (bt_get (fc_env (ac_file c)) name)"

record config_host =
  ch_env_var :: "string option"  \<comment> \<open>\<open>AGENT_SIM_CONFIG\<close>\<close>
  ch_local_path :: "string option"  \<comment> \<open>\<open>current_dir()?.join("agent-sim.toml")\<close>\<close>
  ch_exists :: "string \<Rightarrow> bool"
  ch_read :: "string \<Rightarrow> string option"
  ch_parse :: "string \<Rightarrow> file_config option"

definition load_single :: "config_host \<Rightarrow> string \<Rightarrow> config_error + app_config" where
  "load_single h path =
     res_bind (ok_or ConfigIo (ch_read h path)) (\<lambda>content.
     res_bind (ok_or ConfigParse (ch_parse h content)) (\<lambda>f.
     Inr \<lparr>ac_file = f, ac_source_path = Some path\<rparr>))"

definition load_config :: "config_host \<Rightarrow> string option \<Rightarrow> config_error + app_config" where
  "load_config h explicit = (case explicit of
      Some path \<Rightarrow> load_single h path
    | None \<Rightarrow> (case ch_env_var h of
        Some path \<Rightarrow> load_single h path
      | None \<Rightarrow> res_bind (ok_or ConfigIo (ch_local_path h)) (\<lambda>path.
          if ch_exists h path then load_single h path else Inr default_config)))"

end
