(* ===== verification/Load_Resolve.thy ===== *)
theory Load_Resolve
  imports Config Lifecycle Daemon_Actions
begin

text \<open>
  From the command line and the configuration to a load spec: \<open>load/resolve.rs\<close>. What the file system
  says is a parameter: \<open>fs_canonical\<close> is \<open>std::fs::canonicalize\<close>, \<open>fs_content\<close> the bytes of a file.
\<close>

section \<open>Paths\<close>

record path_host =
  fs_canonical :: "string \<Rightarrow> string option"
  fs_current_dir :: "string option"
  fs_content :: "string \<Rightarrow> string option"

datatype load_resolve_error =
  NoLibrary
| PathNotFound string string  \<comment> \<open>kind and path\<close>
| LibAndDevice string
| NoLibNoDevice string
| MissingDevice string string
| FlashError flash_parse_error

definition resolve_runtime_path :: "path_host \<Rightarrow> string \<Rightarrow> string option \<Rightarrow> string" where
  "resolve_runtime_path h raw base =
     (if is_absolute_path raw then raw
      else case base of
        Some dir \<Rightarrow> join_path dir raw
      | None \<Rightarrow> join_path (case fs_current_dir h of Some dir \<Rightarrow> dir | None \<Rightarrow> ''.'') raw)"

definition canonicalize_existing_path :: "path_host \<Rightarrow> string \<Rightarrow> string \<Rightarrow> load_resolve_error + string" where
  "canonicalize_existing_path h path kind = ok_or (PathNotFound kind path) (fs_canonical h path)"

definition NATIVE_EXTENSION :: string where
  "NATIVE_EXTENSION = ''so''"

function drop_path_tail :: "string \<Rightarrow> string" where
  \<comment> \<open>Without the separators and \<open>.\<close> components at the end, which \<open>Path\<close> ignores.\<close>
  "drop_path_tail p =
     (if p \<noteq> [] \<and> last p = CHR ''/'' then drop_path_tail (butlast p)
      else case strip_suffix ''/.'' p of Some q \<Rightarrow> drop_path_tail q | None \<Rightarrow> p)"
  by pat_completeness auto
termination
  by (relation "measure length") (auto simp: strip_suffix_def split: if_splits)

definition with_extension :: "string \<Rightarrow> string \<Rightarrow> string" where
  \<comment> \<open>\<open>Path::with_extension\<close>\<close>
  "with_extension p ext = (case (path_file_name p, path_file_stem p) of
      (Some n, Some stem) \<Rightarrow>
        let q = drop_path_tail p in take (length q - length n + length stem) q @ CHR ''.'' # ext
    | _ \<Rightarrow> p)"

definition shared_library_fallbacks :: "string \<Rightarrow> string list" where
  "shared_library_fallbacks path = (case path_extension path of
      Some ext \<Rightarrow> if ext \<noteq> NATIVE_EXTENSION then [with_extension path NATIVE_EXTENSION] else []
    | None \<Rightarrow> [utf8_lossy path @ CHR ''.'' # NATIVE_EXTENSION])"

definition canonicalize_runtime_candidate :: "path_host \<Rightarrow> string \<Rightarrow> string \<Rightarrow> load_resolve_error + string" where
  "canonicalize_runtime_candidate h path kind = (case fs_canonical h path of
      Some c \<Rightarrow> Inr c
    | None \<Rightarrow>
        (case (if kind = ''shared library''
               then find (\<lambda>f. fs_canonical h f \<noteq> None) (shared_library_fallbacks path) else None) of
           Some fallback \<Rightarrow> Inr (the (fs_canonical h fallback))
         | None \<Rightarrow> canonicalize_existing_path h path kind))"

definition canonicalize_runtime_path ::
    "path_host \<Rightarrow> string \<Rightarrow> string option \<Rightarrow> string \<Rightarrow> load_resolve_error + string" where
  "canonicalize_runtime_path h raw base kind =
     res_bind (canonicalize_runtime_candidate h (resolve_runtime_path h raw base) kind) (\<lambda>c.
     Inr (utf8_lossy c))"

section \<open>Flash blocks\<close>

definition option_res :: "('a \<Rightarrow> 'e + 'b) \<Rightarrow> 'a option \<Rightarrow> 'e + 'b option" where
  \<comment> \<open>\<open>opt.map(f).transpose()?\<close>\<close>
  "option_res f v = (case v of None \<Rightarrow> Inr None | Some x \<Rightarrow> res_bind (f x) (\<lambda>y. Inr (Some y)))"

definition flash_failure :: "flash_parse_error failure \<Rightarrow> load_resolve_error failure" where
  "flash_failure e = (case e of Fails f \<Rightarrow> Fails (FlashError f) | Panics \<Rightarrow> Panics)"

definition read_flash_at ::
    "path_host \<Rightarrow> string option \<Rightarrow> string \<Rightarrow> string option \<Rightarrow> string option \<Rightarrow>
     load_resolve_error failure + flash_region list" where
  \<comment> \<open>Path, then base address, then the file.\<close>
  "read_flash_at h dir file format base =
     res_bind (map_err Fails (canonicalize_existing_path h (resolve_runtime_path h file dir) ''flash file'')) (\<lambda>path.
     res_bind (map_err (\<lambda>e. Fails (FlashError e)) (option_res parse_address base)) (\<lambda>addr.
     map_err flash_failure (resolve_flash_file (fs_content h) path format addr)))"

definition resolve_flash_file_block ::
    "path_host \<Rightarrow> string option \<Rightarrow> flash_file_block_def \<Rightarrow> load_resolve_error failure + flash_region list" where
  "resolve_flash_file_block h dir block = read_flash_at h dir (fb_file block) (fb_format block) (fb_base block)"

definition inline_region :: "string \<Rightarrow> u8 list \<Rightarrow> load_resolve_error failure + flash_region list" where
  "inline_region addr bytes =
     res_bind (map_err (\<lambda>e. Fails (FlashError e)) (parse_address addr)) (\<lambda>a.
     Inr [\<lparr>base_addr = a, region_data = bytes\<rparr>])"

definition resolve_flash_block ::
    "path_host \<Rightarrow> string option \<Rightarrow> flash_block_def \<Rightarrow> load_resolve_error failure + flash_region list" where
  "resolve_flash_block h dir block = (case block of
      FlashFile f \<Rightarrow> resolve_flash_file_block h dir f
    | InlineU32 v addr \<Rightarrow> inline_region addr (encode_inline_u32 v)
    | InlineI32 v addr \<Rightarrow> inline_region addr (encode_inline_i32 v)
    | InlineF32 v addr \<Rightarrow> inline_region addr (encode_inline_f32 v)
    | InlineBool v addr \<Rightarrow> inline_region addr (encode_inline_bool v))"

definition merged :: "flash_region list list \<Rightarrow> load_resolve_error failure + flash_region list" where
  "merged parts = map_err (\<lambda>e. Fails (FlashError e)) (merge_regions (concat parts))"

definition resolve_flash_blocks ::
    "path_host \<Rightarrow> flash_block_def list \<Rightarrow> string option \<Rightarrow> load_resolve_error failure + flash_region list" where
  "resolve_flash_blocks h blocks dir = res_bind (map_res (resolve_flash_block h dir) blocks) merged"

definition parse_cli_flash_entry :: "string \<Rightarrow> string \<times> string option" where
  "parse_cli_flash_entry raw = (case rsplit_once CHR '':'' raw of
      None \<Rightarrow> (raw, None)
    | Some (path, maybe_base) \<Rightarrow>
        if starts_with ''0x'' maybe_base \<or> starts_with ''0X'' maybe_base \<or>
           maybe_base \<noteq> [] \<and> list_all is_ascii_digit maybe_base
        then (path, Some maybe_base) else (raw, None))"

definition resolve_cli_flash_entry ::
    "path_host \<Rightarrow> string option \<Rightarrow> string \<Rightarrow> load_resolve_error failure + flash_region list" where
  "resolve_cli_flash_entry h dir entry = (case parse_cli_flash_entry entry of
      (path, base) \<Rightarrow> read_flash_at h dir path None base)"

definition resolve_cli_flash_entries ::
    "path_host \<Rightarrow> string list \<Rightarrow> string option \<Rightarrow> load_resolve_error failure + flash_region list" where
  "resolve_cli_flash_entries h entries dir = res_bind (map_res (resolve_cli_flash_entry h dir) entries) merged"

section \<open>Load specs\<close>

definition resolve_standalone_load_spec ::
    "path_host \<Rightarrow> file_config \<Rightarrow> string option \<Rightarrow> string option \<Rightarrow> string list \<Rightarrow> string option \<Rightarrow>
     load_resolve_error failure + load_spec" where
  "resolve_standalone_load_spec h config dir cli_libpath cli_flash env_tag =
     (let defaults = Option.bind (fc_defaults config) df_load;
          raw = (case cli_libpath of Some p \<Rightarrow> Some p | None \<Rightarrow> Option.bind defaults ld_lib) in
      res_bind (ok_or (Fails NoLibrary) raw) (\<lambda>raw_libpath.
      res_bind (map_err Fails (canonicalize_runtime_path h raw_libpath dir ''shared library'')) (\<lambda>libpath.
      res_bind (if cli_flash = []
                then resolve_flash_blocks h (case defaults of None \<Rightarrow> [] | Some d \<Rightarrow> ld_flash d) dir
                else resolve_cli_flash_entries h cli_flash dir) (\<lambda>flash.
      Inr \<lparr>ls_libpath = libpath, ls_env_tag = env_tag, ls_flash = flash\<rparr>))))"

definition resolve_env_member_load_spec ::
    "path_host \<Rightarrow> env_instance \<Rightarrow> (string, device_def) btree \<Rightarrow> string option \<Rightarrow> string option \<Rightarrow>
     load_resolve_error failure + load_spec" where
  "resolve_env_member_load_spec h member devices dir env_tag = (case (ei_lib member, ei_device member) of
      (Some _, Some _) \<Rightarrow> fail (LibAndDevice (ei_name member))
    | (None, None) \<Rightarrow> fail (NoLibNoDevice (ei_name member))
    | (Some lib, None) \<Rightarrow>
        res_bind (map_err Fails (canonicalize_runtime_path h lib dir ''shared library'')) (\<lambda>libpath.
        Inr \<lparr>ls_libpath = libpath, ls_env_tag = env_tag, ls_flash = []\<rparr>)
    | (None, Some device_name) \<Rightarrow>
        res_bind (ok_or (Fails (MissingDevice (ei_name member) device_name)) (bt_get devices device_name)) (\<lambda>device.
        res_bind (map_err Fails (canonicalize_runtime_path h (dv_lib device) dir ''shared library'')) (\<lambda>libpath.
        res_bind (resolve_flash_blocks h (dv_flash device) dir) (\<lambda>flash.
        Inr \<lparr>ls_libpath = libpath, ls_env_tag = env_tag, ls_flash = flash\<rparr>))))"

definition resolve_env_load_specs ::
    "path_host \<Rightarrow> string \<Rightarrow> env_instance list \<Rightarrow> (string, device_def) btree \<Rightarrow> string option \<Rightarrow>
     load_resolve_error failure + (string \<times> load_spec) list" where
  "resolve_env_load_specs h env_name members devices dir =
     map_res (\<lambda>m. res_bind (resolve_env_member_load_spec h m devices dir (Some env_name)) (\<lambda>spec.
       Inr (ei_name m, spec))) members"

section \<open>What a resolved spec is\<close>

lemma merged_spec:
  assumes "merged parts = Inr out"
  shows "canonical out" "map_of (regions_bytes out) = map_of (rev (regions_bytes (concat parts)))"
  using merge_spec[of "concat parts" out] assms by (auto simp: merged_def map_err_Inr)

lemma map_res_parts: "map_res f xs = Inr ps \<longleftrightarrow> list_all2 (\<lambda>r p. r = Inr p) (map f xs) ps"
  by (simp add: map_res_Inr list_all2_map1)

lemma resolved_parts:
  "resolve_flash_blocks h blocks dir = Inr out \<Longrightarrow>
     \<exists>parts. list_all2 (\<lambda>r p. r = Inr p) (map (resolve_flash_block h dir) blocks) parts \<and> merged parts = Inr out"
  "resolve_cli_flash_entries h entries dir = Inr out \<Longrightarrow>
     \<exists>parts. list_all2 (\<lambda>r p. r = Inr p) (map (resolve_cli_flash_entry h dir) entries) parts \<and> merged parts = Inr out"
  by (auto simp: resolve_flash_blocks_def resolve_cli_flash_entries_def res_simps map_res_parts)

definition flash_sources ::
    "path_host \<Rightarrow> file_config \<Rightarrow> string option \<Rightarrow> string list \<Rightarrow>
     (load_resolve_error failure + flash_region list) list" where
  \<comment> \<open>What the entries of the command line give or, when there are none, the blocks of the defaults.\<close>
  "flash_sources h config dir cli_flash =
     (if cli_flash \<noteq> [] then map (resolve_cli_flash_entry h dir) cli_flash
      else case Option.bind (fc_defaults config) df_load of
        None \<Rightarrow> []
      | Some d \<Rightarrow> map (resolve_flash_block h dir) (ld_flash d))"

text \<open>
  C36: a load spec that was resolved names the library of the command line, or else the one of the
  defaults, by its canonical path; its flash image is sorted with gaps between its regions and holds
  at every address the byte of the last entry that writes it, where entries on the command line
  replace the blocks of the defaults altogether.
\<close>

theorem standalone_load_spec_correct:
  assumes "resolve_standalone_load_spec h config dir cli_libpath cli_flash env_tag = Inr spec"
  shows "ls_env_tag spec = env_tag \<and> canonical (ls_flash spec) \<and>
    (\<exists>raw. (case cli_libpath of Some p \<Rightarrow> raw = p
        | None \<Rightarrow> Option.bind (Option.bind (fc_defaults config) df_load) ld_lib = Some raw) \<and>
      canonicalize_runtime_path h raw dir ''shared library'' = Inr (ls_libpath spec)) \<and>
    (\<exists>parts. list_all2 (\<lambda>r p. r = Inr p) (flash_sources h config dir cli_flash) parts \<and>
      map_of (regions_bytes (ls_flash spec)) = map_of (rev (regions_bytes (concat parts))))"
proof -
  let ?d = "Option.bind (fc_defaults config) df_load"
  obtain raw flash where raw: "(case cli_libpath of Some p \<Rightarrow> Some p | None \<Rightarrow> Option.bind ?d ld_lib) = Some raw"
    and lib: "canonicalize_runtime_path h raw dir ''shared library'' = Inr (ls_libpath spec)"
    and flash: "(if cli_flash = [] then resolve_flash_blocks h (case ?d of None \<Rightarrow> [] | Some d \<Rightarrow> ld_flash d) dir
        else resolve_cli_flash_entries h cli_flash dir) = Inr flash"
    and spec: "ls_env_tag spec = env_tag" "ls_flash spec = flash"
    using assms by (auto simp: resolve_standalone_load_spec_def Let_def res_simps)
  have "\<exists>parts. list_all2 (\<lambda>r p. r = Inr p) (flash_sources h config dir cli_flash) parts \<and> merged parts = Inr flash"
    using flash resolved_parts(1)[of h _ dir flash] resolved_parts(2)[of h cli_flash dir flash]
    by (cases ?d; cases "cli_flash = []") (simp_all add: flash_sources_def resolve_flash_blocks_def)
  then obtain parts where "list_all2 (\<lambda>r p. r = Inr p) (flash_sources h config dir cli_flash) parts"
    "canonical flash" "map_of (regions_bytes flash) = map_of (rev (regions_bytes (concat parts)))"
    using merged_spec by blast
  moreover have "case cli_libpath of Some p \<Rightarrow> raw = p | None \<Rightarrow> Option.bind ?d ld_lib = Some raw"
    using raw by (cases cli_libpath) auto
  ultimately show ?thesis using lib spec by blast
qed

definition demo_paths :: path_host where
  "demo_paths = \<lparr>fs_canonical = (\<lambda>p. if p = ''/w/sim'' then None else Some p), fs_current_dir = Some ''/w'',
     fs_content = (\<lambda>_. Some [CHR 0x01, CHR 0x02])\<rparr>"

theorem standalone_load_spec_correct_witness:
  "resolve_standalone_load_spec demo_paths (ac_file default_config) None (Some ''sim'') [''a.bin:0x10'', ''b.bin:17''] None =
     Inr \<lparr>ls_libpath = ''/w/sim.so'', ls_env_tag = None, ls_flash = [\<lparr>base_addr = 0x10, region_data = [1, 1, 2]\<rparr>]\<rparr> \<and>
   canonical [\<lparr>base_addr = 0x10, region_data = [1, 1, 2]\<rparr>]"
proof -
  have r: "resolve_standalone_load_spec demo_paths (ac_file default_config) None (Some ''sim'') [''a.bin:0x10'', ''b.bin:17''] None =
     Inr \<lparr>ls_libpath = ''/w/sim.so'', ls_env_tag = None, ls_flash = [\<lparr>base_addr = 0x10, region_data = [1, 1, 2]\<rparr>]\<rparr>"
    by code_simp
  from standalone_load_spec_correct[OF r] r show ?thesis by simp
qed

end
