(* ===== verification/Commands.thy ===== *)
theory Commands
  imports Load_Resolve Connection Env_Bootstrap
begin

text \<open>
  The command line: what clap reads it into (\<open>cli/args.rs\<close>), the errors of the commands
  (\<open>cli/error.rs\<close>) and the translation of a command into the request it sends (\<open>cli/commands.rs\<close>).
\<close>

section \<open>Arguments\<close>

record load_args =
  la_libpath :: "string option"
  la_flash :: "string list"

record close_args =
  cl_all :: bool
  cl_env :: "string option"

record run_args =
  ra_recipe_name :: string
  ra_dry_run :: bool

datatype can_command =
  CanCmdBuses
| CanCmdAttach string string
| CanCmdDetach string
| CanCmdLoadDbc string string
| CanCmdSend string string string "u8 option"  \<comment> \<open>bus, identifier, payload text, flags\<close>

datatype env_can_schedule_command =
  SchedAdd string string string string "string option" "u8 option"
    \<comment> \<open>bus, identifier, payload text, period, job, flags\<close>
| SchedUpdate string string string string "u8 option"
| SchedRemove string
| SchedStop string
| SchedStart string
| SchedList "string option"

datatype env_can_command =
  EnvCanBuses
| EnvCanLoadDbc string string
| EnvCanSend string string string "u8 option"
| EnvCanInspect string
| EnvCanSchedule env_can_schedule_command

datatype shared_command = SharedCmdList | SharedCmdGet string

datatype instance_command = InstanceCmdList

datatype time_command =
  TimeCmdStart | TimeCmdPause | TimeCmdStep string | TimeCmdSpeed "f64 option" | TimeCmdStatus

datatype trace_command = TraceCmdStart string string | TraceCmdStop | TraceCmdClear | TraceCmdStatus

datatype env_command =
  EnvCmdStart string
| EnvCmdSignals string "string list"
| EnvCmdGet string "string list"
| EnvCmdStatus string
| EnvCmdReset string
| EnvCmdTime string time_command
| EnvCmdCan string env_can_command
| EnvCmdTrace string trace_command

datatype cli_command =
  CmdLoad load_args
| CmdInfo
| CmdSignals
| CmdCan can_command
| CmdShared shared_command
| CmdReset
| CmdGet "string list"
| CmdSet "string list"
| CmdTrace trace_command
| CmdRun run_args
| CmdClose close_args
| CmdEnv env_command
| CmdInstance "instance_command option"
| CmdTime time_command

record cli_args =
  ca_json :: bool
  ca_instance :: string
  ca_config :: "string option"
  ca_command :: "cli_command option"

section \<open>Errors\<close>

text \<open>A message is the value it is printed from.\<close>

datatype assert_error =
  NoComparator string
| ManyComparators string
| NoTolerance string
| StrayTolerance string
| EqFailed string toml_value signal_value
| NotNumeric string signal_value
| GtFailed string f64 f64
| LtFailed string f64 f64
| GteFailed string f64 f64
| LteFailed string f64 f64
| ApproxFailed string f64 f64 f64
| NonNumericFloat signal_value f64
| NonNumericInteger signal_value "64 word"
| UnsupportedEq signal_value toml_value
| InvalidAssertion string

datatype compile_error =
  BadSetValue config_error
| ForByZero
| ForNotFinite
| ForTooMany
| BadAssert assert_error

datatype 'e cli_error =
  MissingCommand
| InvalidSetSyntax
| CommandFailed "'e command_failure"
| AssertionFailed assert_error u64 u64  \<comment> \<open>what failed, tick and time\<close>
and 'e command_failure =
  FailedName name_error
| FailedConfig config_error
| FailedLoad load_resolve_error
| FailedLifecycle lifecycle_error
| FailedConnection connection_error
| FailedResponse "'e option"  \<comment> \<open>the error of a response, \<open>None\<close> for "command failed"\<close>
| MissingPayload
| UnexpectedPayload response_data
| NoValuesFor string
| EnvStillUp string
| CloseAllFailed "(string \<times> 'e cli_error) list"
| HandledByExecutor
| NoWorkingDirectory string
| UnresolvedDbc string
| BadArbId string
| NoChannelSelector
| BadChannelSelector string
| NoVcan string
| VcanDown string string
| SessionRunning string
| BadEnvMember string
| RecipeTargetDown string
| RecipeInstanceDown string
| EnvNotAllowed "string list" string "string option"
| FailedCompile compile_error

type_synonym ('e, 'a) cli_res = "'e cli_error failure + 'a"

abbreviation failed :: "'e command_failure \<Rightarrow> 'e cli_error failure" where
  "failed f \<equiv> Fails (CommandFailed f)"

section \<open>Arguments with a syntax of their own\<close>

definition absolutize_cli_path :: "path_host \<Rightarrow> string \<Rightarrow> ('e, string) cli_res" where
  "absolutize_cli_path h raw =
     (if is_absolute_path raw then Inr (utf8_lossy raw)
      else res_bind (ok_or (failed (NoWorkingDirectory raw)) (fs_current_dir h)) (\<lambda>dir.
        Inr (utf8_lossy (join_path dir raw))))"

definition canonicalize_cli_path :: "path_host \<Rightarrow> string \<Rightarrow> ('e, string) cli_res" where
  "canonicalize_cli_path h raw =
     res_bind (if is_absolute_path raw then Inr raw
       else res_bind (ok_or (failed (NoWorkingDirectory raw)) (fs_current_dir h)) (\<lambda>dir. Inr (join_path dir raw)))
     (\<lambda>candidate. res_bind (ok_or (failed (UnresolvedDbc raw)) (fs_canonical h candidate)) (\<lambda>c. Inr (utf8_lossy c)))"

definition parse_arb_id :: "string \<Rightarrow> ('e, u32) cli_res" where
  "parse_arb_id v =
     (let t = trim v;
          hex = (case strip_prefix ''0x'' t of Some x \<Rightarrow> Some x | None \<Rightarrow> strip_prefix ''0X'' t) in
      ok_or (failed (BadArbId v)) (case hex of Some x \<Rightarrow> parse_u32_hex x | None \<Rightarrow> parse_u32 t))"

definition parse_shared_channel_selector :: "string \<Rightarrow> ('e, string) cli_res" where
  "parse_shared_channel_selector v =
     (let t = trim v in
      if t = [] then Inl (failed NoChannelSelector)
      else case strip_suffix ''.*'' t of
        Some name \<Rightarrow> if name = [] then Inl (failed (BadChannelSelector v)) else Inr name
      | None \<Rightarrow> Inr t)"

fun set_pairs :: "string list \<Rightarrow> (string, string) btree \<Rightarrow> ('e, (string, string) btree) cli_res" where
  \<comment> \<open>The loop over \<open>name=value\<close> entries.\<close>
  "set_pairs [] out = Inr out"
| "set_pairs (entry # rest) out = (case split_once CHR ''='' entry of
      None \<Rightarrow> Inl (Fails InvalidSetSyntax)
    | Some (k, v) \<Rightarrow>
        if trim k = [] then Inl (Fails InvalidSetSyntax)
        else set_pairs rest (bt_insert (trim k) (trim v) out))"

definition parse_set_entries :: "string list \<Rightarrow> ('e, (string, string) btree) cli_res" where
  "parse_set_entries entries =
     (if length entries = 2 \<and> CHR ''='' \<notin> set (entries ! 0) \<and> CHR ''='' \<notin> set (entries ! 1)
      then Inr (bt_insert (entries ! 0) (entries ! 1) [])
      else res_bind (set_pairs entries []) (\<lambda>out.
        if out = [] then Inl (Fails InvalidSetSyntax) else Inr out))"

section \<open>The request of a command\<close>

definition can_request :: "path_host \<Rightarrow> can_command \<Rightarrow> ('e, instance_action) cli_res" where
  "can_request h cmd = (case cmd of
      CanCmdBuses \<Rightarrow> Inr ICanBuses
    | CanCmdAttach bus iface \<Rightarrow> Inr (ICanAttach bus iface)
    | CanCmdDetach bus \<Rightarrow> Inr (ICanDetach bus)
    | CanCmdLoadDbc bus path \<Rightarrow> res_bind (canonicalize_cli_path h path) (\<lambda>p. Inr (ICanLoadDbc bus p))
    | CanCmdSend bus arb data flags \<Rightarrow> res_bind (parse_arb_id arb) (\<lambda>a. Inr (ICanSend bus a data flags)))"

definition trace_request :: "path_host \<Rightarrow> trace_command \<Rightarrow> ('e, instance_action) cli_res" where
  "trace_request h cmd = (case cmd of
      TraceCmdStart path period \<Rightarrow> res_bind (absolutize_cli_path h path) (\<lambda>p. Inr (ITraceStart p period))
    | TraceCmdStop \<Rightarrow> Inr ITraceStop
    | TraceCmdClear \<Rightarrow> Inr ITraceClear
    | TraceCmdStatus \<Rightarrow> Inr ITraceStatus)"

definition time_request :: "time_command \<Rightarrow> instance_action" where
  "time_request cmd = (case cmd of
      TimeCmdStart \<Rightarrow> ITimeStart
    | TimeCmdPause \<Rightarrow> ITimePause
    | TimeCmdStep d \<Rightarrow> ITimeStep d
    | TimeCmdSpeed m \<Rightarrow> ITimeSpeed m
    | TimeCmdStatus \<Rightarrow> ITimeStatus)"

definition to_request :: "path_host \<Rightarrow> cli_args \<Rightarrow> ('e, instance_action) cli_res" where
  \<comment> \<open>The action of the request; its id is drawn by the caller.\<close>
  "to_request h args =
     res_bind (ok_or (Fails MissingCommand) (ca_command args)) (\<lambda>cmd. case cmd of
       CmdInfo \<Rightarrow> Inr IInfo
     | CmdSignals \<Rightarrow> Inr ISignals
     | CmdShared SharedCmdList \<Rightarrow> Inr ISharedList
     | CmdShared (SharedCmdGet ch) \<Rightarrow> res_bind (parse_shared_channel_selector ch) (\<lambda>c. Inr (ISharedGet c))
     | CmdCan can \<Rightarrow> can_request h can
     | CmdReset \<Rightarrow> Inr IReset
     | CmdGet selectors \<Rightarrow> Inr (IGet selectors)
     | CmdSet entries \<Rightarrow> res_bind (parse_set_entries entries) (\<lambda>writes. Inr (ISet writes))
     | CmdTrace t \<Rightarrow> trace_request h t
     | CmdClose c \<Rightarrow> if \<not> cl_all c \<and> cl_env c = None then Inr IClose else Inl (failed HandledByExecutor)
     | CmdInstance (Some InstanceCmdList) \<Rightarrow> Inr IInstanceList
     | CmdInstance None \<Rightarrow> Inr IInstanceStatus
     | CmdTime t \<Rightarrow> Inr (time_request t)
     | CmdLoad _ \<Rightarrow> Inl (failed HandledByExecutor)
     | CmdRun _ \<Rightarrow> Inl (failed HandledByExecutor)
     | CmdEnv _ \<Rightarrow> Inl (failed HandledByExecutor))"

end
