(* ===== verification/Cli.thy ===== *)
theory Cli
  imports Commands
begin

text \<open>
  Running a command: \<open>cli/mod.rs\<close> and \<open>cli/env.rs\<close>. A command works on the world of the host and
  need not return (a start lock may be waited for without end), so it gives an optional result. What
  is printed for a response is a parameter.
\<close>

section \<open>Commands that may not return\<close>

type_synonym ('w, 'e, 'a) cli = "'w \<Rightarrow> (('e, 'a) cli_res \<times> 'w) option"

definition c_ret :: "'a \<Rightarrow> ('w, 'e, 'a) cli" where
  "c_ret x w = Some (Inr x, w)"

definition c_lift :: "('e, 'a) cli_res \<Rightarrow> ('w, 'e, 'a) cli" where
  "c_lift r w = Some (r, w)"

definition c_get :: "('w \<Rightarrow> 'a) \<Rightarrow> ('w, 'e, 'a) cli" where
  "c_get f w = Some (Inr (f w), w)"

definition c_mod :: "('w \<Rightarrow> 'w) \<Rightarrow> ('w, 'e, unit) cli" where
  "c_mod f w = Some (Inr (), f w)"

definition c_act :: "('x \<Rightarrow> 'e command_failure) \<Rightarrow> ('w, 'x, 'a) act \<Rightarrow> ('w, 'e, 'a) cli" where
  \<comment> \<open>\<open>.map_err(|e| CliError::CommandFailed(e.to_string()))\<close>\<close>
  "c_act g m w = (case m w of (r, w1) \<Rightarrow> Some (map_err (\<lambda>e. failed (g e)) r, w1))"

definition c_call ::
    "('x \<Rightarrow> 'e command_failure) \<Rightarrow> ('w \<Rightarrow> (('x + 'a) \<times> 'w) option) \<Rightarrow> ('w, 'e, 'a) cli" where
  "c_call g m w = map_option (\<lambda>(r, w1). (map_err (\<lambda>e. failed (g e)) r, w1)) (m w)"

definition c_bind :: "('w, 'e, 'a) cli \<Rightarrow> ('a \<Rightarrow> ('w, 'e, 'b) cli) \<Rightarrow> ('w, 'e, 'b) cli" where
  "c_bind m f w = (case m w of
      None \<Rightarrow> None
    | Some (Inl e, w1) \<Rightarrow> Some (Inl e, w1)
    | Some (Inr x, w1) \<Rightarrow> f x w1)"

definition c_attempt :: "('w, 'e, 'a) cli \<Rightarrow> ('w, 'e, 'e cli_error + 'a) cli" where
  \<comment> \<open>The result as a value; a panic goes on.\<close>
  "c_attempt m w = (case m w of
      None \<Rightarrow> None
    | Some (Inl (Fails e), w1) \<Rightarrow> Some (Inr (Inl e), w1)
    | Some (Inl Panics, w1) \<Rightarrow> Some (Inl Panics, w1)
    | Some (Inr x, w1) \<Rightarrow> Some (Inr (Inr x), w1))"

fun c_for :: "'x list \<Rightarrow> ('x \<Rightarrow> ('w, 'e, 'y) cli) \<Rightarrow> ('w, 'e, 'y list) cli" where
  "c_for [] body = c_ret []"
| "c_for (x # xs) body = c_bind (body x) (\<lambda>y. c_bind (c_for xs body) (\<lambda>ys. c_ret (y # ys)))"

named_theorems cli \<open>evaluation of commands\<close>

lemma c_prims [cli]:
  "c_ret x w = Some (Inr x, w)" "c_lift r w = Some (r, w)" "c_get f w = Some (Inr (f w), w)"
  "c_mod g w = Some (Inr (), g w)"
  by (simp_all add: c_ret_def c_lift_def c_get_def c_mod_def)

lemma c_bind_eval [cli]:
  "m w = None \<Longrightarrow> c_bind m f w = None"
  "m w = Some (Inl e, w1) \<Longrightarrow> c_bind m f w = Some (Inl e, w1)"
  "m w = Some (Inr x, w1) \<Longrightarrow> c_bind m f w = f x w1"
  by (simp_all add: c_bind_def)

lemma c_bind_prim [simp]:
  "c_bind (c_ret x) f = f x" "c_bind (c_get h) f = (\<lambda>w. f (h w) w)" "c_bind (c_mod g) v = (\<lambda>w. v () (g w))"
  "c_bind (c_lift r) f = (case r of Inl e \<Rightarrow> c_lift (Inl e) | Inr x \<Rightarrow> f x)"
  by (auto simp: c_bind_def c_prims fun_eq_iff split: sum.split)

lemma c_bind_assoc: "c_bind (c_bind m f) g = c_bind m (\<lambda>x. c_bind (f x) g)"
  by (auto simp: c_bind_def fun_eq_iff split: option.split sum.split)

lemma c_bind_ret [simp]: "c_bind m c_ret = m"
  by (auto simp: c_bind_def c_prims fun_eq_iff split: option.split sum.split)

lemma c_bind_Inr [cli]:
  "c_bind m f w = Some (Inr y, v) \<longleftrightarrow> (\<exists>x u. m w = Some (Inr x, u) \<and> f x u = Some (Inr y, v))"
  by (auto simp: c_bind_def split: option.split sum.split)

section \<open>The host of the commands\<close>

record ('w, 'e) cli_sys =
  ck_host :: "'w host"
  ck_wire :: "('w, 'e) wire_sys"
  ck_uuid :: "'w \<Rightarrow> uuid \<times> 'w"
  ck_config :: "'w \<Rightarrow> config_host"
  ck_paths :: "'w \<Rightarrow> path_host"
  ck_write_load_spec :: "load_spec \<Rightarrow> string \<Rightarrow> 'w \<Rightarrow> bool \<times> 'w"
  ck_write_env_spec :: "env_spec \<Rightarrow> string \<Rightarrow> 'w \<Rightarrow> bool \<times> 'w"
  ck_kill_pid :: "u32 \<Rightarrow> 'w \<Rightarrow> 'w"
  ck_print :: "'e response \<Rightarrow> bool \<Rightarrow> 'w \<Rightarrow> 'w"
  ck_print_error :: "'e cli_error \<Rightarrow> 'w \<Rightarrow> 'w"

type_synonym exit_code = u8

definition read_config :: "('w, 'e) cli_sys \<Rightarrow> cli_args \<Rightarrow> ('w, 'e, app_config) cli" where
  "read_config k args =
     c_bind (c_get (ck_config k)) (\<lambda>h. c_lift (map_err (\<lambda>e. failed (FailedConfig e)) (load_config h (ca_config args))))"

definition path_parent :: "string \<Rightarrow> string option" where
  \<comment> \<open>\<open>Path::parent\<close>\<close>
  "path_parent p =
     (let q = drop_path_tail p in
      if q = [] then None
      else case rsplit_once CHR ''/'' q of
        None \<Rightarrow> Some []
      | Some (a, _) \<Rightarrow> let b = drop_path_tail a in Some (if b = [] then ''/'' else b))"

definition config_base_dir :: "app_config \<Rightarrow> string option" where
  "config_base_dir config = Option.bind (ac_source_path config) path_parent"

section \<open>One request\<close>

definition response_error :: "'e response \<Rightarrow> 'e cli_error" where
  \<comment> \<open>\<open>CommandFailed(response_error(&response))\<close>\<close>
  "response_error rsp = CommandFailed (FailedResponse (rp_error rsp))"

definition send_action ::
    "('w, 'e) cli_sys \<Rightarrow> string \<Rightarrow> instance_action \<Rightarrow> ('w, 'e, 'e response) cli" where
  "send_action k session action w = (case ck_uuid k w of (i, w1) \<Rightarrow>
     c_call FailedConnection (send_request (ck_host k) (ck_wire k) (ck_write_load_spec k) session
       \<lparr>rq_id = i, rq_action = RInstance action\<rparr>) w1)"

definition check_success :: "'e response \<Rightarrow> ('w, 'e, unit) cli" where
  "check_success rsp = (if rp_success rsp then c_ret () else c_lift (Inl (Fails (response_error rsp))))"

definition cli_send_action_success ::
    "('w, 'e) cli_sys \<Rightarrow> string \<Rightarrow> instance_action \<Rightarrow> ('w, 'e, unit) cli" where
  "cli_send_action_success k session action = c_bind (send_action k session action) check_success"

definition send_env ::
    "('w, 'e) cli_sys \<Rightarrow> string \<Rightarrow> env_action \<Rightarrow> ('w, 'e, 'e response) cli" where
  \<comment> \<open>A request with a fresh id, as \<open>run_env_action\<close>, \<open>close_env_and_wait\<close> and
    \<open>send_env_action_success\<close> start.\<close>
  "send_env k env action w = (case ck_uuid k w of (i, w1) \<Rightarrow>
     c_act FailedConnection (send_env_request (ck_host k) (ck_wire k) env
       \<lparr>rq_id = i, rq_action = REnv action\<rparr>) w1)"

definition fetch_signal_sample ::
    "('w, 'e) cli_sys \<Rightarrow> string \<Rightarrow> string \<Rightarrow> ('w, 'e, u64 \<times> u64 \<times> signal_value_data) cli" where
  "fetch_signal_sample k session selector =
     c_bind (send_action k session (ISample [selector])) (\<lambda>rsp.
     c_bind (check_success rsp) (\<lambda>_.
     c_lift (case rp_data rsp of
       Some (SignalSample tick time_us values) \<Rightarrow>
         (case values of [] \<Rightarrow> Inl (failed (NoValuesFor selector)) | v # _ \<Rightarrow> Inr (tick, time_us, v))
     | Some other \<Rightarrow> Inl (failed (UnexpectedPayload other))
     | None \<Rightarrow> Inl (failed MissingPayload))))"

section \<open>Environments from the command line\<close>

definition run_env_action ::
    "('w, 'e) cli_sys \<Rightarrow> cli_args \<Rightarrow> string \<Rightarrow> env_action \<Rightarrow> ('w, 'e, exit_code) cli" where
  "run_env_action k args env action =
     c_bind (send_env k env action) (\<lambda>rsp.
     c_bind (c_mod (ck_print k rsp (ca_json args))) (\<lambda>_.
     c_bind (check_success rsp) (\<lambda>_. c_ret 0)))"

definition parse_env_member :: "string \<Rightarrow> string \<Rightarrow> ('e, string \<times> string) cli_res" where
  "parse_env_member member default_bus = (case split_once CHR '':'' member of
      Some (session, bus) \<Rightarrow>
        if session = [] \<or> bus = [] then Inl (failed (BadEnvMember member))
        else res_bind (map_err (\<lambda>e. failed (FailedName e)) (validate_instance_name session)) (\<lambda>_. Inr (session, bus))
    | None \<Rightarrow>
        if member = [] then Inl (failed (BadEnvMember []))
        else res_bind (map_err (\<lambda>e. failed (FailedName e)) (validate_instance_name member)) (\<lambda>_. Inr (member, default_bus)))"

definition load_failure :: "load_resolve_error failure \<Rightarrow> 'e cli_error failure" where
  "load_failure e = (case e of Fails f \<Rightarrow> failed (FailedLoad f) | Panics \<Rightarrow> Panics)"

definition resolve_config_relative_path ::
    "path_host \<Rightarrow> string option \<Rightarrow> string \<Rightarrow> ('e, string) cli_res" where
  "resolve_config_relative_path h dir raw =
     map_err (\<lambda>e. failed (FailedLoad e)) (canonicalize_runtime_path h raw dir ''DBC'')"

definition env_bus_spec ::
    "path_host \<Rightarrow> string option \<Rightarrow> string \<times> env_can_bus_def \<Rightarrow> ('e, env_can_bus_spec) cli_res" where
  "env_bus_spec h dir entry = (case entry of (bname, bus) \<Rightarrow>
     res_bind (option_res (resolve_config_relative_path h dir) (cd_dbc bus)) (\<lambda>dbc.
     res_bind (map_res (\<lambda>m. res_bind (parse_env_member m bname) (\<lambda>(inst, b).
         Inr \<lparr>cm_instance = inst, cm_bus = b\<rparr>)) (cd_members bus)) (\<lambda>members.
     Inr \<lparr>xb_name = bname, xb_iface = cd_vcan bus, xb_dbc_path = dbc, xb_members = members\<rparr>)))"

definition env_channel_spec ::
    "string \<times> env_shared_channel_def \<Rightarrow> ('e, env_shared_spec) cli_res" where
  "env_channel_spec entry = (case entry of (cname, channel) \<Rightarrow>
     res_bind (map_res (\<lambda>m. res_bind (parse_env_member m cname) (\<lambda>(inst, c).
         Inr \<lparr>sm_instance = inst, sm_channel = c\<rparr>)) (sd_members channel)) (\<lambda>members.
     Inr \<lparr>xs_name = cname, xs_writer = sd_writer channel, xs_members = members\<rparr>))"

definition build_env_spec ::
    "path_host \<Rightarrow> string \<Rightarrow> env_def \<Rightarrow> (string, device_def) btree \<Rightarrow> string option \<Rightarrow> ('e, env_spec) cli_res" where
  "build_env_spec h env_name def devices dir =
     res_bind (map_err (\<lambda>e. failed (FailedName e)) (validate_env_name env_name)) (\<lambda>_.
     res_bind (map_err (\<lambda>e. failed (FailedName e))
       (map_res (\<lambda>i. validate_instance_name (ei_name i)) (ed_instances def))) (\<lambda>_.
     res_bind (map_err load_failure (resolve_env_load_specs h env_name (ed_instances def) devices dir)) (\<lambda>specs.
     res_bind (map_res (env_bus_spec h dir) (ed_can def)) (\<lambda>buses.
     res_bind (map_res env_channel_spec (ed_shared def)) (\<lambda>channels.
     Inr \<lparr>sp_name = env_name, sp_instances = map (\<lambda>(n, l). \<lparr>is_name = n, is_load_spec = l\<rparr>) specs,
       sp_can_buses = buses, sp_shared = channels\<rparr>)))))"

definition check_vcan :: "'w host \<Rightarrow> 'w \<Rightarrow> string \<Rightarrow> ('e, unit) cli_res" where
  \<comment> \<open>The body of the loop of \<open>validate_env_can_ifaces\<close>, on Linux.\<close>
  "check_vcan h w vcan =
     (let iface = join_path ''/sys/class/net'' vcan;
          state = trim (case h_read h (join_path iface ''operstate'') w of Some t \<Rightarrow> t | None \<Rightarrow> ''unknown'') in
      if \<not> h_exists h iface w then Inl (failed (NoVcan vcan))
      else if state \<noteq> ''up'' \<and> state \<noteq> ''unknown'' then Inl (failed (VcanDown vcan state))
      else Inr ())"

definition validate_env_can_ifaces :: "('w, 'e) cli_sys \<Rightarrow> env_def \<Rightarrow> ('w, 'e, unit) cli" where
  "validate_env_can_ifaces k def w =
     Some (res_bind (map_res (\<lambda>(_, bus). check_vcan (ck_host k) w (cd_vcan bus)) (ed_can def)) (\<lambda>_. Inr ()), w)"

definition running_instances :: "('w, 'e) cli_sys \<Rightarrow> ('w, 'e, instance_runtime_info list) cli" where
  "running_instances k = c_bind (c_act FailedLifecycle (list_instances (ck_host k))) (\<lambda>rows. c_ret (filter rt_running rows))"

definition ensure_sessions_available :: "('w, 'e) cli_sys \<Rightarrow> env_def \<Rightarrow> ('w, 'e, unit) cli" where
  "ensure_sessions_available k def =
     c_bind (running_instances k) (\<lambda>rows.
     c_lift (case find (\<lambda>i. \<exists>r \<in> set rows. rt_name r = ei_name i) (ed_instances def) of
       Some i \<Rightarrow> Inl (failed (SessionRunning (ei_name i)))
     | None \<Rightarrow> Inr ()))"

definition run_env_start :: "('w, 'e) cli_sys \<Rightarrow> cli_args \<Rightarrow> string \<Rightarrow> ('w, 'e, exit_code) cli" where
  "run_env_start k args env_name =
     c_bind (read_config k args) (\<lambda>config.
     c_bind (c_lift (map_err (\<lambda>e. failed (FailedConfig e)) (config_env config env_name))) (\<lambda>def.
     c_bind (validate_env_can_ifaces k def) (\<lambda>_.
     c_bind (ensure_sessions_available k def) (\<lambda>_.
     c_bind (c_get (ck_paths k)) (\<lambda>h.
     c_bind (c_lift (build_env_spec h env_name def (fc_device (ac_file config)) (config_base_dir config))) (\<lambda>spec.
     c_bind (c_call FailedLifecycle (env_bootstrap (ck_host k) (ck_write_env_spec k spec) env_name)) (\<lambda>_.
     run_env_action k args env_name (EStatus env_name))))))))"

definition env_time_action :: "string \<Rightarrow> time_command \<Rightarrow> env_action" where
  "env_time_action env cmd = (case cmd of
      TimeCmdStart \<Rightarrow> ETimeStart env
    | TimeCmdPause \<Rightarrow> ETimePause env
    | TimeCmdStep d \<Rightarrow> ETimeStep env d
    | TimeCmdSpeed m \<Rightarrow> ETimeSpeed env m
    | TimeCmdStatus \<Rightarrow> ETimeStatus env)"

definition env_schedule_action :: "string \<Rightarrow> env_can_schedule_command \<Rightarrow> ('e, env_action) cli_res" where
  "env_schedule_action env cmd = (case cmd of
      SchedAdd bus arb data every job flags \<Rightarrow>
        res_bind (parse_arb_id arb) (\<lambda>a. Inr (ECanScheduleAdd env bus job a data every flags))
    | SchedUpdate job arb data every flags \<Rightarrow>
        res_bind (parse_arb_id arb) (\<lambda>a. Inr (ECanScheduleUpdate env job a data every flags))
    | SchedRemove job \<Rightarrow> Inr (ECanScheduleRemove env job)
    | SchedStop job \<Rightarrow> Inr (ECanScheduleStop env job)
    | SchedStart job \<Rightarrow> Inr (ECanScheduleStart env job)
    | SchedList bus \<Rightarrow> Inr (ECanScheduleList env bus))"

definition env_can_action :: "path_host \<Rightarrow> string \<Rightarrow> env_can_command \<Rightarrow> ('e, env_action) cli_res" where
  "env_can_action h env cmd = (case cmd of
      EnvCanBuses \<Rightarrow> Inr (ECanBuses env)
    | EnvCanLoadDbc bus path \<Rightarrow>
        res_bind (map_err (\<lambda>e. failed (FailedLoad e)) (canonicalize_runtime_path h path None ''DBC'')) (\<lambda>p.
        Inr (ECanLoadDbc env bus p))
    | EnvCanSend bus arb data flags \<Rightarrow> res_bind (parse_arb_id arb) (\<lambda>a. Inr (ECanSend env bus a data flags))
    | EnvCanInspect bus \<Rightarrow> Inr (ECanInspect env bus)
    | EnvCanSchedule c \<Rightarrow> env_schedule_action env c)"

definition env_trace_action :: "path_host \<Rightarrow> string \<Rightarrow> trace_command \<Rightarrow> ('e, env_action) cli_res" where
  "env_trace_action h env cmd = (case cmd of
      TraceCmdStart path period \<Rightarrow> res_bind (absolutize_cli_path h path) (\<lambda>p. Inr (ETraceStart env p period))
    | TraceCmdStop \<Rightarrow> Inr (ETraceStop env)
    | TraceCmdClear \<Rightarrow> Inr (ETraceClear env)
    | TraceCmdStatus \<Rightarrow> Inr (ETraceStatus env))"

definition env_command_name :: "env_command \<Rightarrow> string" where
  "env_command_name cmd = (case cmd of
      EnvCmdStart n \<Rightarrow> n | EnvCmdSignals n _ \<Rightarrow> n | EnvCmdGet n _ \<Rightarrow> n | EnvCmdStatus n \<Rightarrow> n
    | EnvCmdReset n \<Rightarrow> n | EnvCmdTime n _ \<Rightarrow> n | EnvCmdCan n _ \<Rightarrow> n | EnvCmdTrace n _ \<Rightarrow> n)"

definition run_env_command :: "('w, 'e) cli_sys \<Rightarrow> cli_args \<Rightarrow> env_command \<Rightarrow> ('w, 'e, exit_code) cli" where
  "run_env_command k args cmd =
     c_bind (c_lift (map_err (\<lambda>e. failed (FailedName e)) (validate_env_name (env_command_name cmd)))) (\<lambda>_.
     c_bind (c_get (ck_paths k)) (\<lambda>h. case cmd of
       EnvCmdStart n \<Rightarrow> run_env_start k args n
     | EnvCmdSignals n sels \<Rightarrow> run_env_action k args n (ESignals n (if sels = [] then [''*''] else sels))
     | EnvCmdGet n sels \<Rightarrow> run_env_action k args n (EGet n sels)
     | EnvCmdStatus n \<Rightarrow> run_env_action k args n (EStatus n)
     | EnvCmdReset n \<Rightarrow> run_env_action k args n (EReset n)
     | EnvCmdTime n c \<Rightarrow> run_env_action k args n (env_time_action n c)
     | EnvCmdCan n c \<Rightarrow> c_bind (c_lift (env_can_action h n c)) (run_env_action k args n)
     | EnvCmdTrace n c \<Rightarrow> c_bind (c_lift (env_trace_action h n c)) (run_env_action k args n)))"

section \<open>Loading and closing\<close>

definition run_load_command :: "('w, 'e) cli_sys \<Rightarrow> cli_args \<Rightarrow> load_args \<Rightarrow> ('w, 'e, exit_code) cli" where
  "run_load_command k args load =
     c_bind (read_config k args) (\<lambda>config.
     c_bind (c_get (ck_paths k)) (\<lambda>h.
     c_bind (c_lift (map_err load_failure (resolve_standalone_load_spec h (ac_file config) (config_base_dir config)
       (la_libpath load) (la_flash load) None))) (\<lambda>spec.
     c_bind (c_call FailedLifecycle (bootstrap_daemon (ck_host k) (ck_write_load_spec k spec) (ca_instance args))) (\<lambda>_.
     c_bind (send_action k (ca_instance args) IInfo) (\<lambda>rsp.
     c_bind (c_lift (ok_or (failed MissingPayload) (rp_data rsp))) (\<lambda>data.
     case data of
       ProjectInfo lib _ n \<Rightarrow> (\<lambda>w. case ck_uuid k w of (i, w1) \<Rightarrow>
         Some (Inr 0, ck_print k (response_ok i (Loaded lib n)) (ca_json args) w1))
     | other \<Rightarrow> c_lift (Inl (failed (UnexpectedPayload other)))))))))"

definition instance_gone :: "('w, 'e) cli_sys \<Rightarrow> string \<Rightarrow> ('w, 'e, bool) cli" where
  \<comment> \<open>\<open>ensure_daemon_running(session).await.is_err()\<close>, and then \<open>cleanup_runtime_artifacts\<close>.\<close>
  "instance_gone k session w = (case ensure_running (ck_host k) session w of
      (Inl _, w1) \<Rightarrow> Some (Inr True, cleanup_runtime_artifacts (ck_host k) session w1)
    | (Inr _, w1) \<Rightarrow> Some (Inr False, w1))"

definition run_instance_close_command :: "('w, 'e) cli_sys \<Rightarrow> string \<Rightarrow> ('w, 'e, exit_code) cli" where
  "run_instance_close_command k session =
     c_bind (instance_gone k session) (\<lambda>gone.
     if gone then c_ret 0
     else c_bind (c_attempt (cli_send_action_success k session IClose)) (\<lambda>r. case r of
       Inr _ \<Rightarrow> c_ret 0
     | Inl err \<Rightarrow> c_bind (instance_gone k session) (\<lambda>gone'.
         if gone' then c_ret 0 else c_lift (Inl (Fails err)))))"

partial_function (option) wait_env_down ::
    "('w, 'e) cli_sys \<Rightarrow> string \<Rightarrow> nat \<Rightarrow> 'w \<Rightarrow> (('e, unit) cli_res \<times> 'w) option" where
  \<comment> \<open>The loop of \<open>close_env_and_wait\<close>.\<close>
  "wait_env_down k env deadline w = (case running_instances k w of
      None \<Rightarrow> None
    | Some (Inl e, w1) \<Rightarrow> Some (Inl e, w1)
    | Some (Inr rows, w1) \<Rightarrow>
        if \<not> h_exists (ck_host k) (env_socket_path (ck_host k) env) w1 \<and>
           \<not> list_ex (\<lambda>r. rt_env r = Some env) rows
        then Some (Inr (), w1)
        else case h_now (ck_host k) w1 of (t, w2) \<Rightarrow>
          if deadline \<le> t then Some (Inl (failed (EnvStillUp env)), w2)
          else wait_env_down k env deadline (h_sleep (ck_host k) 100 w2))"

definition close_env_and_wait :: "('w, 'e) cli_sys \<Rightarrow> string \<Rightarrow> ('w, 'e, unit) cli" where
  "close_env_and_wait k env =
     c_bind (send_env k env (EClose env)) (\<lambda>rsp.
     c_bind (check_success rsp) (\<lambda>_.
     \<lambda>w. case h_now (ck_host k) w of (t, w1) \<Rightarrow> wait_env_down k env (t + 5000) w1))"

definition close_or_kill :: "('w, 'e) cli_sys \<Rightarrow> string \<Rightarrow> ('w, 'e, unit) cli" where
  "close_or_kill k session =
     c_bind (c_attempt (cli_send_action_success k session IClose)) (\<lambda>r. case r of
       Inr _ \<Rightarrow> c_ret ()
     | Inl _ \<Rightarrow> c_mod (\<lambda>w. case read_pid (ck_host k) (pid_path (ck_host k) session) w of
         Some pid \<Rightarrow> ck_kill_pid k pid w
       | None \<Rightarrow> w))"

definition run_close_command :: "('w, 'e) cli_sys \<Rightarrow> close_args \<Rightarrow> ('w, 'e, exit_code) cli" where
  "run_close_command k close = (case cl_env close of
      Some env \<Rightarrow>
        c_bind (c_lift (map_err (\<lambda>e. failed (FailedName e)) (validate_env_name env))) (\<lambda>_.
        c_bind (close_env_and_wait k env) (\<lambda>_. c_ret 0))
    | None \<Rightarrow>
        c_bind (c_act FailedLifecycle (list_envs (ck_host k))) (\<lambda>envs.
        c_bind (c_for (map fst (filter (\<lambda>(_, _, running). running) envs)) (\<lambda>env.
          c_bind (c_attempt (close_env_and_wait k env)) (\<lambda>r. c_ret (env, r)))) (\<lambda>results.
        c_bind (running_instances k) (\<lambda>rows.
        c_bind (c_for (sort (map rt_name rows)) (close_or_kill k)) (\<lambda>_.
        let errors = concat (map (\<lambda>(env, r). case r of Inl e \<Rightarrow> [(env, e)] | Inr _ \<Rightarrow> []) results) in
        if errors \<noteq> [] then c_lift (Inl (failed (CloseAllFailed errors))) else c_ret 0)))))"

definition command_uses_instance_session :: "cli_command \<Rightarrow> bool" where
  "command_uses_instance_session cmd = (case cmd of
      CmdEnv _ \<Rightarrow> False
    | CmdClose c \<Rightarrow> \<not> cl_all c \<and> cl_env c = None
    | _ \<Rightarrow> True)"

end
