(* ===== verification/Recipe.thy ===== *)
theory Recipe
  imports Cli
begin

text \<open>
  Recipes: \<open>cli/recipe.rs\<close>. A recipe is compiled into a flat list of operations, its loops unrolled
  and the instance of every operation fixed as far as the recipe names one; the operations are then
  carried out in order, or only listed in a dry run.
\<close>

section \<open>Operations\<close>

datatype recipe_op =
  OpForIteration string f64
| OpSet "string option" "(string, string) btree"
| OpStep "string option" string
| OpPrint "string option" "string list"
| OpSpeed "string option" f64
| OpReset "string option"
| OpSleepMs u64
| OpAssert "string option" assert_spec

definition or_else :: "'a option \<Rightarrow> 'a option \<Rightarrow> 'a option" where
  "or_else a b = (case a of None \<Rightarrow> b | Some x \<Rightarrow> Some x)"

lemma or_else_simps [simp]: "or_else None b = b" "or_else (Some x) b = Some x" "or_else a None = a"
  by (simp_all add: or_else_def split: option.split)

section \<open>Assertions\<close>

definition comparator_count :: "assert_spec \<Rightarrow> nat" where
  "comparator_count a = length (filter id
     [as_eq a \<noteq> None, as_gt a \<noteq> None, as_lt a \<noteq> None, as_gte a \<noteq> None, as_lte a \<noteq> None, as_approx a \<noteq> None])"

definition validate_assert_spec :: "string \<Rightarrow> assert_spec \<Rightarrow> assert_error + unit" where
  "validate_assert_spec signal a =
     (let n = comparator_count a in
      if n = 0 then Inl (NoComparator signal)
      else if 1 < n then Inl (ManyComparators signal)
      else if as_approx a \<noteq> None \<and> as_tolerance a = None then Inl (NoTolerance signal)
      else if as_approx a = None \<and> as_tolerance a \<noteq> None then Inl (StrayTolerance signal)
      else Inr ())"

definition signal_value_as_f64 :: "signal_value \<Rightarrow> f64 option" where
  "signal_value_as_f64 v = (case v of
      VBool b \<Rightarrow> Some (if b then Fin 1 else Fin 0)
    | VU32 n \<Rightarrow> Some (f_of_int (uint n))
    | VI32 n \<Rightarrow> Some (f_of_int (sint n))
    | VF32 b \<Rightarrow> Some (f32_of_bits b)
    | VF64 b \<Rightarrow> Some (f64_of_bits b))"

definition F64_EPSILON :: f64 where "F64_EPSILON = Fin (1 / 2 ^ 52)"

definition compare_eq :: "signal_value \<Rightarrow> toml_value \<Rightarrow> assert_error + bool" where
  "compare_eq actual expected = (case (actual, expected) of
      (VBool a, TBoolean b) \<Rightarrow> Inr (a = b)
    | (VU32 a, TInteger b) \<Rightarrow> Inr ((ucast a :: 64 word) = b)
    | (VI32 a, TInteger b) \<Rightarrow> Inr ((scast a :: 64 word) = b)
    | (VF32 a, TFloat b) \<Rightarrow> Inr (feq (f32_of_bits a) (f_as_f32 b))
    | (VF64 a, TFloat b) \<Rightarrow> Inr (feq (f64_of_bits a) b)
    | (_, TFloat b) \<Rightarrow> ok_or (NonNumericFloat actual b)
        (map_option (\<lambda>a. feq a b) (signal_value_as_f64 actual))
    | (_, TInteger b) \<Rightarrow> ok_or (NonNumericInteger actual b)
        (map_option (\<lambda>a. flt (fabs (fsub a (f_of_int (sint b)))) F64_EPSILON) (signal_value_as_f64 actual))
    | _ \<Rightarrow> Inl (UnsupportedEq actual expected))"

definition evaluate_assertion :: "string \<Rightarrow> signal_value \<Rightarrow> assert_spec \<Rightarrow> assert_error + unit" where
  "evaluate_assertion signal actual a =
     res_bind (validate_assert_spec signal a) (\<lambda>_.
     case as_eq a of
       Some expected \<Rightarrow> res_bind (compare_eq actual expected) (\<lambda>ok.
         guard_err (\<not> ok) (EqFailed signal expected actual))
     | None \<Rightarrow>
         res_bind (ok_or (NotNumeric signal actual) (signal_value_as_f64 actual)) (\<lambda>x.
         case as_gt a of Some e \<Rightarrow> guard_err (\<not> flt e x) (GtFailed signal e x)
       | None \<Rightarrow> case as_lt a of Some e \<Rightarrow> guard_err (\<not> flt x e) (LtFailed signal e x)
       | None \<Rightarrow> case as_gte a of Some e \<Rightarrow> guard_err (\<not> fle e x) (GteFailed signal e x)
       | None \<Rightarrow> case as_lte a of Some e \<Rightarrow> guard_err (\<not> fle x e) (LteFailed signal e x)
       | None \<Rightarrow> case as_approx a of
           Some e \<Rightarrow> res_bind (ok_or (NoTolerance signal) (as_tolerance a)) (\<lambda>t.
             guard_err (\<not> fle (fabs (fsub x e)) (fabs t)) (ApproxFailed signal e (fabs t) x))
         | None \<Rightarrow> Inl (InvalidAssertion signal)))"

section \<open>Compiling\<close>

definition set_writes :: "(string, toml_value) btree \<Rightarrow> compile_error + (string, string) btree" where
  \<comment> \<open>The loop of the \<open>Set\<close> arm.\<close>
  "set_writes entries =
     res_bind (map_res (\<lambda>(k, v). res_bind (map_err BadSetValue (toml_value_to_cli_string v)) (\<lambda>t. Inr (k, t))) entries)
       (\<lambda>kvs. Inr (foldl (\<lambda>m (k, t). bt_insert k t m) [] kvs))"

definition step_parts :: "step_spec \<Rightarrow> string \<times> string option" where
  "step_parts s = (case s of StepDuration d \<Rightarrow> (d, None) | StepDetailed d i \<Rightarrow> (d, i))"

definition print_selectors :: "print_spec \<Rightarrow> string list" where
  "print_selectors p = (case p of PrintAll v \<Rightarrow> [v] | PrintSignals vs \<Rightarrow> vs)"

definition FOR_EPSILON :: f64 where
  \<comment> \<open>\<open>1e-9_f64\<close>\<close>
  "FOR_EPSILON = rnd64 False (1 / 10 ^ 9)"

definition for_steps :: "f64 \<Rightarrow> f64 \<Rightarrow> f64 \<Rightarrow> compile_error + u64 option" where
  \<comment> \<open>The last index of the loop \<open>from\<close>, \<open>to\<close>, \<open>by\<close>; \<open>None\<close> when \<open>to\<close> lies the other way.\<close>
  "for_steps lo hi by =
     (if feq by (Fin 0) then Inl ForByZero
      else let delta = fsub hi lo in
        if (flt (Fin 0) by \<and> flt delta (Fin 0)) \<or> (flt by (Fin 0) \<and> flt (Fin 0) delta) then Inr None
        else let raw_steps = fdiv delta by in
          if \<not> is_finite raw_steps then Inl ForNotFinite
          else let max_steps_float = ffloor (fadd raw_steps FOR_EPSILON) in
            if fle U64_MAX_F64 max_steps_float then Inl ForTooMany
            else Inr (Some (f_as_u64 max_steps_float)))"

definition for_value :: "f64 \<Rightarrow> f64 \<Rightarrow> nat \<Rightarrow> f64" where
  "for_value lo by idx = fadd lo (fmul by (f_of_int (int idx)))"

definition for_iteration :: "string option \<Rightarrow> string \<Rightarrow> f64 \<Rightarrow> recipe_op list" where
  "for_iteration inherited signal current =
     [OpForIteration signal current, OpSet inherited [(signal, show_float (rnd64 False) current)]]"

fun compile_recipe_steps :: "recipe_step list \<Rightarrow> string option \<Rightarrow> compile_error + recipe_op list"
and compile_step :: "recipe_step \<Rightarrow> string option \<Rightarrow> compile_error + recipe_op list"
and compile_for_step :: "for_spec \<Rightarrow> string option \<Rightarrow> compile_error + recipe_op list" where
  "compile_recipe_steps [] inherited = Inr []"
| "compile_recipe_steps (s # ss) inherited =
     res_bind (compile_step s inherited) (\<lambda>ops.
     res_bind (compile_recipe_steps ss inherited) (\<lambda>rest. Inr (ops @ rest)))"
| "compile_step (RecSet entries inst) inherited =
     res_bind (set_writes entries) (\<lambda>writes. Inr [OpSet (or_else inst inherited) writes])"
| "compile_step (RecStep s inst) inherited =
     (case step_parts s of (duration, nested) \<Rightarrow>
        Inr [OpStep (or_else nested (or_else inst inherited)) duration])"
| "compile_step (RecPrint p inst) inherited = Inr [OpPrint (or_else inst inherited) (print_selectors p)]"
| "compile_step (RecSpeed v inst) inherited = Inr [OpSpeed (or_else inst inherited) v]"
| "compile_step (RecReset inst) inherited = Inr [OpReset (or_else inst inherited)]"
| "compile_step (RecSleep ms) inherited = Inr [OpSleepMs ms]"
| "compile_step (RecFor spec inst) inherited = compile_for_step spec (or_else inst inherited)"
| "compile_step (RecAssert a) inherited =
     res_bind (map_err BadAssert (validate_assert_spec (as_signal a) a)) (\<lambda>_.
     Inr [OpAssert (or_else (as_instance a) inherited) a])"
| "compile_for_step (ForSpec signal lo hi by each) inherited =
     res_bind (for_steps lo hi by) (\<lambda>last. case last of
       None \<Rightarrow> Inr []
     | Some max_steps \<Rightarrow>
         res_bind (map_res (\<lambda>idx. res_bind (compile_recipe_steps each inherited) (\<lambda>body.
             Inr (for_iteration inherited signal (for_value lo by idx) @ body))) [0..<unat max_steps + 1])
           (\<lambda>parts. Inr (concat parts)))"

section \<open>Printing\<close>

definition strip_zeros :: "string \<Rightarrow> string" where
  "strip_zeros ds = rev (dropWhile (\<lambda>c. c = CHR ''0'') (rev ds))"

definition debug_float :: "(rat \<Rightarrow> f64) \<Rightarrow> f64 \<Rightarrow> string" where
  \<comment> \<open>\<open>{:?}\<close> of an \<open>f32\<close> or \<open>f64\<close>: at least one decimal, an exponent from \<open>1e16\<close> and below \<open>1e-4\<close>.\<close>
  "debug_float rnd x = (case x of
      NaN \<Rightarrow> ''NaN'' | PInf \<Rightarrow> ''inf'' | NInf \<Rightarrow> ''-inf'' | NZero \<Rightarrow> ''-0.0''
    | Fin q \<Rightarrow>
        if q = 0 then ''0.0''
        else (if q < 0 then ''-'' else []) @
          (case shortest_digits rnd \<bar>q\<bar> 0 17 of (d, s) \<Rightarrow>
             if flt (Fin \<bar>q\<bar>) (rnd (1 / 10 ^ 4)) \<or> fle (rnd (10 ^ 16)) (Fin \<bar>q\<bar>)
             then let ds = show_nat d; sig = strip_zeros ds in
               hd sig # (if tl sig = [] then [] else CHR ''.'' # tl sig) @ ''e'' @ show_int (s + int (length ds) - 1)
             else let t = show_decimal d s in if CHR ''.'' \<in> set t then t else t @ ''.0''))"

definition debug_signal_value :: "signal_value \<Rightarrow> string" where
  "debug_signal_value v = (case v of
      VBool b \<Rightarrow> if b then ''Bool(true)'' else ''Bool(false)''
    | VU32 n \<Rightarrow> ''U32('' @ show_nat (unat n) @ '')''
    | VI32 n \<Rightarrow> ''I32('' @ show_int (sint n) @ '')''
    | VF32 b \<Rightarrow> ''F32('' @ debug_float (rnd32 False) (f32_of_bits b) @ '')''
    | VF64 b \<Rightarrow> ''F64('' @ debug_float (rnd64 False) (f64_of_bits b) @ '')'')"

fun join_strings :: "string \<Rightarrow> string list \<Rightarrow> string" where
  "join_strings sep [] = []"
| "join_strings sep [x] = x"
| "join_strings sep (x # xs) = x @ sep @ join_strings sep xs"

definition format_signal_values_summary :: "signal_value_data list \<Rightarrow> string" where
  "format_signal_values_summary vs =
     join_strings '', '' (map (\<lambda>v. sv_name v @ ''='' @ debug_signal_value (sv_value v)) vs)"

section \<open>Carrying out\<close>

definition recipe_step_result :: "step_kind \<Rightarrow> string option \<Rightarrow> string \<Rightarrow> step_result_data" where
  "recipe_step_result kind inst detail = \<lparr>st_kind = kind, st_instance = inst, st_detail = detail\<rparr>"

definition resolve_instance :: "string \<Rightarrow> string option \<Rightarrow> string" where
  "resolve_instance dflt inst = (case inst of Some i \<Rightarrow> i | None \<Rightarrow> dflt)"

definition attached_env_map :: "instance_runtime_info list \<Rightarrow> (string, string option) hmap" where
  "attached_env_map rows = hm_collect (map (\<lambda>r. (rt_name r, rt_env r)) (filter rt_running rows))"

definition load_attached_envs :: "('w, 'e) cli_sys \<Rightarrow> ('w, 'e, (string, string option) hmap) cli" where
  "load_attached_envs k =
     c_bind (c_act FailedLifecycle (list_instances (ck_host k))) (\<lambda>rows. c_ret (attached_env_map rows))"

definition attached_env :: "(string, string option) hmap \<Rightarrow> string \<Rightarrow> string option" where
  "attached_env envs inst = Option.bind (hm_get envs inst) id"

definition send_env_action_success ::
    "('w, 'e) cli_sys \<Rightarrow> string \<Rightarrow> env_action \<Rightarrow> ('w, 'e, unit) cli" where
  "send_env_action_success k env action = c_bind (send_env k env action) check_success"

definition fetch_print_values ::
    "('w, 'e) cli_sys \<Rightarrow> string \<Rightarrow> string list \<Rightarrow> ('w, 'e, signal_value_data list) cli" where
  "fetch_print_values k session selectors =
     c_bind (send_action k session (IGet selectors)) (\<lambda>rsp.
     c_bind (check_success rsp) (\<lambda>_.
     c_lift (case rp_data rsp of
       Some (SignalValues values) \<Rightarrow> Inr values
     | Some other \<Rightarrow> Inl (failed (UnexpectedPayload other))
     | None \<Rightarrow> Inl (failed MissingPayload))))"

definition send_timed ::
    "('w, 'e) cli_sys \<Rightarrow> (string, string option) hmap \<Rightarrow> string \<Rightarrow> (string \<Rightarrow> env_action) \<Rightarrow> instance_action \<Rightarrow>
     ('w, 'e, unit) cli" where
  \<comment> \<open>To the environment of an attached instance, else to the instance.\<close>
  "send_timed k envs inst env_request request = (case attached_env envs inst of
      Some env \<Rightarrow> send_env_action_success k env (env_request env)
    | None \<Rightarrow> cli_send_action_success k inst request)"

definition unless_dry :: "bool \<Rightarrow> ('w, 'e, unit) cli \<Rightarrow> ('w, 'e, unit) cli" where
  "unless_dry dry m = (if dry then c_ret () else m)"

definition run_assert ::
    "('w, 'e) cli_sys \<Rightarrow> string \<Rightarrow> assert_spec \<Rightarrow> ('w, 'e, step_result_data) cli" where
  "run_assert k inst a =
     c_bind (fetch_signal_sample k inst (as_signal a)) (\<lambda>(tick, time_us, v).
     c_bind (c_lift (map_err (\<lambda>e. Fails (AssertionFailed e tick time_us))
       (evaluate_assertion (as_signal a) (sv_value v) a))) (\<lambda>_.
     c_ret (recipe_step_result KAssert (Some inst) (as_signal a @ '' @ tick='' @ show_nat (unat tick) @
       '' time_us='' @ show_nat (unat time_us)))))"

definition execute_op ::
    "('w, 'e) cli_sys \<Rightarrow> (string, string option) hmap \<Rightarrow> bool \<Rightarrow> string \<Rightarrow> recipe_op \<Rightarrow>
     ('w, 'e, step_result_data) cli" where
  \<comment> \<open>The body of the loop of \<open>execute_recipe_ops\<close>.\<close>
  "execute_op k envs dry dflt op = (case op of
      OpForIteration signal v \<Rightarrow>
        c_ret (recipe_step_result KForIteration None (signal @ ''='' @ show_float (rnd64 False) v))
    | OpSet i writes \<Rightarrow> (let inst = resolve_instance dflt i in
        c_bind (unless_dry dry (cli_send_action_success k inst (ISet writes))) (\<lambda>_.
        c_ret (recipe_step_result KSet (Some inst)
          (show_nat (length writes) @ '' write(s): '' @ join_strings '','' (map fst writes)))))
    | OpStep i duration \<Rightarrow> (let inst = resolve_instance dflt i in
        c_bind (unless_dry dry (send_timed k envs inst (\<lambda>env. ETimeStep env duration) (ITimeStep duration))) (\<lambda>_.
        c_ret (recipe_step_result KStep (Some inst) duration)))
    | OpPrint i selectors \<Rightarrow> (let inst = resolve_instance dflt i in
        c_bind (if dry then c_ret (''selectors='' @ join_strings '','' selectors)
          else c_bind (fetch_print_values k inst selectors) (\<lambda>vs. c_ret (format_signal_values_summary vs))) (\<lambda>detail.
        c_ret (recipe_step_result KPrint (Some inst) detail)))
    | OpSpeed i v \<Rightarrow> (let inst = resolve_instance dflt i in
        c_bind (unless_dry dry (send_timed k envs inst (\<lambda>env. ETimeSpeed env (Some v)) (ITimeSpeed (Some v)))) (\<lambda>_.
        c_ret (recipe_step_result KSpeed (Some inst) (show_float (rnd64 False) v))))
    | OpReset i \<Rightarrow> (let inst = resolve_instance dflt i in
        c_bind (unless_dry dry (cli_send_action_success k inst IReset)) (\<lambda>_.
        c_ret (recipe_step_result KReset (Some inst) ''reset'')))
    | OpSleepMs ms \<Rightarrow>
        c_bind (unless_dry dry (c_mod (h_sleep (ck_host k) (unat ms)))) (\<lambda>_.
        c_ret (recipe_step_result KSleep None (show_nat (unat ms) @ ''ms'')))
    | OpAssert i a \<Rightarrow> (let inst = resolve_instance dflt i in
        if dry then c_ret (recipe_step_result KAssert (Some inst) (''signal='' @ as_signal a))
        else run_assert k inst a))"

definition execute_recipe_ops ::
    "('w, 'e) cli_sys \<Rightarrow> string \<Rightarrow> recipe_op list \<Rightarrow> bool \<Rightarrow> ('w, 'e, step_result_data list) cli" where
  "execute_recipe_ops k dflt ops dry =
     c_bind (if dry then c_ret [] else load_attached_envs k) (\<lambda>envs.
     c_for ops (execute_op k envs dry dflt))"

section \<open>Running a recipe\<close>

definition validate_allowed_env :: "string \<Rightarrow> string option \<Rightarrow> string list \<Rightarrow> ('e, unit) cli_res" where
  "validate_allowed_env inst env allowed = (case env of
      Some e \<Rightarrow> if e \<in> set allowed then Inr () else Inl (failed (EnvNotAllowed allowed inst env))
    | None \<Rightarrow> Inl (failed (EnvNotAllowed allowed inst env)))"

definition check_instance ::
    "(string \<times> string option) list \<Rightarrow> string list \<Rightarrow> (string \<Rightarrow> 'e command_failure) \<Rightarrow> string \<Rightarrow> ('e, unit) cli_res" where
  \<comment> \<open>The instance runs, in an allowed environment when the recipe restricts them.\<close>
  "check_instance running allowed down inst = (case find (\<lambda>(n, _). n = inst) running of
      None \<Rightarrow> Inl (failed (down inst))
    | Some (_, env) \<Rightarrow> if allowed = [] then Inr () else validate_allowed_env inst env allowed)"

definition validate_recipe_preconditions ::
    "('w, 'e) cli_sys \<Rightarrow> recipe_def \<Rightarrow> string \<Rightarrow> ('w, 'e, unit) cli" where
  "validate_recipe_preconditions k recipe dflt =
     c_bind (running_instances k) (\<lambda>rows.
     let running = map (\<lambda>r. (rt_name r, rt_env r)) rows in
     c_lift (res_bind (check_instance running (rc_env recipe) RecipeTargetDown dflt) (\<lambda>_.
       res_bind (map_res (check_instance running (rc_env recipe) RecipeInstanceDown) (rc_instances recipe)) (\<lambda>_.
       Inr ()))))"

definition run_recipe_command :: "('w, 'e) cli_sys \<Rightarrow> cli_args \<Rightarrow> run_args \<Rightarrow> ('w, 'e, exit_code) cli" where
  "run_recipe_command k args run =
     c_bind (read_config k args) (\<lambda>config.
     c_bind (c_lift (map_err (\<lambda>e. failed (FailedConfig e)) (config_recipe config (ra_recipe_name run)))) (\<lambda>recipe.
     let dflt = (case rc_instance recipe of Some i \<Rightarrow> i | None \<Rightarrow> ca_instance args) in
     c_bind (validate_recipe_preconditions k recipe dflt) (\<lambda>_.
     c_bind (c_lift (map_err (\<lambda>e. failed (FailedCompile e)) (compile_recipe_steps (rc_steps recipe) None))) (\<lambda>ops.
     c_bind (execute_recipe_ops k dflt ops (ra_dry_run run)) (\<lambda>steps.
     \<lambda>w. case ck_uuid k w of (i, w1) \<Rightarrow>
       Some (Inr 0, ck_print k (response_ok i
         (RecipeResult (ra_recipe_name run) (ra_dry_run run) (length ops) steps)) (ca_json args) w1))))))"

section \<open>Any command\<close>

definition run_request_command :: "('w, 'e) cli_sys \<Rightarrow> cli_args \<Rightarrow> ('w, 'e, exit_code) cli" where
  "run_request_command k args =
     c_bind (c_get (ck_paths k)) (\<lambda>h.
     c_bind (c_lift (to_request h args)) (\<lambda>action.
     c_bind (send_action k (ca_instance args) action) (\<lambda>rsp.
     c_bind (c_mod (ck_print k rsp (ca_json args))) (\<lambda>_.
     c_ret (if rp_success rsp then 0 else 1)))))"

definition run_inner :: "('w, 'e) cli_sys \<Rightarrow> cli_args \<Rightarrow> ('w, 'e, exit_code) cli" where
  "run_inner k args = (case ca_command args of
      None \<Rightarrow> c_lift (Inl (Fails MissingCommand))
    | Some cmd \<Rightarrow>
        c_bind (if command_uses_instance_session cmd
          then c_lift (map_err (\<lambda>e. failed (FailedName e)) (validate_instance_name (ca_instance args)))
          else c_ret ()) (\<lambda>_. case cmd of
          CmdLoad load \<Rightarrow> run_load_command k args load
        | CmdRun run \<Rightarrow> run_recipe_command k args run
        | CmdClose close \<Rightarrow>
            if cl_all close \<or> cl_env close \<noteq> None then run_close_command k close
            else run_instance_close_command k (ca_instance args)
        | CmdEnv env \<Rightarrow> run_env_command k args env
        | _ \<Rightarrow> run_request_command k args))"

definition run_with_args :: "('w, 'e) cli_sys \<Rightarrow> cli_args \<Rightarrow> ('w, 'e, exit_code) cli" where
  \<comment> \<open>An error is printed and gives exit code 1.\<close>
  "run_with_args k args =
     c_bind (c_attempt (run_inner k args)) (\<lambda>r. case r of
       Inr code \<Rightarrow> c_ret code
     | Inl err \<Rightarrow> c_bind (c_mod (ck_print_error k err)) (\<lambda>_. c_ret 1))"

end
