(* ===== verification/Recipe_Properties.thy ===== *)
theory Recipe_Properties
  imports Recipe
begin

text \<open>
  What recipes do: a compiled recipe acts as the recipe read step by step, a dry run lists what a run
  does and does nothing, a loop over whole numbers takes exactly its values, and a run that succeeds
  has seen every assertion hold.
\<close>

section \<open>Lists of operations\<close>

lemma c_for_append:
  "c_for (xs @ ys) body = c_bind (c_for xs body) (\<lambda>rs. c_bind (c_for ys body) (\<lambda>ss. c_ret (rs @ ss)))"
proof (induction xs)
  case (Cons x xs)
  have "c_for ((x # xs) @ ys) body = c_bind (body x) (\<lambda>y. c_bind (c_bind (c_for xs body)
      (\<lambda>rs. c_bind (c_for ys body) (\<lambda>ss. c_ret (rs @ ss)))) (\<lambda>rest. c_ret (y # rest)))"
    using Cons by simp
  also have "\<dots> = c_bind (c_for (x # xs) body) (\<lambda>rs. c_bind (c_for ys body) (\<lambda>ss. c_ret (rs @ ss)))"
    by (simp add: c_bind_assoc)
  finally show ?case .
qed simp

lemma c_for_single [simp]: "c_for [x] body = c_bind (body x) (\<lambda>y. c_ret [y])"
  by simp

lemma c_for_cong: "(\<And>x. x \<in> set xs \<Longrightarrow> f x = g x) \<Longrightarrow> c_for xs f = c_for xs g"
  by (induction xs) auto

lemma c_for_concat:
  "c_for (concat parts) body = c_bind (c_for parts (\<lambda>p. c_for p body)) (\<lambda>rs. c_ret (concat rs))"
  by (induction parts) (simp_all add: c_for_append c_bind_assoc)

lemma c_for_map: "c_for (map g xs) body = c_for xs (\<lambda>x. body (g x))"
  by (induction xs) auto

lemma c_for_Inr:
  "c_for xs body w = Some (Inr rs, u) \<Longrightarrow>
     length rs = length xs \<and> (\<forall>i < length xs. \<exists>v v'. body (xs ! i) v = Some (Inr (rs ! i), v'))"
proof (induction xs arbitrary: w rs)
  case (Cons x xs)
  from Cons.prems obtain y v ys where 1: "body x w = Some (Inr y, v)" "c_for xs body v = Some (Inr ys, u)" "rs = y # ys"
    by (auto simp: c_bind_Inr c_prims)
  from Cons.IH[OF 1(2)] 1 show ?case by (auto simp: nth_Cons split: nat.split)
qed (simp add: c_prims)

section \<open>A recipe step by step\<close>

text \<open>
  The recipe carried out as it is written: a step acts in the instance it names or else in the one
  it stands under; a loop runs its body under the instance it names.
\<close>

fun run_steps ::
    "(recipe_op \<Rightarrow> string \<Rightarrow> ('w, 'e, step_result_data) cli) \<Rightarrow> string \<Rightarrow> recipe_step list \<Rightarrow> ('w, 'e, step_result_data list) cli"
and run_step ::
    "(recipe_op \<Rightarrow> string \<Rightarrow> ('w, 'e, step_result_data) cli) \<Rightarrow> string \<Rightarrow> recipe_step \<Rightarrow> ('w, 'e, step_result_data list) cli"
and run_for ::
    "(recipe_op \<Rightarrow> string \<Rightarrow> ('w, 'e, step_result_data) cli) \<Rightarrow> string \<Rightarrow> for_spec \<Rightarrow> ('w, 'e, step_result_data list) cli"
where
  "run_steps act inst [] = c_ret []"
| "run_steps act inst (s # ss) =
     c_bind (run_step act inst s) (\<lambda>rs. c_bind (run_steps act inst ss) (\<lambda>rest. c_ret (rs @ rest)))"
| "run_step act inst (RecSet entries own) = (case set_writes entries of
      Inl e \<Rightarrow> c_lift (Inl (failed (FailedCompile e)))
    | Inr writes \<Rightarrow> c_for [OpSet None writes] (\<lambda>op. act op (resolve_instance inst own)))"
| "run_step act inst (RecStep s own) = (case step_parts s of (duration, nested) \<Rightarrow>
      c_for [OpStep None duration] (\<lambda>op. act op (resolve_instance (resolve_instance inst own) nested)))"
| "run_step act inst (RecPrint p own) =
     c_for [OpPrint None (print_selectors p)] (\<lambda>op. act op (resolve_instance inst own))"
| "run_step act inst (RecSpeed v own) = c_for [OpSpeed None v] (\<lambda>op. act op (resolve_instance inst own))"
| "run_step act inst (RecReset own) = c_for [OpReset None] (\<lambda>op. act op (resolve_instance inst own))"
| "run_step act inst (RecSleep ms) = c_for [OpSleepMs ms] (\<lambda>op. act op inst)"
| "run_step act inst (RecFor spec own) = run_for act (resolve_instance inst own) spec"
| "run_step act inst (RecAssert a) =
     c_for [OpAssert None a] (\<lambda>op. act op (resolve_instance inst (as_instance a)))"
| "run_for act inst (ForSpec signal lo hi by each) = (case for_steps lo hi by of
      Inl e \<Rightarrow> c_lift (Inl (failed (FailedCompile e)))
    | Inr None \<Rightarrow> c_ret []
    | Inr (Some n) \<Rightarrow>
        c_bind (c_for [0..<unat n + 1] (\<lambda>idx.
          c_bind (c_for (for_iteration None signal (for_value lo by idx)) (\<lambda>op. act op inst)) (\<lambda>rs.
          c_bind (run_steps act inst each) (\<lambda>rest. c_ret (rs @ rest))))) (\<lambda>parts. c_ret (concat parts)))"

definition act_in ::
    "('w, 'e) cli_sys \<Rightarrow> (string, string option) hmap \<Rightarrow> bool \<Rightarrow> recipe_op \<Rightarrow> string \<Rightarrow> ('w, 'e, step_result_data) cli" where
  "act_in k envs dry op inst = execute_op k envs dry inst op"

lemma resolve_or_else: "resolve_instance d (or_else own inh) = resolve_instance (resolve_instance d inh) own"
  by (simp add: resolve_instance_def or_else_def split: option.split)

lemma resolve_None [simp]: "resolve_instance d None = d"
  by (simp add: resolve_instance_def)

lemma execute_at:
  "execute_op k envs dry d (OpSet i ws) = execute_op k envs dry (resolve_instance d i) (OpSet None ws)"
  "execute_op k envs dry d (OpStep i du) = execute_op k envs dry (resolve_instance d i) (OpStep None du)"
  "execute_op k envs dry d (OpPrint i sels) = execute_op k envs dry (resolve_instance d i) (OpPrint None sels)"
  "execute_op k envs dry d (OpSpeed i v) = execute_op k envs dry (resolve_instance d i) (OpSpeed None v)"
  "execute_op k envs dry d (OpReset i) = execute_op k envs dry (resolve_instance d i) (OpReset None)"
  "execute_op k envs dry d (OpAssert i a) = execute_op k envs dry (resolve_instance d i) (OpAssert None a)"
  by (simp_all add: execute_op_def)

lemma execute_anywhere:
  "execute_op k envs dry d (OpForIteration s v) = execute_op k envs dry d' (OpForIteration s v)"
  "execute_op k envs dry d (OpSleepMs ms) = execute_op k envs dry d' (OpSleepMs ms)"
  by (simp_all add: execute_op_def)

lemma execute_iteration:
  "c_for (for_iteration inh signal v) (execute_op k envs dry d) =
   c_for (for_iteration None signal v) (\<lambda>op. act_in k envs dry op (resolve_instance d inh))"
  using execute_at(1)[of k envs dry d inh] execute_anywhere(1)[of k envs dry d signal v "resolve_instance d inh"]
  by (simp add: for_iteration_def act_in_def)

lemma unrolled:
  assumes "map_res (\<lambda>idx. res_bind (compile_recipe_steps each inh) (\<lambda>body. Inr (it idx @ body))) [0..<Suc n] = Inr parts"
  obtains body where "compile_recipe_steps each inh = Inr body" "parts = map (\<lambda>idx. it idx @ body) [0..<Suc n]"
proof -
  have all: "list_all2 (\<lambda>idx p. res_bind (compile_recipe_steps each inh) (\<lambda>body. Inr (it idx @ body)) = Inr p) [0..<Suc n] parts"
    using assms by (simp add: map_res_Inr del: upt_Suc)
  then have len: "length parts = Suc n" by (auto dest: list_all2_lengthD)
  have at: "res_bind (compile_recipe_steps each inh) (\<lambda>body. Inr (it idx @ body)) = Inr (parts ! idx)" if "idx < Suc n" for idx
    using list_all2_nthD[OF all, of idx] that by (simp del: upt_Suc)
  obtain body where body: "compile_recipe_steps each inh = Inr body"
    using at[of 0] by (auto simp: res_bind_Inr)
  have "parts = map (\<lambda>idx. it idx @ body) [0..<Suc n]"
    using at body len by (intro nth_equalityI) (simp_all del: upt_Suc)
  then show thesis using that body by blast
qed

lemma compiled_acts:
  "\<And>ops. compile_recipe_steps steps inh = Inr ops \<Longrightarrow>
     c_for ops (execute_op k envs dry d) = run_steps (act_in k envs dry) (resolve_instance d inh) steps"
  "\<And>ops. compile_step s inh = Inr ops \<Longrightarrow>
     c_for ops (execute_op k envs dry d) = run_step (act_in k envs dry) (resolve_instance d inh) s"
  "\<And>ops. compile_for_step spec inh = Inr ops \<Longrightarrow>
     c_for ops (execute_op k envs dry d) = run_for (act_in k envs dry) (resolve_instance d inh) spec"
proof (induction steps inh and s inh and spec inh rule: compile_recipe_steps_compile_step_compile_for_step.induct)
  case (2 s ss inh)
  from 2(3) obtain o1 o2 where "compile_step s inh = Inr o1" "compile_recipe_steps ss inh = Inr o2" "ops = o1 @ o2"
    by (auto simp: res_bind_Inr)
  then show ?case using 2(1,2) by (simp add: c_for_append)
next
  case (3 entries inst inh)
  then show ?case by (auto simp: res_bind_Inr act_in_def execute_at(1)[of k envs dry d] resolve_or_else)
next
  case (4 st inst inh)
  then show ?case
    by (cases "step_parts st") (auto simp: act_in_def execute_at(2)[of k envs dry d] resolve_or_else)
next
  case (8 ms inh)
  then show ?case using execute_anywhere(2)[of k envs dry d ms "resolve_instance d inh"] by (auto simp: act_in_def)
next
  case (10 a inh)
  then show ?case by (auto simp: res_bind_Inr act_in_def execute_at(6)[of k envs dry d] resolve_or_else)
next
  case (11 signal lo hi inc each inh)
  obtain last where last: "for_steps lo hi inc = Inr last" using 11(2) by (auto simp: res_bind_Inr)
  show ?case
  proof (cases last)
    case None
    then show ?thesis using 11(2) last by simp
  next
    case (Some n)
    let ?act = "act_in k envs dry" and ?at = "resolve_instance d inh"
    from 11(2) last Some obtain parts where parts: "map_res (\<lambda>idx. res_bind (compile_recipe_steps each inh) (\<lambda>body.
        Inr (for_iteration inh signal (for_value lo inc idx) @ body))) [0..<Suc (unat n)] = Inr parts" "ops = concat parts"
      by (auto simp: res_bind_Inr simp del: upt_Suc)
    obtain body where body: "compile_recipe_steps each inh = Inr body"
      and parts': "parts = map (\<lambda>idx. for_iteration inh signal (for_value lo inc idx) @ body) [0..<Suc (unat n)]"
      by (rule unrolled[OF parts(1)])
    have "c_for body (execute_op k envs dry d) = run_steps ?act ?at each"
      by (rule 11(1)[OF body])
    then have "c_for (for_iteration inh signal v @ body) (execute_op k envs dry d) =
        c_bind (c_for (for_iteration None signal v) (\<lambda>op. ?act op ?at)) (\<lambda>rs.
        c_bind (run_steps ?act ?at each) (\<lambda>rest. c_ret (rs @ rest)))" for v
      by (simp add: c_for_append execute_iteration)
    then show ?thesis using last Some parts(2) parts'
      by (simp add: c_for_concat c_for_map del: upt_Suc)
  qed
qed (auto simp: act_in_def execute_at(3-5)[of k envs dry d] resolve_or_else)

section \<open>Loops over whole numbers\<close>

lemma rnd64_near:
  assumes q: "0 < q" "q < pow2 k" and k: "- 1021 \<le> k" "k \<le> 1000"
  shows "\<exists>m. rnd64 s q = Fin m \<and> \<bar>m - q\<bar> \<le> pow2 (k - 54)"
proof -
  define e where "e = max (flog2 q - (53 - 1)) (- 1074)"
  define m where "m = of_int (round_even (q / pow2 e)) * pow2 e"
  have "flog2 q < k" using flog2_less[OF q] .
  then have e: "e \<le> k - 53" using k by (simp add: e_def)
  have "\<bar>of_int (round_even (q / pow2 e)) - q / pow2 e\<bar> \<le> 1 / 2" by (rule round_even_error)
  then have "\<bar>of_int (round_even (q / pow2 e)) - q / pow2 e\<bar> * pow2 e \<le> 1 / 2 * pow2 e"
    by (intro mult_right_mono) (simp_all add: less_imp_le)
  also have "\<bar>of_int (round_even (q / pow2 e)) - q / pow2 e\<bar> * pow2 e = \<bar>m - q\<bar>"
  proof -
    have "m - q = (of_int (round_even (q / pow2 e)) - q / pow2 e) * pow2 e" by (simp add: m_def left_diff_distrib)
    then show ?thesis by (simp only: abs_mult abs_pow2)
  qed
  also have "1 / 2 * pow2 e = pow2 (e - 1)" by (simp add: pow2_diff) (simp add: pow2_def)
  finally have near: "\<bar>m - q\<bar> \<le> pow2 (e - 1)" .
  also have "\<dots> \<le> pow2 (k - 54)" using e by (intro pow2_mono) simp
  finally have err: "\<bar>m - q\<bar> \<le> pow2 (k - 54)" .
  have "pow2 (k - 54) \<le> pow2 k" by (intro pow2_mono) simp
  then have "m < pow2 k + pow2 k" using err q by linarith
  also have "pow2 k + pow2 k = pow2 (k + 1)" by (simp add: pow2_add) (simp add: pow2_def)
  also have "\<dots> \<le> pow2 1024" using k by (intro pow2_mono) simp
  finally have "\<not> pow2 1024 \<le> m" by simp
  then have "rnd64 s q = Fin m"
    unfolding rnd64_def rnd_fmt_def Let_def abs_of_pos[OF q(1)] e_def[symmetric] m_def[symmetric]
    using q by (auto simp: fzero_def)
  then show ?thesis using err by blast
qed

lemma fsub_Fin: "fsub (Fin a) (Fin b) = rnd64 False (a - b)"
  by (auto simp: fsub_def fminus_def fadd_def is_inf_def is_zero_def fval_def fneg_def)

lemma fdiv_Fin: "0 \<le> a \<Longrightarrow> 0 < b \<Longrightarrow> fdiv (Fin a) (Fin b) = rnd64 False (a / b)"
  by (auto simp: fdiv_def is_inf_def is_zero_def fval_def fneg_def Let_def)

lemma fadd_Fin: "b \<noteq> 0 \<Longrightarrow> fadd (Fin a) (Fin b) = rnd64 False (a + b)"
  by (auto simp: fadd_def is_inf_def is_zero_def fval_def fneg_def)

lemma for_epsilon: "\<exists>m. FOR_EPSILON = Fin m \<and> 9 / 10000000000 < m \<and> m < 11 / 10000000000"
proof -
  define c :: rat where "c = 1 / 10000000000"
  have c: "1 / 10 ^ 9 = 10 * c" "9 / 10000000000 = 9 * c" "11 / 10000000000 = 11 * c" by (simp_all add: c_def)
  have "10 * c < pow2 (- 29)" "pow2 (- 83) < c" by (simp_all add: pow2_def c_def)
  moreover obtain m where "FOR_EPSILON = Fin m" "\<bar>m - 10 * c\<bar> \<le> pow2 (- 83)"
    using rnd64_near[of "10 * c" "- 29" False] calculation(1) unfolding FOR_EPSILON_def c by (auto simp: c_def)
  ultimately show ?thesis unfolding c by (intro exI[of _ m]) linarith
qed

lemma loop_count_floor:
  assumes B: "0 < B" "B \<le> 2 ^ 20" and D: "0 \<le> D" "D < (2 ^ 23 - 1) * B"
  shows "is_finite (rnd64 False (of_int D / of_int B)) \<and>
    (\<exists>t. fadd (rnd64 False (of_int D / of_int B)) FOR_EPSILON = Fin t \<and> \<lfloor>t\<rfloor> = D div B)"
proof -
  let ?q = "of_int D / of_int B :: rat" and ?n = "D div B"
  define tiny :: rat where "tiny = 1 / 2147483648"
  have p: "pow2 23 = 8388608" "pow2 (- 31) = tiny" by (simp_all add: pow2_def tiny_def)
  have split: "?q = of_int ?n + of_int (D mod B) / of_int B"
  proof -
    have "(of_int D :: rat) = of_int ?n * of_int B + of_int (D mod B)"
      by (metis of_int_add of_int_mult div_mult_mod_eq)
    then have "?q = (of_int ?n * of_int B + of_int (D mod B)) / of_int B" by presburger
    also have "\<dots> = of_int ?n + of_int (D mod B) / of_int B" using B(1) by (simp add: add_divide_distrib)
    finally show ?thesis .
  qed
  have q0: "0 \<le> ?q" using B D by simp
  have "of_int D < (of_int ((2 ^ 23 - 1) * B) :: rat)" using D(2) by (simp only: of_int_less_iff)
  then have q1: "?q < 8388607" using B(1) by (simp add: field_simps)
  have n: "of_int ?n \<le> ?q" "?q < of_int ?n + 1"
    using floor_divide_of_int_eq[of D B, where ?'a = rat] by linarith+
  have "\<exists>r. rnd64 False ?q = Fin r \<and> \<bar>r - ?q\<bar> \<le> tiny \<and> (D mod B = 0 \<longrightarrow> r = ?q)"
  proof (cases "D mod B = 0")
    case True
    then have q: "?q = of_int ?n" using split by simp
    have "(of_int ?n :: rat) < of_int (2 ^ 23)" using q q1 by simp
    then have "0 \<le> ?n" "?n < 2 ^ 23" using B D by (simp_all only: of_int_less_iff pos_imp_zdiv_nonneg_iff)
    then have "rnd64 False ?q = Fin ?q" unfolding q by (subst rnd64_int) (simp_all add: fzero_def)
    then show ?thesis by (simp add: tiny_def)
  next
    case False
    then have "D \<noteq> 0" by auto
    then have "0 < ?q" "?q < pow2 23" using D B q1 by (simp_all add: p)
    then show ?thesis using rnd64_near[of ?q 23 False] False by (auto simp: p)
  qed
  then obtain r where r: "rnd64 False ?q = Fin r" "\<bar>r - ?q\<bar> \<le> tiny" "D mod B = 0 \<longrightarrow> r = ?q" by blast
  obtain d where d: "FOR_EPSILON = Fin d" "9 / 10000000000 < d" "d < 11 / 10000000000" using for_epsilon by blast
  have t1: "tiny < 5 / 10000000000" by (simp add: tiny_def)
  have "0 < r + d" using r(2) q0 d t1 by linarith
  moreover have "r + d < pow2 23" unfolding p using r(2) q1 d t1 by linarith
  ultimately obtain t where t: "rnd64 False (r + d) = Fin t" "\<bar>t - (r + d)\<bar> \<le> tiny"
    using rnd64_near[of "r + d" 23 False] by (auto simp: p)
  have "of_int ?n \<le> t \<and> t < of_int ?n + 1"
  proof (cases "D mod B = 0")
    case True
    then have "?q = of_int ?n" using split by simp
    then show ?thesis using True r(3) t(2) d t1 by linarith
  next
    case False
    have "(of_int B :: rat) \<le> of_int (2 ^ 20)" using B(2) by (simp only: of_int_le_iff)
    then have b: "1 / 1048576 \<le> (1 / of_int B :: rat)" using B(1) by (simp add: field_simps)
    have m: "1 \<le> D mod B" "D mod B \<le> B - 1" using False B(1) pos_mod_bound[of B D] pos_mod_sign[of B D] by linarith+
    have "(1 :: rat) \<le> of_int (D mod B)" using m(1) by simp
    then have low: "1 / of_int B \<le> (of_int (D mod B) / of_int B :: rat)" using B(1) by (intro divide_right_mono) simp_all
    have "(of_int (D mod B) :: rat) \<le> of_int (B - 1)" using m(2) by (simp only: of_int_le_iff)
    then have "(of_int (D mod B) / of_int B :: rat) \<le> (of_int B - 1) / of_int B" using B(1) by (intro divide_right_mono) simp_all
    also have "\<dots> = 1 - 1 / of_int B" using B(1) by (simp add: diff_divide_distrib)
    finally have high: "of_int (D mod B) / of_int B \<le> (1 - 1 / of_int B :: rat)" .
    from split low high have "of_int ?n + 1 / 1048576 \<le> ?q" "?q \<le> of_int ?n + 1 - 1 / 1048576" using b by linarith+
    then show ?thesis using r(2) t(2) d t1 by linarith
  qed
  then have "\<lfloor>t\<rfloor> = ?n" by (simp add: floor_eq_iff)
  moreover have "d \<noteq> 0" using d(2) by auto
  then have "fadd (rnd64 False ?q) FOR_EPSILON = Fin t" unfolding r(1) d(1) by (simp add: fadd_Fin t(1))
  ultimately show ?thesis using r(1) by (simp add: is_finite_def)
qed

lemma for_steps_int:
  assumes inc: "0 < inc" "inc \<le> 2 ^ 20" and range: "lo \<le> hi" "hi - lo < (2 ^ 23 - 1) * inc"
  shows "\<exists>n. for_steps (Fin (of_int lo)) (Fin (of_int hi)) (Fin (of_int inc)) = Inr (Some n) \<and> uint n = (hi - lo) div inc"
proof -
  let ?D = "hi - lo"
  have "(2 ^ 23 - 1) * inc \<le> (2 ^ 23 - 1) * 2 ^ 20" using inc(2) by (intro mult_left_mono) simp_all
  also have "(2 ^ 23 - 1) * 2 ^ 20 \<le> (2 ^ 53 :: int)" by simp
  finally have "?D \<le> 2 ^ 53" using range(2) by linarith
  then have delta: "fsub (Fin (of_int hi)) (Fin (of_int lo)) = Fin (of_int ?D)"
    using range(1) rnd64_int[of ?D False] by (auto simp: fsub_Fin fzero_def)
  obtain t where t: "is_finite (rnd64 False (of_int ?D / of_int inc))"
    "fadd (rnd64 False (of_int ?D / of_int inc)) FOR_EPSILON = Fin t" "\<lfloor>t\<rfloor> = ?D div inc"
    using loop_count_floor[of inc ?D] inc range by auto
  have raw: "fdiv (Fin (of_int ?D)) (Fin (of_int inc)) = rnd64 False (of_int ?D / of_int inc)"
    using inc range by (intro fdiv_Fin) simp_all
  have n: "0 \<le> ?D div inc" "?D div inc \<le> 2 ^ 53"
    using inc range \<open>?D \<le> 2 ^ 53\<close> pos_imp_zdiv_nonneg_iff[of inc ?D] zdiv_mono2[of ?D 1 inc] by auto
  then have nr: "(of_int (?D div inc) :: rat) \<le> of_int (2 ^ 53)" by (simp only: of_int_le_iff)
  define n where "n = f_as_u64 (Fin (of_int (?D div inc)))"
  have "uint n = ?D div inc"
    using n by (auto simp: n_def f_as_u64_def uint_word_of_int_eq take_bit_int_eq_self_iff)
  moreover have "for_steps (Fin (of_int lo)) (Fin (of_int hi)) (Fin (of_int inc)) = Inr (Some n)"
    unfolding for_steps_def Let_def delta raw t(2)
    using t(1,3) inc(1) range(1) nr by (simp add: feq_def is_inf_def fval_def U64_MAX_F64_eq ffloor_def n_def)
  ultimately show ?thesis by blast
qed

lemma for_value_int:
  assumes "\<bar>lo\<bar> \<le> 2 ^ 53" "\<bar>lo + inc * int i\<bar> \<le> 2 ^ 53" "\<bar>inc * int i\<bar> \<le> 2 ^ 53" "i \<le> 2 ^ 53" "0 < inc"
  shows "for_value (Fin (of_int lo)) (Fin (of_int inc)) i = Fin (of_int (lo + inc * int i))"
proof -
  have i: "f_of_int (int i) = Fin (of_int (int i))" using assms(4) by (intro f_of_int_exact) simp
  have exact: "rnd64 False (of_int n) = Fin (of_int n)" if "\<bar>n\<bar> \<le> 2 ^ 53" for n
    using rnd64_int[OF that, of False] by (simp add: fzero_def split: if_splits)
  have m: "fmul (Fin (of_int inc)) (Fin (of_int (int i))) = rnd64 False (of_int (inc * int i))"
    using assms(5) by (simp add: fmul_def is_inf_def fneg_def fval_def)
  have "fadd (Fin (of_int lo)) (Fin (of_int (inc * int i))) = rnd64 False (of_int (lo + inc * int i))"
    by (auto simp: fadd_def is_inf_def is_zero_def fneg_def fval_def fzero_def)
  then show ?thesis
    unfolding for_value_def i m exact[OF assms(3)] by (simp only: exact[OF assms(2)])
qed

section \<open>What a run lists\<close>

definition op_kind :: "recipe_op \<Rightarrow> step_kind" where
  "op_kind op = (case op of
      OpForIteration _ _ \<Rightarrow> KForIteration | OpSet _ _ \<Rightarrow> KSet | OpStep _ _ \<Rightarrow> KStep | OpPrint _ _ \<Rightarrow> KPrint
    | OpSpeed _ _ \<Rightarrow> KSpeed | OpReset _ \<Rightarrow> KReset | OpSleepMs _ \<Rightarrow> KSleep | OpAssert _ _ \<Rightarrow> KAssert)"

definition op_instance :: "string \<Rightarrow> recipe_op \<Rightarrow> string option" where
  "op_instance d op = (case op of
      OpForIteration _ _ \<Rightarrow> None | OpSleepMs _ \<Rightarrow> None
    | OpSet i _ \<Rightarrow> Some (resolve_instance d i) | OpStep i _ \<Rightarrow> Some (resolve_instance d i)
    | OpPrint i _ \<Rightarrow> Some (resolve_instance d i) | OpSpeed i _ \<Rightarrow> Some (resolve_instance d i)
    | OpReset i \<Rightarrow> Some (resolve_instance d i) | OpAssert i _ \<Rightarrow> Some (resolve_instance d i))"

definition listed_as :: "string \<Rightarrow> recipe_op \<Rightarrow> step_result_data \<Rightarrow> bool" where
  "listed_as d op r \<longleftrightarrow> st_kind r = op_kind op \<and> st_instance r = op_instance d op"

lemmas listed = listed_as_def op_kind_def op_instance_def recipe_step_result_def

lemma execute_listed: "execute_op k envs dry d op w = Some (Inr r, u) \<Longrightarrow> listed_as d op r"
  by (cases op)
    (auto simp: execute_op_def run_assert_def listed c_bind_Inr c_prims Let_def simp del: c_bind_prim(4)
      split: if_splits prod.splits)

lemma dry_op: "\<exists>r. execute_op k envs True d op = c_ret r \<and> listed_as d op r"
  by (cases op) (auto simp: execute_op_def unless_dry_def listed Let_def intro!: exI conjI[OF refl])

lemma dry_ops: "\<exists>rs. c_for ops (execute_op k envs True d) = c_ret rs \<and> list_all2 (listed_as d) ops rs"
proof (induction ops)
  case (Cons op ops)
  obtain r where "execute_op k envs True d op = c_ret r" "listed_as d op r" using dry_op by blast
  moreover obtain rs where "c_for ops (execute_op k envs True d) = c_ret rs" "list_all2 (listed_as d) ops rs"
    using Cons by blast
  ultimately show ?case by (intro exI[of _ "r # rs"]) simp
qed simp

lemma run_ops: "c_for ops (execute_op k envs dry d) w = Some (Inr rs, u) \<Longrightarrow> list_all2 (listed_as d) ops rs"
  using c_for_Inr[of ops "execute_op k envs dry d" w rs u] execute_listed[of k envs dry d]
  by (fastforce simp: list_all2_conv_all_nth)

section \<open>Assertions\<close>

text \<open>What a value that passed has to be, comparison by comparison.\<close>

definition assertion_meaning :: "signal_value \<Rightarrow> assert_spec \<Rightarrow> bool" where
  "assertion_meaning v a \<longleftrightarrow>
     (let x = the (signal_value_as_f64 v) in
       comparator_count a = 1 \<and> (as_tolerance a = None \<longleftrightarrow> as_approx a = None) \<and> x \<noteq> NaN \<and>
       (\<forall>n. as_eq a = Some (TInteger n) \<longrightarrow> (case v of VU32 m \<Rightarrow> uint m = sint n | VI32 m \<Rightarrow> sint m = sint n
          | _ \<Rightarrow> flt (fabs (fsub x (f_of_int (sint n)))) F64_EPSILON)) \<and>
       (\<forall>b. as_eq a = Some (TBoolean b) \<longrightarrow> v = VBool b) \<and>
       (\<forall>e. as_eq a = Some (TFloat e) \<longrightarrow> (case v of VF32 _ \<Rightarrow> feq x (f_as_f32 e) | _ \<Rightarrow> feq x e)) \<and>
       (\<forall>e. as_gt a = Some e \<longrightarrow> flt e x) \<and> (\<forall>e. as_lt a = Some e \<longrightarrow> flt x e) \<and>
       (\<forall>e. as_gte a = Some e \<longrightarrow> fle e x) \<and> (\<forall>e. as_lte a = Some e \<longrightarrow> fle x e) \<and>
       (\<forall>e t. as_approx a = Some e \<and> as_tolerance a = Some t \<longrightarrow> fle (fabs (fsub x e)) (fabs t)))"

lemma u32_eq_i64: "(ucast (m :: u32) :: 64 word) = n \<longleftrightarrow> uint m = sint n"
proof -
  have "sint (ucast m :: 64 word) = uint m"
  proof -
    have "- (2 ^ 63) \<le> (0 :: int)" by simp
    then have "- (2 ^ 63) \<le> uint m" using uint_ge_0[of m] by (rule order_trans)
    moreover have "uint m < 2 ^ 63" using uint_lt2p[of m] by simp
    ultimately have "signed_take_bit 63 (uint m) = uint m" by (intro signed_take_bit_int_eq_self)
    then show ?thesis by (simp add: sint_uint uint_up_ucast is_up)
  qed
  then show ?thesis by (metis signed_word_eqI)
qed

lemma i32_eq_i64: "(scast (m :: u32) :: 64 word) = n \<longleftrightarrow> sint m = sint n"
proof -
  have "sint (scast m :: 64 word) = sint m" by (rule sint_up_scast) (simp add: is_up)
  then show ?thesis by (metis signed_word_eqI)
qed

lemma number_of_value: "\<exists>x. signal_value_as_f64 v = Some x"
  by (cases v) (simp_all add: signal_value_as_f64_def)

lemma compare_NaN:
  "\<not> flt NaN e" "\<not> flt e NaN" "\<not> fle NaN e" "\<not> fle e NaN" "\<not> feq NaN e" "fabs (fsub NaN e) = NaN"
  by (simp_all add: flt_def fle_def feq_def fsub_def fadd_def fabs_def fneg_def)

lemma validate_ok:
  "validate_assert_spec s a = Inr u \<longleftrightarrow>
     comparator_count a = 1 \<and> (as_tolerance a = None \<longleftrightarrow> as_approx a = None)"
  by (auto simp: validate_assert_spec_def Let_def)

lemma comparators: "comparator_count a = of_bool (as_eq a \<noteq> None) + of_bool (as_gt a \<noteq> None) + of_bool (as_lt a \<noteq> None) +
    of_bool (as_gte a \<noteq> None) + of_bool (as_lte a \<noteq> None) + of_bool (as_approx a \<noteq> None)"
proof -
  have "length (filter id bs) = sum_list (map of_bool bs)" for bs :: "bool list" by (induction bs) auto
  then show ?thesis by (simp add: comparator_count_def)
qed

lemma one_comparator:
  "comparator_count a = 1 \<Longrightarrow> as_eq a = Some e \<Longrightarrow>
     as_gt a = None \<and> as_lt a = None \<and> as_gte a = None \<and> as_lte a = None \<and> as_approx a = None"
  "comparator_count a = 1 \<Longrightarrow> as_gt a = Some x \<Longrightarrow>
     as_eq a = None \<and> as_lt a = None \<and> as_gte a = None \<and> as_lte a = None \<and> as_approx a = None"
  "comparator_count a = 1 \<Longrightarrow> as_lt a = Some x \<Longrightarrow>
     as_eq a = None \<and> as_gt a = None \<and> as_gte a = None \<and> as_lte a = None \<and> as_approx a = None"
  "comparator_count a = 1 \<Longrightarrow> as_gte a = Some x \<Longrightarrow>
     as_eq a = None \<and> as_gt a = None \<and> as_lt a = None \<and> as_lte a = None \<and> as_approx a = None"
  "comparator_count a = 1 \<Longrightarrow> as_lte a = Some x \<Longrightarrow>
     as_eq a = None \<and> as_gt a = None \<and> as_lt a = None \<and> as_gte a = None \<and> as_approx a = None"
  "comparator_count a = 1 \<Longrightarrow> as_approx a = Some x \<Longrightarrow>
     as_eq a = None \<and> as_gt a = None \<and> as_lt a = None \<and> as_gte a = None \<and> as_lte a = None"
  by (simp_all add: comparators)

lemma eq_passed:
  assumes "compare_eq v e = Inr True" and x: "signal_value_as_f64 v = Some x"
  shows "x \<noteq> NaN \<and> (\<forall>n. e = TInteger n \<longrightarrow> (case v of VU32 m \<Rightarrow> uint m = sint n | VI32 m \<Rightarrow> sint m = sint n
          | _ \<Rightarrow> flt (fabs (fsub x (f_of_int (sint n)))) F64_EPSILON)) \<and>
       (\<forall>b. e = TBoolean b \<longrightarrow> v = VBool b) \<and>
       (\<forall>f. e = TFloat f \<longrightarrow> (case v of VF32 _ \<Rightarrow> feq x (f_as_f32 f) | _ \<Rightarrow> feq x f))"
proof (cases e)
  case (TInteger n)
  then show ?thesis using assms
    by (cases v) (auto simp: compare_eq_def signal_value_as_f64_def u32_eq_i64 i32_eq_i64 compare_NaN f_of_int_def
      simp del: of_int_eq_iff)
next
  case (TFloat f)
  then show ?thesis using assms
    by (cases v) (auto simp: compare_eq_def signal_value_as_f64_def compare_NaN f_of_int_def)
next
  case (TBoolean b)
  then show ?thesis using assms by (cases v) (auto simp: compare_eq_def signal_value_as_f64_def split: if_splits)
qed (use assms in \<open>cases v; simp add: compare_eq_def\<close>)+

lemma passed_means:
  assumes "evaluate_assertion s v a = Inr ()"
  shows "assertion_meaning v a"
proof -
  obtain x where x: "signal_value_as_f64 v = Some x" using number_of_value by blast
  have ok: "comparator_count a = 1" "as_tolerance a = None \<longleftrightarrow> as_approx a = None"
    using assms by (auto simp: evaluate_assertion_def res_bind_Inr validate_ok)
  show ?thesis
  proof (cases "as_eq a")
    case (Some e)
    then have "compare_eq v e = Inr True"
      using assms by (auto simp: evaluate_assertion_def res_bind_Inr guard_err_Inr)
    from eq_passed[OF this x] show ?thesis
      using ok one_comparator(1)[OF ok(1) Some] Some x by (simp add: assertion_meaning_def)
  next
    case eq: None
    have "as_gt a \<noteq> None \<or> as_lt a \<noteq> None \<or> as_gte a \<noteq> None \<or> as_lte a \<noteq> None \<or> as_approx a \<noteq> None"
      by (rule ccontr) (use ok(1) eq in \<open>simp add: comparators\<close>)
    then consider e where "as_gt a = Some e" | e where "as_lt a = Some e" | e where "as_gte a = Some e"
      | e where "as_lte a = Some e" | e where "as_approx a = Some e" by auto
    then show ?thesis
    proof cases
      case (1 e)
      then have "flt e x" using assms eq x by (simp add: evaluate_assertion_def res_bind_Inr guard_err_Inr)
      then show ?thesis using ok one_comparator(2)[OF ok(1) 1] 1 x by (auto simp: assertion_meaning_def compare_NaN)
    next
      case (2 e)
      note none = one_comparator(3)[OF ok(1) 2]
      then have "flt x e" using assms 2 x by (simp add: evaluate_assertion_def res_bind_Inr guard_err_Inr)
      then show ?thesis using ok none 2 x by (auto simp: assertion_meaning_def compare_NaN)
    next
      case (3 e)
      note none = one_comparator(4)[OF ok(1) 3]
      then have "fle e x" using assms 3 x by (simp add: evaluate_assertion_def res_bind_Inr guard_err_Inr)
      then show ?thesis using ok none 3 x by (auto simp: assertion_meaning_def compare_NaN)
    next
      case (4 e)
      note none = one_comparator(5)[OF ok(1) 4]
      then have "fle x e" using assms 4 x by (simp add: evaluate_assertion_def res_bind_Inr guard_err_Inr)
      then show ?thesis using ok none 4 x by (auto simp: assertion_meaning_def compare_NaN)
    next
      case (5 e)
      note none = one_comparator(6)[OF ok(1) 5]
      obtain t where t: "as_tolerance a = Some t" using ok(2) 5 by auto
      then have "fle (fabs (fsub x e)) (fabs t)"
        using assms none 5 x by (simp add: evaluate_assertion_def res_bind_Inr guard_err_Inr)
      then show ?thesis using ok none 5 x t by (auto simp: assertion_meaning_def compare_NaN)
    qed
  qed
qed

lemma for_loop_int:
  assumes "0 < inc" "inc \<le> 2 ^ 20" "lo \<le> hi" "hi - lo < (2 ^ 23 - 1) * inc" "\<bar>lo\<bar> \<le> 2 ^ 52" "\<bar>hi\<bar> \<le> 2 ^ 52"
    and "compile_recipe_steps each inh = Inr body"
  shows "compile_for_step (ForSpec signal (Fin (of_int lo)) (Fin (of_int hi)) (Fin (of_int inc)) each) inh =
    Inr (concat (map (\<lambda>i. for_iteration inh signal (Fin (of_int (lo + inc * int i))) @ body)
      [0..<nat ((hi - lo) div inc) + 1]))"
proof -
  obtain n where n: "for_steps (Fin (of_int lo)) (Fin (of_int hi)) (Fin (of_int inc)) = Inr (Some n)"
    "uint n = (hi - lo) div inc" using for_steps_int[OF assms(1-4)] by blast
  have un: "unat n = nat ((hi - lo) div inc)" unfolding n(2)[symmetric] by (rule nat_uint_eq[symmetric])
  have exact: "for_value (Fin (of_int lo)) (Fin (of_int inc)) i = Fin (of_int (lo + inc * int i))" if "i \<le> unat n" for i
  proof (rule for_value_int)
    have "int i \<le> (hi - lo) div inc" using that un assms(1,3) by (simp add: pos_imp_zdiv_nonneg_iff le_nat_iff)
    then have "inc * int i \<le> inc * ((hi - lo) div inc)" using assms(1) by (intro mult_left_mono) simp_all
    also have "\<dots> \<le> hi - lo" using assms(1) by (simp add: minus_mod_eq_mult_div[symmetric])
    finally have i: "inc * int i \<le> hi - lo" .
    moreover have "0 \<le> inc * int i" "int i \<le> inc * int i" using assms(1) by (simp_all add: mult_le_cancel_right1)
    ultimately show "\<bar>lo + inc * int i\<bar> \<le> 2 ^ 53" "\<bar>inc * int i\<bar> \<le> 2 ^ 53" "i \<le> 2 ^ 53" "\<bar>lo\<bar> \<le> 2 ^ 53"
      using assms by auto
  qed (rule assms(1))
  have "map_res (\<lambda>idx. res_bind (compile_recipe_steps each inh) (\<lambda>body.
      Inr (for_iteration inh signal (for_value (Fin (of_int lo)) (Fin (of_int inc)) idx) @ body))) [0..<unat n + 1] =
    Inr (map (\<lambda>i. for_iteration inh signal (Fin (of_int (lo + inc * int i))) @ body) [0..<unat n + 1])"
  proof (rule map_res_total)
    fix x assume "x \<in> set [0..<unat n + 1]"
    then have x: "x \<le> unat n" by auto
    show "res_bind (compile_recipe_steps each inh) (\<lambda>body.
      Inr (for_iteration inh signal (for_value (Fin (of_int lo)) (Fin (of_int inc)) x) @ body)) =
      Inr (for_iteration inh signal (Fin (of_int (lo + inc * int x))) @ body)"
      unfolding exact[OF x] assms(7) by simp
  qed
  then show ?thesis by (simp add: n(1) un del: upt_Suc)
qed

lemma show_digit:
  assumes "0 < n" "n < 10"
  shows "show_float (rnd64 False) (Fin (of_nat n)) = [digit_char n]"
proof -
  have s: "show_nat n = [digit_char n]" using assms by (subst show_nat.simps) simp
  have q: "1 \<le> (of_nat n :: rat)" using assms by simp
  then have "dec_exp (of_nat n) = 0" by (simp add: dec_exp_def s)
  moreover have "rnd64 False (of_nat n) = Fin (of_nat n)"
    using rnd64_int[of "int n" False] assms by simp
  ultimately have "shortest_digits (rnd64 False) (of_nat n) 0 17 = (n, 0)"
    by (subst shortest_digits.simps) (simp add: pow10_def Let_def)
  then show ?thesis using assms by (simp add: show_float_def show_decimal_def s)
qed

section \<open>Properties\<close>

text \<open>
  C6: carrying out the compiled operations of a recipe is the same, request by request and result by
  result, as carrying the recipe out as it is written, where a step acts in the instance it names or
  else in the one of the innermost loop that names one, or else in the default instance.
\<close>

theorem compiled_recipe_acts:
  assumes "compile_recipe_steps steps None = Inr ops"
  shows "execute_recipe_ops k dflt ops dry w =
    c_bind (if dry then c_ret [] else load_attached_envs k) (\<lambda>envs. run_steps (act_in k envs dry) dflt steps) w"
proof -
  have "c_for ops (execute_op k envs dry dflt) = run_steps (act_in k envs dry) dflt steps" for envs
    using compiled_acts(1)[OF assms] by simp
  then show ?thesis unfolding execute_recipe_ops_def by simp
qed

definition demo_recipe :: "recipe_step list" where
  "demo_recipe = [RecFor (ForSpec ''s'' (Fin 0) (Fin 2) (Fin 1) [RecReset None, RecReset (Some ''b'')]) (Some ''a''),
     RecSleep 5]"

lemma demo_compiles: "compile_recipe_steps demo_recipe None = Inr
  (concat (map (\<lambda>i. for_iteration (Some ''a'') ''s'' (Fin (of_nat i)) @ [OpReset (Some ''a''), OpReset (Some ''b'')]) [0, 1, 2])
    @ [OpSleepMs 5])"
  using for_loop_int[of 1 0 2 "[RecReset None, RecReset (Some ''b'')]" "Some ''a''" "[OpReset (Some ''a''), OpReset (Some ''b'')]" "''s''"]
  by (simp add: demo_recipe_def numeral_eq_Suc)

definition sample_wire :: "(nat, unit) wire_sys" where
  "sample_wire = \<lparr>ws_connect = (\<lambda>_ _ n. (Inr (), n)), ws_write = (\<lambda>_ _ n. (Inr (), n + 1)),
     ws_read_line = (\<lambda>_ n. (Inr ''x'', n)), ws_sleep = (\<lambda>_ n. n), ws_show = (\<lambda>_. Some ''{}''),
     ws_parse = (\<lambda>_. Some (response_ok 0 (SignalSample 1 2
       [\<lparr>sv_id = 0, sv_name = ''s'', sv_type = TU32, sv_value = VU32 5, sv_units = None\<rparr>])))\<rparr>"

definition demo_cli :: "(nat, unit) cli_sys" where
  "demo_cli = \<lparr>ck_host = tiny_host, ck_wire = sample_wire, ck_uuid = (\<lambda>n. (0, n)),
     ck_config = (\<lambda>_. \<lparr>ch_env_var = None, ch_local_path = None, ch_exists = (\<lambda>_. False), ch_read = (\<lambda>_. None),
       ch_parse = (\<lambda>_. None)\<rparr>),
     ck_paths = (\<lambda>_. demo_paths), ck_write_load_spec = (\<lambda>_ _ n. (True, n)), ck_write_env_spec = (\<lambda>_ _ n. (True, n)),
     ck_kill_pid = (\<lambda>_ n. n), ck_print = (\<lambda>_ _ n. n), ck_print_error = (\<lambda>_ n. n)\<rparr>"

lemma demo_envs: "load_attached_envs demo_cli n = Some (Inr [], n)"
  by (simp add: load_attached_envs_def c_bind_def c_act_def list_instances_def scan_dir_def a_bind_def make_dir_def
      guard_err_def demo_cli_def tiny_host_def a_ret_def c_prims attached_env_map_def hm_collect_def)

theorem compiled_recipe_acts_witness:
  "execute_recipe_ops demo_cli ''m'' (concat (map (\<lambda>i. for_iteration (Some ''a'') ''s'' (Fin (of_nat i)) @
       [OpReset (Some ''a''), OpReset (Some ''b'')]) [0, 1, 2]) @ [OpSleepMs 5]) False 1 =
   c_bind (load_attached_envs demo_cli) (\<lambda>envs. run_steps (act_in demo_cli envs False) ''m'' demo_recipe) 1"
  using compiled_recipe_acts[OF demo_compiles, of demo_cli "''m''" False 1] by simp

text \<open>
  C22: a dry run always succeeds, changes nothing and lists every operation once, with its kind and its
  instance; a run that succeeds lists the same kinds and instances in the same order.
\<close>

theorem dry_run_faithful:
  "(\<exists>rs. execute_recipe_ops k dflt ops True w = Some (Inr rs, w) \<and> list_all2 (listed_as dflt) ops rs) \<and>
   (execute_recipe_ops k dflt ops False w = Some (Inr rs', u) \<longrightarrow> list_all2 (listed_as dflt) ops rs')"
proof
  obtain rs where "c_for ops (execute_op k [] True dflt) = c_ret rs" "list_all2 (listed_as dflt) ops rs"
    using dry_ops by blast
  then show "\<exists>rs. execute_recipe_ops k dflt ops True w = Some (Inr rs, w) \<and> list_all2 (listed_as dflt) ops rs"
    by (simp add: execute_recipe_ops_def c_prims)
  show "execute_recipe_ops k dflt ops False w = Some (Inr rs', u) \<longrightarrow> list_all2 (listed_as dflt) ops rs'"
    using run_ops by (auto simp: execute_recipe_ops_def c_bind_Inr)
qed

theorem dry_run_faithful_witness:
  "list_all2 (listed_as ''m'') [OpSleepMs 5] [\<lparr>st_kind = KSleep, st_instance = None, st_detail = ''5ms''\<rparr>]"
proof -
  have five: "show_nat (unat (5 :: u64)) = ''5''" by code_simp
  have "execute_recipe_ops demo_cli ''m'' [OpSleepMs 5] False 4 =
    Some (Inr [\<lparr>st_kind = KSleep, st_instance = None, st_detail = ''5ms''\<rparr>], 4)"
    using demo_envs five by (simp add: execute_recipe_ops_def c_bind_def c_prims execute_op_def unless_dry_def recipe_step_result_def
      demo_cli_def tiny_host_def)
  then show ?thesis using dry_run_faithful[of demo_cli "''m''" "[OpSleepMs 5]" 4] by blast
qed



text \<open>
  C21: when a recipe has run, every assertion in it held of the value its instance returned for the
  signal: it has exactly one comparison, a tolerance if and only if it is approximate, the value is
  not NaN, and the comparison is true; whole numbers are compared exactly.
\<close>

theorem recipe_assertions_held:
  assumes "execute_recipe_ops k dflt ops False w = Some (Inr rs, u)" and "OpAssert i a \<in> set ops"
  shows "\<exists>v v' tick time_us x. fetch_signal_sample k (resolve_instance dflt i) (as_signal a) v = Some (Inr (tick, time_us, x), v') \<and>
    assertion_meaning (sv_value x) a"
proof -
  obtain envs v where run: "c_for ops (execute_op k envs False dflt) v = Some (Inr rs, u)"
    using assms(1) by (auto simp: execute_recipe_ops_def c_bind_Inr)
  obtain j where j: "j < length ops" "ops ! j = OpAssert i a" using assms(2) by (auto simp: in_set_conv_nth)
  obtain v1 v2 where "execute_op k envs False dflt (OpAssert i a) v1 = Some (Inr (rs ! j), v2)"
    using c_for_Inr[OF run] j by metis
  then obtain tick time_us x v' where x: "fetch_signal_sample k (resolve_instance dflt i) (as_signal a) v1 = Some (Inr (tick, time_us, x), v')"
    "evaluate_assertion (as_signal a) (sv_value x) a = Inr ()"
    by (auto simp: execute_op_def run_assert_def c_bind_Inr c_prims Let_def map_err_Inr simp del: c_bind_prim(4))
  then show ?thesis using passed_means by blast
qed

definition demo_assert :: assert_spec where
  "demo_assert = \<lparr>as_signal = ''s'', as_instance = None, as_eq = Some (TInteger 5), as_gt = None, as_lt = None,
     as_gte = None, as_lte = None, as_approx = None, as_tolerance = None\<rparr>"

theorem recipe_assertions_held_witness:
  "\<exists>v v' tick time_us x. fetch_signal_sample demo_cli ''m'' ''s'' v = Some (Inr (tick, time_us, x), v') \<and>
    assertion_meaning (sv_value x) demo_assert"
proof -
  have name: "validate_instance_name ''m'' = Inr ()" by code_simp
  have texts: "show_nat (Suc 0) = ''1''" "show_nat 2 = ''2''" by code_simp+
  have sample: "fetch_signal_sample demo_cli ''m'' ''s'' 4 =
    Some (Inr (1, 2, \<lparr>sv_id = 0, sv_name = ''s'', sv_type = TU32, sv_value = VU32 5, sv_units = None\<rparr>), 5)"
    by (simp add: fetch_signal_sample_def send_action_def c_bind_def c_call_def send_request_def session_prepare_def
        ensure_running_def a_bind_def make_dir_def guard_err_def name map_err_def tiny_host_def demo_cli_def
        send_to_endpoint_def send_loop.simps send_once_def timed_def sample_wire_def check_success_def response_ok_def c_prims)
  have sig: "as_signal demo_assert = ''s''" by (simp add: demo_assert_def)
  have ok: "evaluate_assertion ''s'' (VU32 5) demo_assert = Inr ()" by code_simp
  have "execute_recipe_ops demo_cli ''m'' [OpAssert None demo_assert] False 4 =
    Some (Inr [\<lparr>st_kind = KAssert, st_instance = Some ''m'', st_detail = ''s @ tick=1 time_us=2''\<rparr>], 5)"
    using sample ok by (simp add: execute_recipe_ops_def c_bind_def demo_envs execute_op_def run_assert_def c_prims recipe_step_result_def
        texts sig resolve_instance_def Let_def)
  from recipe_assertions_held[OF this, of None demo_assert] show ?thesis by (simp add: demo_assert_def)
qed

end
