(* ===== verification/Cli_Properties.thy ===== *)
theory Cli_Properties
  imports Recipe_Properties
begin

text \<open>
  What commands do: the environment a configuration describes is the one that is started, a recipe is
  checked before anything is sent, and closing an environment returns, with the environment down when
  it says so.
\<close>

section \<open>Members and specs\<close>

definition member_text :: "string \<Rightarrow> string \<Rightarrow> string \<Rightarrow> string \<Rightarrow> bool" where
  \<comment> \<open>The text names the instance, and the bus or channel, or leaves it to be the surrounding one.\<close>
  "member_text surrounding text inst bus \<longleftrightarrow>
     is_ok (validate_instance_name inst) \<and> bus \<noteq> [] \<and>
     (text = inst @ CHR '':'' # bus \<and> CHR '':'' \<notin> set inst \<or> text = inst \<and> bus = surrounding \<and> CHR '':'' \<notin> set inst)"

lemma parse_member:
  assumes "parse_env_member text dflt = Inr (inst, bus)" "dflt \<noteq> []"
  shows "member_text dflt text inst bus"
proof (cases "split_once CHR '':'' text")
  case None
  then have "CHR '':'' \<notin> set text" by (simp add: split_once_None)
  then show ?thesis using assms
    by (auto simp: parse_env_member_def None member_text_def res_simps split: if_splits)
next
  case (Some p)
  then obtain a b where p: "split_once CHR '':'' text = Some (a, b)" by (cases p) auto
  then have "text = a @ CHR '':'' # b" "CHR '':'' \<notin> set a" by (simp_all add: split_once_Some)
  then show ?thesis using assms p
    by (auto simp: parse_env_member_def member_text_def res_simps split: if_splits)
qed

definition bus_as_defined :: "string \<times> env_can_bus_def \<Rightarrow> env_can_bus_spec \<Rightarrow> bool" where
  "bus_as_defined entry spec \<longleftrightarrow>
     xb_name spec = fst entry \<and> xb_iface spec = cd_vcan (snd entry) \<and>
     (xb_dbc_path spec = None \<longleftrightarrow> cd_dbc (snd entry) = None) \<and>
     list_all2 (\<lambda>t m. member_text (fst entry) t (cm_instance m) (cm_bus m)) (cd_members (snd entry)) (xb_members spec)"

definition channel_as_defined :: "string \<times> env_shared_channel_def \<Rightarrow> env_shared_spec \<Rightarrow> bool" where
  "channel_as_defined entry spec \<longleftrightarrow>
     xs_name spec = fst entry \<and> xs_writer spec = sd_writer (snd entry) \<and>
     list_all2 (\<lambda>t m. member_text (fst entry) t (sm_instance m) (sm_channel m)) (sd_members (snd entry)) (xs_members spec)"

lemma members_as_defined:
  assumes "map_res (\<lambda>m. res_bind (parse_env_member m dflt) (\<lambda>(i, b). Inr (mk i b))) ts = (Inr ms :: ('e, 'm list) cli_res)" "dflt \<noteq> []"
    and "\<And>i b. inst (mk i b) = i" "\<And>i b. bus (mk i b) = b"
  shows "list_all2 (\<lambda>t m. member_text dflt t (inst m) (bus m)) ts ms"
  using assms(1) unfolding map_res_Inr
proof (rule list_all2_mono)
  fix t m assume "res_bind (parse_env_member t dflt) (\<lambda>(i, b). Inr (mk i b)) = (Inr m :: ('e, 'm) cli_res)"
  then obtain p where "(parse_env_member t dflt :: ('e, string \<times> string) cli_res) = Inr p" "(case p of (i, b) \<Rightarrow> Inr (mk i b)) = (Inr m :: ('e, 'm) cli_res)"
    unfolding res_bind_Inr by blast
  then obtain i b where "(parse_env_member t dflt :: ('e, string \<times> string) cli_res) = Inr (i, b)" "m = mk i b" by (cases p) auto
  then show "member_text dflt t (inst m) (bus m)" using parse_member[of t dflt i b] assms(2-4) by simp
qed

lemma bus_spec_as_defined: "env_bus_spec h dir entry = Inr spec \<Longrightarrow> fst entry \<noteq> [] \<Longrightarrow> bus_as_defined entry spec"
  by (cases entry)
    (auto simp: env_bus_spec_def bus_as_defined_def res_bind_Inr option_res_def split: option.splits
      intro: members_as_defined[where mk = "\<lambda>i b. \<lparr>cm_instance = i, cm_bus = b\<rparr>"])

lemma channel_spec_as_defined: "env_channel_spec entry = Inr spec \<Longrightarrow> fst entry \<noteq> [] \<Longrightarrow> channel_as_defined entry spec"
  by (cases entry)
    (auto simp: env_channel_spec_def channel_as_defined_def res_bind_Inr
      intro: members_as_defined[where mk = "\<lambda>i b. \<lparr>sm_instance = i, sm_channel = b\<rparr>"])

section \<open>Waiting for an environment to end\<close>

definition env_clocked :: "('w, 'e) cli_sys \<Rightarrow> ('w \<Rightarrow> nat) \<Rightarrow> bool" where
  \<comment> \<open>A clock that sleeping moves on and listing does not turn back.\<close>
  "env_clocked k clock \<longleftrightarrow>
     (\<forall>w. h_now (ck_host k) w = (clock w, w)) \<and> (\<forall>d w. clock w + d \<le> clock (h_sleep (ck_host k) d w)) \<and>
     (\<forall>w. clock w \<le> clock (snd (list_instances (ck_host k) w)))"

definition env_down :: "('w, 'e) cli_sys \<Rightarrow> string \<Rightarrow> 'w \<Rightarrow> bool" where
  \<comment> \<open>The socket is gone and the last listing showed no running member.\<close>
  "env_down k env w \<longleftrightarrow> \<not> h_exists (ck_host k) (env_socket_path (ck_host k) env) w \<and>
     (\<exists>v rows. list_instances (ck_host k) v = (Inr rows, w) \<and> (\<forall>r \<in> set rows. rt_running r \<longrightarrow> rt_env r \<noteq> Some env))"

lemma running_instances_eval:
  "running_instances k w = (case list_instances (ck_host k) w of
     (Inl e, w1) \<Rightarrow> Some (Inl (failed (FailedLifecycle e)), w1)
   | (Inr rows, w1) \<Rightarrow> Some (Inr (filter rt_running rows), w1))"
  by (auto simp: running_instances_def c_bind_def c_act_def c_prims map_err_def split: prod.split sum.split)

lemma wait_env_down_returns:
  assumes c: "env_clocked k clock"
  shows "\<exists>r u. wait_env_down k env deadline w = Some (r, u) \<and> (r = Inr () \<longrightarrow> env_down k env u)"
proof (induction "deadline - clock w" arbitrary: w rule: less_induct)
  case less
  obtain r1 w1 where l: "list_instances (ck_host k) w = (r1, w1)" by fastforce
  show ?case
  proof (cases r1)
    case (Inl e)
    then show ?thesis using l by (subst wait_env_down.simps) (simp add: running_instances_eval)
  next
    case (Inr rows)
    then have run: "running_instances k w = Some (Inr (filter rt_running rows), w1)" using l by (simp add: running_instances_eval)
    let ?up = "h_exists (ck_host k) (env_socket_path (ck_host k) env) w1 \<or> list_ex (\<lambda>r. rt_env r = Some env) (filter rt_running rows)"
    have now: "h_now (ck_host k) w1 = (clock w1, w1)" using c by (simp add: env_clocked_def)
    show ?thesis
    proof (cases "?up \<and> \<not> deadline \<le> clock w1")
      case False
      have "env_down k env w1" if "\<not> ?up"
        using that l Inr by (auto simp: env_down_def list_ex_iff)
      then show ?thesis using False run now by (subst wait_env_down.simps) auto
    next
      case True
      let ?w2 = "h_sleep (ck_host k) 100 w1"
      have "clock w \<le> clock w1" using c l unfolding env_clocked_def by (metis snd_conv)
      moreover have "clock w1 + 100 \<le> clock ?w2" using c by (simp add: env_clocked_def)
      ultimately have "deadline - clock ?w2 < deadline - clock w" using True by linarith
      from less[OF this] True run now show ?thesis by (subst wait_env_down.simps) auto
    qed
  qed
qed

section \<open>Properties\<close>

text \<open>
  C23: the spec an environment is started from describes the environment of the configuration: its
  instances in order, with valid names and tagged with the environment's name; its buses and channels
  with their interfaces and writers; and every member text as the instance it names, on the bus or
  channel it names or else on the one it stands under.
\<close>

theorem env_spec_as_configured:
  assumes "build_env_spec h name def devices dir = (Inr spec :: ('e, env_spec) cli_res)"
    and "[] \<notin> fst ` set (ed_can def)" "[] \<notin> fst ` set (ed_shared def)"
  shows "sp_name spec = name \<and> is_ok (validate_env_name name) \<and>
    list_all2 (\<lambda>i s. is_name s = ei_name i \<and> is_ok (validate_instance_name (ei_name i)) \<and>
      resolve_env_member_load_spec h i devices dir (Some name) = Inr (is_load_spec s)) (ed_instances def) (sp_instances spec) \<and>
    list_all2 bus_as_defined (ed_can def) (sp_can_buses spec) \<and>
    list_all2 channel_as_defined (ed_shared def) (sp_shared spec)"
proof -
  obtain specs buses channels us u where name: "validate_env_name name = Inr u"
    and names: "list_all2 (\<lambda>i u. validate_instance_name (ei_name i) = Inr u) (ed_instances def) us"
    and specs: "list_all2 (\<lambda>m p. res_bind (resolve_env_member_load_spec h m devices dir (Some name)) (\<lambda>s. Inr (ei_name m, s)) = Inr p)
      (ed_instances def) specs"
    and buses: "list_all2 (\<lambda>e b. env_bus_spec h dir e = (Inr b :: ('e, env_can_bus_spec) cli_res)) (ed_can def) buses"
    and channels: "list_all2 (\<lambda>e b. env_channel_spec e = (Inr b :: ('e, env_shared_spec) cli_res)) (ed_shared def) channels"
    and spec: "\<lparr>sp_name = name, sp_instances = map (\<lambda>(n, l). \<lparr>is_name = n, is_load_spec = l\<rparr>) specs,
       sp_can_buses = buses, sp_shared = channels\<rparr> = spec"
    using assms(1)
    unfolding build_env_spec_def res_bind_Inr map_err_Inr resolve_env_load_specs_def map_res_Inr sum.inject by blast
  have valid: "is_ok (validate_instance_name (ei_name i))" if "i \<in> set (ed_instances def)" for i
    using names that by (fastforce simp: list_all2_conv_all_nth in_set_conv_nth)
  have insts: "list_all2 (\<lambda>i s. is_name s = ei_name i \<and> is_ok (validate_instance_name (ei_name i)) \<and>
      resolve_env_member_load_spec h i devices dir (Some name) = Inr (is_load_spec s)) (ed_instances def) (sp_instances spec)"
    using specs valid by (auto simp: spec[symmetric] list_all2_conv_all_nth res_bind_Inr split: prod.split)
  have "list_all2 bus_as_defined (ed_can def) buses"
    using buses assms(2) by (auto simp: list_all2_conv_all_nth intro!: bus_spec_as_defined) (metis image_eqI nth_mem)
  moreover have "list_all2 channel_as_defined (ed_shared def) channels"
    using channels assms(3) by (auto simp: list_all2_conv_all_nth intro!: channel_spec_as_defined) (metis image_eqI nth_mem)
  ultimately show ?thesis using name insts by (simp add: spec[symmetric])
qed

definition lab_def :: env_def where
  "lab_def = \<lparr>ed_instances = [\<lparr>ei_name = ''a'', ei_lib = Some ''/w/a.so'', ei_device = None\<rparr>],
     ed_can = [(''can0'', \<lparr>cd_members = [''a'', ''a:body''], cd_vcan = ''vcan0'', cd_dbc = None\<rparr>)], ed_shared = []\<rparr>"

theorem env_spec_as_configured_witness:
  "\<exists>spec. build_env_spec demo_paths ''lab'' lab_def [] None = (Inr spec :: (unit, env_spec) cli_res) \<and>
     sp_name spec = ''lab'' \<and> list_all2 bus_as_defined (ed_can lab_def) (sp_can_buses spec)"
proof -
  have "is_ok (build_env_spec demo_paths ''lab'' lab_def [] None :: (unit, env_spec) cli_res)" by code_simp
  then obtain spec where s: "build_env_spec demo_paths ''lab'' lab_def [] None = (Inr spec :: (unit, env_spec) cli_res)"
    by (auto simp: is_ok_def split: sum.splits)
  from env_spec_as_configured[OF s] s show ?thesis by (auto simp: lab_def_def)
qed

text \<open>
  C38: a recipe is checked as a whole before any of it is carried out: when a step of it, in whatever
  loop, cannot be compiled, no request is sent (the outcome does not depend on the connection to the
  daemons), and the command fails.
\<close>

theorem recipe_checked_first:
  assumes "load_config (ck_config k w) (ca_config args) = Inr config"
    and "config_recipe config (ra_recipe_name run) = Inr recipe"
    and "compile_recipe_steps (rc_steps recipe) None = Inl e"
  shows "run_recipe_command k args run w = run_recipe_command (k\<lparr>ck_wire := other\<rparr>) args run w \<and>
    (\<exists>err u. run_recipe_command k args run w = Some (Inl err, u))"
proof -
  have same: "validate_recipe_preconditions (k\<lparr>ck_wire := other\<rparr>) recipe d = validate_recipe_preconditions k recipe d" for d
    by (simp add: validate_recipe_preconditions_def running_instances_def)
  let ?d = "case rc_instance recipe of Some i \<Rightarrow> i | None \<Rightarrow> ca_instance args"
  have run: "run_recipe_command k' args run w =
      c_bind (validate_recipe_preconditions k' recipe ?d) (\<lambda>_. c_lift (Inl (failed (FailedCompile e)))) w"
    if "ck_config k' = ck_config k" for k'
  proof -
    have "read_config k' args w = Some (Inr config, w)"
      using that assms(1) by (simp add: read_config_def c_prims)
    then show ?thesis using assms(2,3) by (simp add: run_recipe_command_def c_bind_eval(3) Let_def)
  qed
  obtain r u where "running_instances k w = Some (r, u)"
    by (cases "list_instances (ck_host k) w"; cases "fst (list_instances (ck_host k) w)") (auto simp: running_instances_eval)
  then obtain r' where "validate_recipe_preconditions k recipe ?d w = Some (r', u)"
    by (cases r) (auto simp: validate_recipe_preconditions_def c_bind_def c_prims Let_def)
  then have "\<exists>err u. c_bind (validate_recipe_preconditions k recipe ?d)
      (\<lambda>_. c_lift (Inl (failed (FailedCompile e)))) w = Some (Inl err, u)"
    by (cases r') (auto simp: c_bind_def c_prims)
  then show ?thesis using run[of k] run[of "k\<lparr>ck_wire := other\<rparr>"] same by simp
qed

definition recipe_file :: file_config where
  "recipe_file = \<lparr>fc_defaults = None, fc_device = [],
     fc_recipe = [(''r'', \<lparr>rc_description = None, rc_env = [], rc_instances = [], rc_instance = None,
       rc_steps = [RecReset None, RecFor (ForSpec ''s'' (Fin 0) (Fin 1) (Fin 0) []) None]\<rparr>)], fc_env = []\<rparr>"

definition recipe_cli :: "(nat, unit) cli_sys" where
  "recipe_cli = demo_cli\<lparr>ck_config := (\<lambda>_. \<lparr>ch_env_var = None, ch_local_path = Some ''/w/agent-sim.toml'',
     ch_exists = (\<lambda>_. True), ch_read = (\<lambda>_. Some []), ch_parse = (\<lambda>_. Some recipe_file)\<rparr>)\<rparr>"

theorem recipe_checked_first_witness:
  "\<exists>err u. run_recipe_command recipe_cli \<lparr>ca_json = False, ca_instance = ''m'', ca_config = None, ca_command = None\<rparr>
     \<lparr>ra_recipe_name = ''r'', ra_dry_run = False\<rparr> 3 = Some (Inl err, u)"
proof -
  let ?args = "\<lparr>ca_json = False, ca_instance = ''m'', ca_config = None, ca_command = None\<rparr>"
  let ?run = "\<lparr>ra_recipe_name = ''r'', ra_dry_run = False\<rparr>"
  have c: "load_config (ck_config recipe_cli 3) (ca_config ?args) =
      Inr \<lparr>ac_file = recipe_file, ac_source_path = Some ''/w/agent-sim.toml''\<rparr>"
    by (simp add: recipe_cli_def load_config_def load_single_def)
  have r: "config_recipe \<lparr>ac_file = recipe_file, ac_source_path = Some ''/w/agent-sim.toml''\<rparr> (ra_recipe_name ?run) =
      Inr (the (bt_get (fc_recipe recipe_file) ''r''))"
    by (simp add: config_recipe_def recipe_file_def)
  have "compile_recipe_steps (rc_steps (the (bt_get (fc_recipe recipe_file) ''r''))) None = Inl ForByZero"
    by (simp add: recipe_file_def for_steps_def feq_def is_inf_def fval_def)
  from recipe_checked_first[OF c r this] show ?thesis by blast
qed

text \<open>
  C39: closing an environment returns, at the latest when its five seconds are over, on a clock that
  sleeping moves on; and when it reports success the environment's socket is gone and the last
  listing of the running instances showed none of its members.
\<close>

theorem close_env_returns:
  assumes "env_clocked k clock"
  shows "\<exists>r u. close_env_and_wait k env w = Some (r, u) \<and> (r = Inr () \<longrightarrow> env_down k env u)"
proof -
  obtain i w1 where 1: "ck_uuid k w = (i, w1)" by fastforce
  obtain r2 w2 where 2: "send_env k env (EClose env) w = Some (r2, w2)"
    by (cases "send_env_request (ck_host k) (ck_wire k) env \<lparr>rq_id = i, rq_action = REnv (EClose env)\<rparr> w1")
      (auto simp: send_env_def 1 c_act_def)
  show ?thesis
  proof (cases "\<exists>rsp. r2 = Inr rsp \<and> rp_success rsp")
    case False
    then show ?thesis using 2
      by (cases r2) (auto simp: close_env_and_wait_def c_bind_def check_success_def c_prims)
  next
    case True
    obtain t w3 where 3: "h_now (ck_host k) w2 = (t, w3)" by fastforce
    have "close_env_and_wait k env w = wait_env_down k env (t + 5000) w3"
      using True 2 3 by (auto simp: close_env_and_wait_def c_bind_def check_success_def c_prims)
    then show ?thesis using wait_env_down_returns[OF assms] by metis
  qed
qed

theorem close_env_returns_witness:
  "\<exists>r u. close_env_and_wait (demo_cli\<lparr>ck_host := held_host\<rparr>) ''lab'' 4 = Some (r, u) \<and>
     (r = Inr () \<longrightarrow> env_down (demo_cli\<lparr>ck_host := held_host\<rparr>) ''lab'' u)"
proof (rule close_env_returns[where clock = "\<lambda>n. n"])
  show "env_clocked (demo_cli\<lparr>ck_host := held_host\<rparr>) (\<lambda>n. n)"
    by (simp add: env_clocked_def held_host_def tiny_host_def list_instances_def scan_dir_def a_bind_def make_dir_def
        guard_err_def a_ret_def)
qed

end
