(* ===== verification/Can_Backends.thy ===== *)
theory Can_Backends
  imports Can
begin

text \<open>
  The platform sides of a CAN socket: opening and closing a SocketCAN descriptor
  (\<open>can/backend/socketcan.rs\<close>), the PEAK driver of Windows (\<open>can/backend/peak.rs\<close>) and the backend of
  other platforms (\<open>can/backend/mod.rs\<close>). The kernel's calls and the vendor's library are parameters:
  a record of system calls on a world of any type, and a record with the library's constants and the
  statuses its calls give.
\<close>

unbundle bit_operations_syntax

section \<open>Opening a SocketCAN descriptor\<close>

datatype can_option = RecvOwnMsgs | FdFrames

record 'w can_kernel =
  ck_socket :: "'w \<Rightarrow> int \<times> 'w"  \<comment> \<open>a descriptor, negative on failure\<close>
  ck_ifindex :: "string \<Rightarrow> 'w \<Rightarrow> u32 \<times> 'w"  \<comment> \<open>\<open>if_nametoindex\<close>, 0 when there is none\<close>
  ck_setsockopt :: "int \<Rightarrow> can_option \<Rightarrow> int \<Rightarrow> 'w \<Rightarrow> int \<times> 'w"
  ck_bind :: "int \<Rightarrow> u32 \<Rightarrow> 'w \<Rightarrow> int \<times> 'w"
  ck_close :: "int \<Rightarrow> 'w \<Rightarrow> 'w"
  ck_errno :: "'w \<Rightarrow> int"  \<comment> \<open>\<open>last_os_error\<close>\<close>

datatype open_error =
  InvalidInterfaceName string
| SocketNotOpened int
| UnknownInterface string int
| LoopbackNotDisabled string int
| FdModeNotEnabled string int
| NotBound string int

record platform_socket =
  ps_iface :: string
  ps_fd :: int

definition close_and_fail ::
    "'w can_kernel \<Rightarrow> int \<Rightarrow> (int \<Rightarrow> open_error) \<Rightarrow> ('w, open_error, 'a) act" where
  \<comment> \<open>The error number is read after the descriptor is closed.\<close>
  "close_and_fail k fd err w = (let w1 = ck_close k fd w in (Inl (err (ck_errno k w1)), w1))"

definition set_option ::
    "'w can_kernel \<Rightarrow> int \<Rightarrow> can_option \<Rightarrow> int \<Rightarrow> (int \<Rightarrow> open_error) \<Rightarrow> ('w, open_error, unit) act" where
  "set_option k fd opt v err w = (case ck_setsockopt k fd opt v w of (r, w1) \<Rightarrow>
     if r < 0 then close_and_fail k fd err w1 else (Inr (), w1))"

definition bind_socket :: "'w can_kernel \<Rightarrow> string \<Rightarrow> int \<Rightarrow> u32 \<Rightarrow> ('w, open_error, platform_socket) act" where
  "bind_socket k iface fd idx w = (case ck_bind k fd idx w of (r, w1) \<Rightarrow>
     if r < 0 then close_and_fail k fd (NotBound iface) w1
     else (Inr \<lparr>ps_iface = iface, ps_fd = fd\<rparr>, w1))"

definition socketcan_open :: "'w can_kernel \<Rightarrow> string \<Rightarrow> bool \<Rightarrow> ('w, open_error, platform_socket) act" where
  "socketcan_open k iface fd_ok w =
     (if CHR 0x00 \<in> set iface then (Inl (InvalidInterfaceName iface), w)
      else case ck_socket k w of (fd, w1) \<Rightarrow>
        if fd < 0 then (Inl (SocketNotOpened (ck_errno k w1)), w1)
        else case ck_ifindex k iface w1 of (idx, w2) \<Rightarrow>
          if idx = 0 then close_and_fail k fd (UnknownInterface iface) w2
          else a_bind (set_option k fd RecvOwnMsgs 0 (LoopbackNotDisabled iface)) (\<lambda>_.
               a_bind (if fd_ok then set_option k fd FdFrames 1 (FdModeNotEnabled iface) else a_ret ()) (\<lambda>_.
               bind_socket k iface fd idx)) w2)"

definition socketcan_drop :: "'w can_kernel \<Rightarrow> platform_socket \<Rightarrow> 'w \<Rightarrow> 'w" where
  "socketcan_drop k s = ck_close k (ps_fd s)"

text \<open>
  What the manual pages say of the calls: \<open>socket\<close> gives a descriptor that was not open, with the
  defaults of a CAN socket (it does receive its own messages back only when asked, and takes no FD
  frames); a call that fails changes no descriptor, and \<open>close\<close> frees the one it is given.
\<close>

record can_descriptor =
  cd_options :: "can_option \<Rightarrow> int"
  cd_bound :: "u32 option"

definition fresh_descriptor :: can_descriptor where
  "fresh_descriptor = \<lparr>cd_options = (\<lambda>_. 0), cd_bound = None\<rparr>"

definition can_kernel_laws :: "'w can_kernel \<Rightarrow> ('w \<Rightarrow> int \<Rightarrow> can_descriptor option) \<Rightarrow> bool" where
  "can_kernel_laws k fds \<longleftrightarrow>
     (\<forall>w fd w1. ck_socket k w = (fd, w1) \<longrightarrow>
        (if fd < 0 then fds w1 = fds w
         else fds w fd = None \<and> fds w1 = (fds w)(fd \<mapsto> fresh_descriptor))) \<and>
     (\<forall>i w idx w1. ck_ifindex k i w = (idx, w1) \<longrightarrow> fds w1 = fds w) \<and>
     (\<forall>fd opt v w r w1 d. ck_setsockopt k fd opt v w = (r, w1) \<and> fds w fd = Some d \<longrightarrow>
        fds w1 = (if r < 0 then fds w
                  else (fds w)(fd \<mapsto> d\<lparr>cd_options := (cd_options d)(opt := v)\<rparr>))) \<and>
     (\<forall>fd idx w r w1 d. ck_bind k fd idx w = (r, w1) \<and> fds w fd = Some d \<longrightarrow>
        fds w1 = (if r < 0 then fds w else (fds w)(fd \<mapsto> d\<lparr>cd_bound := Some idx\<rparr>))) \<and>
     (\<forall>fd w. fds (ck_close k fd w) = (fds w)(fd := None))"

lemma kernel_socket:
  "can_kernel_laws k fds \<Longrightarrow> ck_socket k w = (fd, w1) \<Longrightarrow>
     if fd < 0 then fds w1 = fds w else fds w fd = None \<and> fds w1 = (fds w)(fd \<mapsto> fresh_descriptor)"
  unfolding can_kernel_laws_def by (elim conjE) (drule spec, drule spec, drule spec, erule mp)

lemma kernel_ifindex: "can_kernel_laws k fds \<Longrightarrow> ck_ifindex k i w = (idx, w1) \<Longrightarrow> fds w1 = fds w"
  unfolding can_kernel_laws_def by blast

lemma kernel_setsockopt:
  "can_kernel_laws k fds \<Longrightarrow> ck_setsockopt k fd opt v w = (r, w1) \<Longrightarrow> fds w fd = Some d \<Longrightarrow>
     fds w1 = (if r < 0 then fds w else (fds w)(fd \<mapsto> d\<lparr>cd_options := (cd_options d)(opt := v)\<rparr>))"
  unfolding can_kernel_laws_def by blast

lemma kernel_bind:
  "can_kernel_laws k fds \<Longrightarrow> ck_bind k fd idx w = (r, w1) \<Longrightarrow> fds w fd = Some d \<Longrightarrow>
     fds w1 = (if r < 0 then fds w else (fds w)(fd \<mapsto> d\<lparr>cd_bound := Some idx\<rparr>))"
  unfolding can_kernel_laws_def by blast

lemma kernel_close: "can_kernel_laws k fds \<Longrightarrow> fds (ck_close k fd w) = (fds w)(fd := None)"
  unfolding can_kernel_laws_def by blast

text \<open>
  Each later step works on the descriptor that is open on top of the descriptors \<open>old\<close>: it keeps it
  open, changed, or it fails with only \<open>old\<close> left.
\<close>

definition holds_fd ::
    "('w \<Rightarrow> int \<Rightarrow> can_descriptor option) \<Rightarrow> (int \<Rightarrow> can_descriptor option) \<Rightarrow> int \<Rightarrow> can_descriptor \<Rightarrow> 'w \<Rightarrow> bool" where
  "holds_fd fds old fd d w \<longleftrightarrow> old fd = None \<and> fds w = old(fd \<mapsto> d)"

lemma close_and_fail_fds:
  assumes "can_kernel_laws k fds" "holds_fd fds old fd d w" "close_and_fail k fd err w = (r, u)"
  shows "fds u = old" "\<exists>e. r = Inl e"
  using assms kernel_close[OF assms(1), of fd w]
  by (auto simp: close_and_fail_def Let_def holds_fd_def fun_eq_iff)

lemma set_option_fds:
  assumes laws: "can_kernel_laws k fds" and hold: "holds_fd fds old fd d w"
    and run: "set_option k fd opt v err w = (r, u)"
  shows "case r of Inl _ \<Rightarrow> fds u = old
     | Inr _ \<Rightarrow> holds_fd fds old fd (d\<lparr>cd_options := (cd_options d)(opt := v)\<rparr>) u"
proof -
  obtain s w1 where call: "ck_setsockopt k fd opt v w = (s, w1)" by fastforce
  have d: "fds w fd = Some d" using hold by (simp add: holds_fd_def)
  note eff = kernel_setsockopt[OF laws call d]
  show ?thesis
  proof (cases "s < 0")
    case True
    then have "holds_fd fds old fd d w1" using eff hold by (simp add: holds_fd_def)
    then show ?thesis
      using run call True close_and_fail_fds[OF laws, of old fd d w1 err r u]
      by (auto simp: set_option_def)
  next
    case False
    then show ?thesis using run call eff hold by (auto simp: set_option_def holds_fd_def)
  qed
qed

lemma bind_socket_fds:
  assumes laws: "can_kernel_laws k fds" and hold: "holds_fd fds old fd d w"
    and run: "bind_socket k iface fd idx w = (r, u)"
  shows "case r of Inl _ \<Rightarrow> fds u = old
     | Inr s \<Rightarrow> s = \<lparr>ps_iface = iface, ps_fd = fd\<rparr> \<and> holds_fd fds old fd (d\<lparr>cd_bound := Some idx\<rparr>) u"
proof -
  obtain s w1 where call: "ck_bind k fd idx w = (s, w1)" by fastforce
  have d: "fds w fd = Some d" using hold by (simp add: holds_fd_def)
  note eff = kernel_bind[OF laws call d]
  show ?thesis
  proof (cases "s < 0")
    case True
    then have "holds_fd fds old fd d w1" using eff hold by (simp add: holds_fd_def)
    then show ?thesis
      using run call True close_and_fail_fds[OF laws, of old fd d w1 "NotBound iface" r u]
      by (auto simp: bind_socket_def)
  next
    case False
    then show ?thesis using run call eff hold by (auto simp: bind_socket_def holds_fd_def)
  qed
qed

definition opened_descriptor :: "bool \<Rightarrow> u32 \<Rightarrow> can_descriptor" where
  "opened_descriptor fd_ok idx =
     \<lparr>cd_options = (\<lambda>opt. case opt of RecvOwnMsgs \<Rightarrow> 0 | FdFrames \<Rightarrow> if fd_ok then 1 else 0),
      cd_bound = Some idx\<rparr>"

lemma configure_fds:
  assumes laws: "can_kernel_laws k fds" and hold: "holds_fd fds old fd fresh_descriptor w"
    and run: "a_bind (set_option k fd RecvOwnMsgs 0 e1) (\<lambda>_.
       a_bind (if fd_ok then set_option k fd FdFrames 1 e2 else a_ret ()) (\<lambda>_.
       bind_socket k iface fd idx)) w = (r, u)"
  shows "case r of Inl _ \<Rightarrow> fds u = old
     | Inr s \<Rightarrow> s = \<lparr>ps_iface = iface, ps_fd = fd\<rparr> \<and> holds_fd fds old fd (opened_descriptor fd_ok idx) u"
proof -
  obtain r1 w1 where s1: "set_option k fd RecvOwnMsgs 0 e1 w = (r1, w1)" by fastforce
  note f1 = set_option_fds[OF laws hold s1]
  show ?thesis
  proof (cases r1)
    case (Inl e)
    then show ?thesis using run s1 f1 by (auto simp: a_bind_def)
  next
    case r1: (Inr x)
    define d where "d = fresh_descriptor\<lparr>cd_options := (cd_options fresh_descriptor)(RecvOwnMsgs := 0)\<rparr>"
    have h1: "holds_fd fds old fd d w1" using f1 r1 by (simp add: d_def)
    obtain r2 w2 where s2: "(if fd_ok then set_option k fd FdFrames 1 e2 else a_ret ()) w1 = (r2, w2)" by fastforce
    define d2 where "d2 = (if fd_ok then d\<lparr>cd_options := (cd_options d)(FdFrames := 1)\<rparr> else d)"
    have f2: "case r2 of Inl _ \<Rightarrow> fds w2 = old | Inr _ \<Rightarrow> holds_fd fds old fd d2 w2"
      using set_option_fds[OF laws h1, of FdFrames 1 e2 r2 w2] s2 h1 unfolding d2_def by (cases fd_ok) auto
    have eq: "d2\<lparr>cd_bound := Some idx\<rparr> = opened_descriptor fd_ok idx"
      by (auto simp: d2_def d_def opened_descriptor_def fresh_descriptor_def fun_eq_iff split: can_option.split)
    show ?thesis
    proof (cases r2)
      case (Inl e)
      then show ?thesis using run s1 s2 r1 f2 by (auto simp: a_bind_def)
    next
      case (Inr y)
      then have "bind_socket k iface fd idx w2 = (r, u)" using run s1 s2 r1 by (auto simp: a_bind_def)
      then show ?thesis using bind_socket_fds[OF laws, of old fd d2 w2 iface idx r u] f2 Inr unfolding eq by simp
    qed
  qed
qed

text \<open>
  C18: opening a socket loses no descriptor. When \<open>open\<close> succeeds, exactly one new descriptor is open,
  bound to the interface's index, without own messages and taking FD frames exactly on a bus that
  asks for them; when it fails, at whichever of its calls, the same descriptors are open as before.
  Dropping the socket gives back the one it had.
\<close>

theorem socketcan_open_leaks_nothing:
  assumes laws: "can_kernel_laws k fds" and run: "socketcan_open k iface fd_ok w = (r, u)"
  shows "(\<forall>e. r = Inl e \<longrightarrow> fds u = fds w) \<and>
    (\<forall>s. r = Inr s \<longrightarrow> ps_iface s = iface \<and> fds w (ps_fd s) = None \<and>
       (\<exists>idx. idx \<noteq> 0 \<and> fds u = (fds w)(ps_fd s \<mapsto> opened_descriptor fd_ok idx)) \<and>
       fds (socketcan_drop k s u) = fds w)"
proof (cases "CHR 0x00 \<in> set iface")
  case True
  then show ?thesis using run by (auto simp: socketcan_open_def)
next
  case nul: False
  obtain fd w1 where s: "ck_socket k w = (fd, w1)" by fastforce
  note sock = kernel_socket[OF laws s]
  show ?thesis
  proof (cases "fd < 0")
    case True
    then show ?thesis using run nul s sock by (auto simp: socketcan_open_def)
  next
    case fd: False
    obtain idx w2 where i: "ck_ifindex k iface w1 = (idx, w2)" by fastforce
    have hold: "holds_fd fds (fds w) fd fresh_descriptor w2"
      using sock fd kernel_ifindex[OF laws i] by (simp add: holds_fd_def)
    show ?thesis
    proof (cases "idx = 0")
      case True
      then have "close_and_fail k fd (UnknownInterface iface) w2 = (r, u)"
        using run nul s fd i by (simp add: socketcan_open_def)
      then show ?thesis using close_and_fail_fds[OF laws hold, of "UnknownInterface iface" r u] by auto
    next
      case False
      then have "case r of Inl _ \<Rightarrow> fds u = fds w
          | Inr s \<Rightarrow> s = \<lparr>ps_iface = iface, ps_fd = fd\<rparr> \<and> holds_fd fds (fds w) fd (opened_descriptor fd_ok idx) u"
        using run nul s fd i by (intro configure_fds[OF laws hold]) (simp add: socketcan_open_def)
      then show ?thesis
        using False by (auto simp: holds_fd_def socketcan_drop_def kernel_close[OF laws] fun_eq_iff split: sum.splits)
    qed
  qed
qed

text \<open>A kernel with one CAN interface and one free descriptor.\<close>

definition small_kernel :: "(int \<Rightarrow> can_descriptor option) can_kernel" where
  "small_kernel = \<lparr>
     ck_socket = (\<lambda>w. if w 3 = None then (3, w(3 \<mapsto> fresh_descriptor)) else (- 1, w)),
     ck_ifindex = (\<lambda>i w. (if i = ''can0'' then 5 else 0, w)),
     ck_setsockopt = (\<lambda>fd opt v w. (0, w(fd := map_option (\<lambda>d. d\<lparr>cd_options := (cd_options d)(opt := v)\<rparr>) (w fd)))),
     ck_bind = (\<lambda>fd idx w. (0, w(fd := map_option (\<lambda>d. d\<lparr>cd_bound := Some idx\<rparr>) (w fd)))),
     ck_close = (\<lambda>fd w. w(fd := None)),
     ck_errno = (\<lambda>_. 24)\<rparr>"

lemma small_kernel_laws: "can_kernel_laws small_kernel (\<lambda>w. w)"
  by (auto simp: can_kernel_laws_def small_kernel_def split: if_splits)

theorem socketcan_open_leaks_nothing_witness:
  "\<exists>s u. socketcan_open small_kernel ''can0'' True Map.empty = (Inr s, u) \<and> ps_fd s = 3 \<and>
     socketcan_drop small_kernel s u = Map.empty"
proof -
  obtain s u where run: "socketcan_open small_kernel ''can0'' True Map.empty = (Inr s, u)" "ps_fd s = 3"
    by (simp add: socketcan_open_def small_kernel_def set_option_def bind_socket_def a_bind_def)
  then show ?thesis
    using socketcan_open_leaks_nothing[OF small_kernel_laws run(1)] by auto
qed

section \<open>The PEAK driver\<close>

text \<open>
  The library's constants are its own; \<open>WORD\<close>, \<open>DWORD\<close> and \<open>BYTE\<close> are 16, 32 and 8 bits wide.
\<close>

record peak_consts =
  pc_usb :: "nat \<Rightarrow> u32"  \<comment> \<open>\<open>PEAK_USBBUS1\<close> to \<open>PEAK_USBBUS16\<close>\<close>
  pc_pci :: "nat \<Rightarrow> u32"  \<comment> \<open>\<open>PEAK_PCIBUS1\<close> to \<open>PEAK_PCIBUS16\<close>\<close>
  pc_baud_125k :: u32
  pc_baud_250k :: u32
  pc_baud_500k :: u32
  pc_baud_800k :: u32
  pc_baud_1m :: u32
  pc_standard :: u32
  pc_extended :: u32
  pc_rtr :: u32
  pc_fd :: u32
  pc_brs :: u32
  pc_esi :: u32
  pc_ok :: u32
  pc_qrcvempty :: u32
  pc_qxmtfull :: u32
  pc_initialize :: u32
  pc_illoperation :: u32

record peak_msg =  \<comment> \<open>\<open>TPEAKMsg\<close>, with 8 data bytes\<close>
  pm_id :: u32
  pm_type :: u8
  pm_len :: u8
  pm_data :: "u8 list"

record peak_msg_fd =  \<comment> \<open>\<open>TPEAKMsgFD\<close>, with 64 data bytes\<close>
  pf_id :: u32
  pf_type :: u8
  pf_dlc :: u8
  pf_data :: "u8 list"

datatype peak_failure =
  PkLength peak_error
| PkUnsupportedChannel string
| PkInvalidHandle string
| PkUnsupportedBitrate u32
| PkInvalidBaudrate u32
| PkUnsupportedPair u32 u32
| PkLibraryNotLoaded string
| PkNotInitialized string string  \<comment> \<open>interface, what was done\<close>
| PkIllegalOperation string string
| PkStatus string string u32
| PkTransmitQueueFull string
| PkInvalidMessageType u32 u8

definition word_try_from :: "'e \<Rightarrow> u32 \<Rightarrow> 'e + u16" where
  \<comment> \<open>\<open>WORD::try_from\<close>\<close>
  "word_try_from e v = (if unat v < 2 ^ 16 then Inr (ucast v) else Inl e)"

definition channel_names :: "string \<Rightarrow> nat \<Rightarrow> string list" where
  "channel_names kind n = [kind @ show_nat n, ''peak_'' @ kind @ ''bus'' @ show_nat n]"

definition parse_channel :: "peak_consts \<Rightarrow> string \<Rightarrow> peak_failure + u16" where
  "parse_channel pc iface =
     (let normalized = to_ascii_lower (trim iface) in
      case find (\<lambda>n. normalized \<in> set (channel_names ''usb'' n)) [1..<17] of
        Some n \<Rightarrow> word_try_from (PkInvalidHandle iface) (pc_usb pc n)
      | None \<Rightarrow> (case find (\<lambda>n. normalized \<in> set (channel_names ''pci'' n)) [1..<17] of
          Some n \<Rightarrow> word_try_from (PkInvalidHandle iface) (pc_pci pc n)
        | None \<Rightarrow> Inl (PkUnsupportedChannel iface)))"

definition classic_baudrate_constant :: "peak_consts \<Rightarrow> u32 \<Rightarrow> peak_failure + u16" where
  "classic_baudrate_constant pc rate =
     res_bind (if rate = 125000 then Inr (pc_baud_125k pc)
               else if rate = 250000 then Inr (pc_baud_250k pc)
               else if rate = 500000 then Inr (pc_baud_500k pc)
               else if rate = 800000 then Inr (pc_baud_800k pc)
               else if rate = 1000000 then Inr (pc_baud_1m pc)
               else Inl (PkUnsupportedBitrate rate))
       (word_try_from (PkInvalidBaudrate rate))"

definition fd_bitrate_profile :: "u32 \<Rightarrow> u32 \<Rightarrow> peak_failure + string" where
  "fd_bitrate_profile rate data_rate =
     (if rate = 250000 \<and> data_rate = 2000000 then Inr
        ''f_clock=80000000,nom_brp=20,nom_tseg1=13,nom_tseg2=2,nom_sjw=1,data_brp=4,data_tseg1=7,data_tseg2=2,data_sjw=1''
      else if rate = 500000 \<and> data_rate = 2000000 then Inr
        ''f_clock=80000000,nom_brp=10,nom_tseg1=13,nom_tseg2=2,nom_sjw=1,data_brp=4,data_tseg1=7,data_tseg2=2,data_sjw=1''
      else if rate = 500000 \<and> data_rate = 4000000 then Inr
        ''f_clock=80000000,nom_brp=10,nom_tseg1=13,nom_tseg2=2,nom_sjw=1,data_brp=2,data_tseg1=7,data_tseg2=2,data_sjw=1''
      else if rate = 1000000 \<and> data_rate = 2000000 then Inr
        ''f_clock=80000000,nom_brp=5,nom_tseg1=13,nom_tseg2=2,nom_sjw=1,data_brp=4,data_tseg1=7,data_tseg2=2,data_sjw=1''
      else Inl (PkUnsupportedPair rate data_rate))"

definition status_message :: "peak_consts \<Rightarrow> string \<Rightarrow> string \<Rightarrow> u32 \<Rightarrow> peak_failure" where
  "status_message pc iface context status =
     (if status = pc_initialize pc then PkNotInitialized iface context
      else if status = pc_illoperation pc then PkIllegalOperation iface context
      else PkStatus iface context status)"

record 'w peak_library =
  pl_load :: "string \<Rightarrow> 'w \<Rightarrow> bool \<times> 'w"  \<comment> \<open>\<open>Pcan::new\<close>\<close>
  pl_initialize :: "u16 \<Rightarrow> u16 \<Rightarrow> 'w \<Rightarrow> u32 \<times> 'w"  \<comment> \<open>channel, bit rate constant\<close>
  pl_initialize_fd :: "u16 \<Rightarrow> string \<Rightarrow> 'w \<Rightarrow> u32 \<times> 'w"
  pl_read :: "u16 \<Rightarrow> 'w \<Rightarrow> (u32 \<times> peak_msg) \<times> 'w"  \<comment> \<open>status and message\<close>
  pl_read_fd :: "u16 \<Rightarrow> 'w \<Rightarrow> (u32 \<times> peak_msg_fd) \<times> 'w"
  pl_write :: "u16 \<Rightarrow> peak_msg \<Rightarrow> 'w \<Rightarrow> u32 \<times> 'w"
  pl_write_fd :: "u16 \<Rightarrow> peak_msg_fd \<Rightarrow> 'w \<Rightarrow> u32 \<times> 'w"
  pl_uninitialize :: "u16 \<Rightarrow> 'w \<Rightarrow> u32 \<times> 'w"

record peak_socket =
  pk_iface :: string
  pk_channel :: u16
  pk_fd_capable :: bool

definition load_pcan :: "'w peak_library \<Rightarrow> string \<Rightarrow> ('w, peak_failure, unit) act" where
  "load_pcan pl iface w = (case pl_load pl ''PCANBasic.dll'' w of
      (True, w1) \<Rightarrow> (Inr (), w1)
    | (False, w1) \<Rightarrow> (case pl_load pl ''PCANBasic'' w1 of (ok, w2) \<Rightarrow>
        (guard_err (\<not> ok) (PkLibraryNotLoaded iface), w2)))"

definition peak_open ::
    "peak_consts \<Rightarrow> 'w peak_library \<Rightarrow> string \<Rightarrow> u32 \<Rightarrow> u32 \<Rightarrow> bool \<Rightarrow> ('w, peak_failure, peak_socket) act" where
  "peak_open pc pl iface rate data_rate fd_ok =
     a_bind (a_lift (parse_channel pc iface)) (\<lambda>channel.
     a_bind (load_pcan pl iface) (\<lambda>_.
     a_bind (if fd_ok
             then a_bind (a_lift (fd_bitrate_profile rate data_rate)) (\<lambda>profile w.
                    case pl_initialize_fd pl channel profile w of (st, w1) \<Rightarrow> (Inr st, w1))
             else a_bind (a_lift (classic_baudrate_constant pc rate)) (\<lambda>baud w.
                    case pl_initialize pl channel baud w of (st, w1) \<Rightarrow> (Inr st, w1))) (\<lambda>status.
     if status \<noteq> pc_ok pc then a_fail (status_message pc iface ''initialize'' status)
     else a_ret \<lparr>pk_iface = iface, pk_channel = channel, pk_fd_capable = fd_ok\<rparr>)))"

definition peak_drop :: "'w peak_library \<Rightarrow> peak_socket \<Rightarrow> 'w \<Rightarrow> 'w" where
  "peak_drop pl s w = snd (pl_uninitialize pl (pk_channel s) w)"

definition decode_message_type :: "peak_consts \<Rightarrow> u8 \<Rightarrow> u8" where
  "decode_message_type pc msgtype =
     (let raw = ucast msgtype :: u32 in
      (if raw AND pc_extended pc \<noteq> 0 then CAN_FLAG_EXTENDED else 0) OR
      (if raw AND pc_rtr pc \<noteq> 0 then CAN_FLAG_RTR else 0) OR
      (if raw AND pc_fd pc \<noteq> 0 then CAN_FLAG_FD else 0) OR
      (if raw AND pc_brs pc \<noteq> 0 then CAN_FLAG_BRS else 0) OR
      (if raw AND pc_esi pc \<noteq> 0 then CAN_FLAG_ESI else 0))"

definition message_type_bits :: "peak_consts \<Rightarrow> u8 \<Rightarrow> u32" where
  "message_type_bits pc flags =
     pc_standard pc OR
     (if flags AND CAN_FLAG_EXTENDED \<noteq> 0 then pc_extended pc else 0) OR
     (if flags AND CAN_FLAG_RTR \<noteq> 0 then pc_rtr pc else 0) OR
     (if flags AND CAN_FLAG_FD \<noteq> 0 then pc_fd pc else 0) OR
     (if flags AND CAN_FLAG_BRS \<noteq> 0 then pc_brs pc else 0) OR
     (if flags AND CAN_FLAG_ESI \<noteq> 0 then pc_esi pc else 0)"

definition encode_message_type :: "peak_consts \<Rightarrow> u8 \<Rightarrow> peak_failure + u8" where
  "encode_message_type pc flags =
     (let msgtype = message_type_bits pc flags in
      if unat msgtype < 2 ^ 8 then Inr (ucast msgtype) else Inl (PkInvalidMessageType msgtype flags))"

definition decode_classic_frame :: "peak_consts \<Rightarrow> peak_msg \<Rightarrow> sim_can_frame" where
  "decode_classic_frame pc raw =
     (let len = min (pm_len raw) 8; n = unat len in
      \<lparr>arb_id = pm_id raw, fr_len = len, fr_flags = decode_message_type pc (pm_type raw),
       fr_data = take n (pm_data raw) @ replicate (64 - n) 0\<rparr>)"

definition decode_fd_frame :: "peak_consts \<Rightarrow> peak_msg_fd \<Rightarrow> peak_failure + sim_can_frame" where
  "decode_fd_frame pc raw = res_bind (map_err PkLength (fd_dlc_to_len (pf_dlc raw))) (\<lambda>len.
     Inr \<lparr>arb_id = pf_id raw, fr_len = len, fr_flags = decode_message_type pc (pf_type raw),
          fr_data = pf_data raw\<rparr>)"

definition peak_read :: "peak_consts \<Rightarrow> 'w peak_library \<Rightarrow> peak_socket \<Rightarrow> 'w \<Rightarrow>
    (u32 \<times> (peak_failure + sim_can_frame)) \<times> 'w" where
  \<comment> \<open>The status of one read and the frame it is decoded to.\<close>
  "peak_read pc pl s w =
     (if pk_fd_capable s
      then (case pl_read_fd pl (pk_channel s) w of ((st, raw), w1) \<Rightarrow> ((st, decode_fd_frame pc raw), w1))
      else (case pl_read pl (pk_channel s) w of ((st, raw), w1) \<Rightarrow>
        ((st, Inr (decode_classic_frame pc raw)), w1)))"

partial_function (option) peak_recv_loop ::
    "peak_consts \<Rightarrow> 'w peak_library \<Rightarrow> peak_socket \<Rightarrow> sim_can_frame list \<Rightarrow> 'w \<Rightarrow>
     ((peak_failure + sim_can_frame list) \<times> 'w) option" where
  "peak_recv_loop pc pl s frames w = (case peak_read pc pl s w of ((status, decoded), w1) \<Rightarrow>
     if status = pc_ok pc then
       (case decoded of
          Inl e \<Rightarrow> Some (Inl e, w1)
        | Inr f \<Rightarrow> peak_recv_loop pc pl s (frames @ [f]) w1)
     else if status = pc_qrcvempty pc then Some (Inr frames, w1)
     else Some (Inl (status_message pc (pk_iface s) ''read'' status), w1))"

definition peak_recv_all ::
    "peak_consts \<Rightarrow> 'w peak_library \<Rightarrow> peak_socket \<Rightarrow> 'w \<Rightarrow> ((peak_failure + sim_can_frame list) \<times> 'w) option" where
  "peak_recv_all pc pl s = peak_recv_loop pc pl s []"

definition peak_message_of ::
    "peak_consts \<Rightarrow> bool \<Rightarrow> sim_can_frame \<Rightarrow> peak_failure failure + (peak_msg_fd + peak_msg)" where
  \<comment> \<open>What \<open>send\<close> hands to the library; a classic payload of more than 8 bytes panics.\<close>
  "peak_message_of pc fd_ok frame =
     (if fd_ok \<and> (fr_flags frame AND CAN_FLAG_FD \<noteq> 0 \<or> 8 < fr_len frame) then
        res_bind (map_err Fails (encode_message_type pc (fr_flags frame))) (\<lambda>ty.
        res_bind (map_err (\<lambda>e. Fails (PkLength e)) (fd_len_to_dlc (fr_len frame))) (\<lambda>dlc.
        Inr (Inl \<lparr>pf_id = arb_id frame, pf_type = ty, pf_dlc = dlc, pf_data = fr_data frame\<rparr>)))
      else
        res_bind (map_err Fails (encode_message_type pc (fr_flags frame))) (\<lambda>ty.
        if 8 < fr_len frame then Inl Panics
        else let n = unat (fr_len frame) in
          Inr (Inr \<lparr>pm_id = arb_id frame, pm_type = ty, pm_len = fr_len frame,
                    pm_data = take n (fr_data frame) @ replicate (8 - n) 0\<rparr>)))"

definition peak_send ::
    "peak_consts \<Rightarrow> 'w peak_library \<Rightarrow> peak_socket \<Rightarrow> sim_can_frame \<Rightarrow> ('w, peak_failure failure, unit) act" where
  "peak_send pc pl s frame =
     a_bind (a_lift (peak_message_of pc (pk_fd_capable s) frame)) (\<lambda>m w.
     case (case m of Inl fd \<Rightarrow> pl_write_fd pl (pk_channel s) fd w | Inr c \<Rightarrow> pl_write pl (pk_channel s) c w) of
       (status, w1) \<Rightarrow>
         (if status = pc_ok pc then Inr ()
          else if status = pc_qxmtfull pc then fail (PkTransmitQueueFull (pk_iface s))
          else fail (status_message pc (pk_iface s) ''write'' status), w1))"

section \<open>Platforms without CAN\<close>

datatype no_can = NoCanFor string | NoCan

definition no_can_open :: "string \<Rightarrow> u32 \<Rightarrow> u32 \<Rightarrow> bool \<Rightarrow> no_can + string" where
  "no_can_open iface rate data_rate fd_ok = Inl (NoCanFor iface)"

definition no_can_recv_all :: "string \<Rightarrow> no_can + sim_can_frame list" where
  "no_can_recv_all s = Inl NoCan"

definition no_can_send :: "string \<Rightarrow> sim_can_frame \<Rightarrow> no_can + unit" where
  "no_can_send s frame = Inl NoCan"

section \<open>Frames through the PEAK driver\<close>

text \<open>
  What the vendor documents of its message types: the standard type is 0 and each of the others one
  bit of the lowest eight, all different.
\<close>

definition peak_bits :: "peak_consts \<Rightarrow> nat list \<Rightarrow> bool" where
  "peak_bits pc ps \<longleftrightarrow> length ps = 5 \<and> distinct ps \<and> list_all (\<lambda>p. p < 8) ps \<and> pc_standard pc = 0 \<and>
     pc_extended pc = 2 ^ (ps ! 0) \<and> pc_fd pc = 2 ^ (ps ! 1) \<and> pc_brs pc = 2 ^ (ps ! 2) \<and>
     pc_esi pc = 2 ^ (ps ! 3) \<and> pc_rtr pc = 2 ^ (ps ! 4)"

lemma peak_bits_parts:
  assumes "peak_bits pc ps"
  obtains e f b s r where "ps = [e, f, b, s, r]" "distinct [e, f, b, s, r]"
    "e < 8" "f < 8" "b < 8" "s < 8" "r < 8" "pc_standard pc = 0" "pc_extended pc = 2 ^ e"
    "pc_fd pc = 2 ^ f" "pc_brs pc = 2 ^ b" "pc_esi pc = 2 ^ s" "pc_rtr pc = 2 ^ r"
proof -
  have "length ps = 5" using assms by (simp add: peak_bits_def)
  then obtain e f b s r where "ps = [e, f, b, s, r]"
    by (auto simp: numeral_eq_Suc length_Suc_conv)
  then show thesis using assms by (intro that) (auto simp: peak_bits_def)
qed

lemma message_type_roundtrip:
  assumes bits: "peak_bits pc ps" and res: "flags AND CAN_FLAG_RESERVED_MASK = 0"
  shows "\<exists>m. encode_message_type pc flags = Inr m \<and> decode_message_type pc m = flags"
proof -
  obtain e f b s r where d: "distinct [e, f, b, s, r]" "e < 8" "f < 8" "b < 8" "s < 8" "r < 8"
    and c: "pc_standard pc = 0" "pc_extended pc = 2 ^ e" "pc_fd pc = 2 ^ f" "pc_brs pc = 2 ^ b"
      "pc_esi pc = 2 ^ s" "pc_rtr pc = 2 ^ r"
    using peak_bits_parts[OF bits] by metis
  let ?m = "message_type_bits pc flags"
  have bit_m: "bit ?m i \<longleftrightarrow> i = e \<and> bit flags 0 \<or> i = f \<and> bit flags 1 \<or> i = b \<and> bit flags 2 \<or>
      i = s \<and> bit flags 3 \<or> i = r \<and> bit flags 4" for i
    using d(2-) by (auto simp: message_type_bits_def c flag_bits bit_or_iff bit_exp_iff)
  have "take_bit 8 ?m = ?m"
    by (rule bit_word_eqI) (use d(2-) bit_m in \<open>auto simp: bit_take_bit_iff\<close>)
  then have small: "unat ?m < 2 ^ 8" by (metis take_bit_nat_less_exp unsigned_take_bit_eq)
  have raw: "(ucast (ucast ?m :: u8) :: u32) = ?m"
    by (rule bit_word_eqI) (use d(2-) bit_m in \<open>auto simp: bit_simps\<close>)
  have m: "bit ?m e \<longleftrightarrow> bit flags 0" "bit ?m f \<longleftrightarrow> bit flags 1" "bit ?m b \<longleftrightarrow> bit flags 2"
      "bit ?m s \<longleftrightarrow> bit flags 3" "bit ?m r \<longleftrightarrow> bit flags 4"
    using d(1) by (auto simp: bit_m)
  have "decode_message_type pc (ucast ?m) = flags"
  proof (rule bit_word_eqI)
    fix i :: nat
    have "i = 0 \<or> i = 1 \<or> i = 2 \<or> i = 3 \<or> i = 4 \<or> 5 \<le> i" by linarith
    then show "bit (decode_message_type pc (ucast ?m)) i = bit flags i"
      by (elim disjE) (use reserved_bits[OF res] in \<open>auto simp: decode_message_type_def raw c
          and_exp_eq_0_iff_not_bit m bit_or_iff bit_flag\<close>)
  qed
  then show ?thesis using small by (simp add: encode_message_type_def)
qed

definition frame_of_peak :: "peak_consts \<Rightarrow> peak_msg_fd + peak_msg \<Rightarrow> peak_failure + sim_can_frame" where
  "frame_of_peak pc m = (case m of Inl fd \<Rightarrow> decode_fd_frame pc fd | Inr c \<Rightarrow> Inr (decode_classic_frame pc c))"

text \<open>
  The PEAK driver is faithful too. A frame that \<open>validate_frame\<close> accepts for the kind of bus the
  channel was opened with never makes \<open>send\<close> panic: it is handed to the library as an FD message
  exactly when it carries the FD flag or more than 8 bytes, and reading that message gives back the
  same identifier, length, flags and payload.
\<close>

theorem peak_roundtrip:
  assumes bits: "peak_bits pc ps" and ok: "validate_frame bus fd_ok f = Inr ()" and wf: "frame_wf f"
  shows "\<exists>m g. peak_message_of pc fd_ok f = Inr m \<and> (isl m \<longleftrightarrow> fr_flags f AND CAN_FLAG_FD \<noteq> 0 \<or> 8 < fr_len f) \<and>
    frame_of_peak pc m = Inr g \<and> arb_id g = arb_id f \<and> fr_len g = fr_len f \<and>
    fr_flags g = fr_flags f \<and> payload g = payload f"
proof -
  note v = ok[unfolded validate_frame_Inr]
  obtain ty where ty: "encode_message_type pc (fr_flags f) = Inr ty" "decode_message_type pc ty = fr_flags f"
    using message_type_roundtrip[OF bits] v by blast
  have data: "length (fr_data f) = 64" using wf by (simp add: frame_wf_def)
  show ?thesis
  proof (cases "bit (fr_flags f) 1 \<or> 8 < fr_len f")
    case True
    then have len: "unat (fr_len f) \<in> fd_lengths" and fd: fd_ok
      using v by (auto simp: word_less_nat_alt split: if_splits)
    obtain dlc where dlc: "fd_len_to_dlc (fr_len f) = Inr dlc"
      using len fd_len_to_dlc_ok[of "fr_len f"] by (cases "fd_len_to_dlc (fr_len f)") auto
    have "res_opt (fd_dlc_to_len dlc) = Some (fr_len f)"
      using dlc_codec.dec_enc[OF len] dlc by simp
    then have "fd_dlc_to_len dlc = Inr (fr_len f)" by (cases "fd_dlc_to_len dlc") (auto simp: res_opt_def)
    then show ?thesis
      using True fd ty dlc
      by (simp add: peak_message_of_def flag_bits frame_of_peak_def decode_fd_frame_def payload_def)
  next
    case False
    then have len: "unat (fr_len f) \<le> 8" "fr_len f \<le> 8" by (simp_all add: word_le_nat_alt word_less_nat_alt)
    then show ?thesis
      using False ty data len
      by (simp add: peak_message_of_def flag_bits frame_of_peak_def decode_classic_frame_def payload_def
          Let_def min_absorb1)
  qed
qed

text \<open>The constants of the vendor's header that the statements need; the others are zero.\<close>

definition header_consts :: peak_consts where
  "header_consts = \<lparr>
     pc_usb = (\<lambda>n. if n \<le> 8 then 0x50 + of_nat n else 0x500 + of_nat n),
     pc_pci = (\<lambda>n. if n \<le> 8 then 0x40 + of_nat n else 0x400 + of_nat n),
     pc_baud_125k = 0x031C, pc_baud_250k = 0x011C, pc_baud_500k = 0x001C, pc_baud_800k = 0x0016,
     pc_baud_1m = 0x0014, pc_standard = 0, pc_extended = 2, pc_rtr = 1, pc_fd = 4, pc_brs = 8,
     pc_esi = 16, pc_ok = 0, pc_qrcvempty = 0x20, pc_qxmtfull = 0x80, pc_initialize = 0x4000000,
     pc_illoperation = 0x8000000\<rparr>"

lemma header_bits: "peak_bits header_consts [1, 2, 3, 4, 0]"
  by (simp add: peak_bits_def header_consts_def)

theorem peak_roundtrip_witness:
  "\<exists>m g. peak_message_of header_consts True
      \<lparr>arb_id = 0x123, fr_len = 12, fr_flags = 6, fr_data = replicate 64 7\<rparr> = Inr m \<and> isl m \<and>
      frame_of_peak header_consts m = Inr g \<and> fr_flags g = 6 \<and> fr_len g = 12"
proof -
  let ?f = "\<lparr>arb_id = 0x123, fr_len = 12, fr_flags = 6, fr_data = replicate 64 7\<rparr>"
  have "validate_frame ''can0'' True ?f = Inr ()"
    by (simp add: validate_frame_Inr CAN_FLAG_RESERVED_MASK_def fd_lengths_def)
  then show ?thesis
    using peak_roundtrip[OF header_bits, of "''can0''" True ?f] by (auto simp: frame_wf_def flag_bits)
qed

section \<open>Bit rate profiles\<close>

text \<open>
  A reader of the profile text: the rate of a phase is the clock divided by the prescaler and the
  number of time quanta of a bit, one for the synchronisation and those of the two segments.
\<close>

fun comma_fields :: "string \<Rightarrow> string \<Rightarrow> string list" where
  "comma_fields acc [] = [rev acc]"
| "comma_fields acc (c # cs) =
     (if c = CHR '','' then rev acc # comma_fields [] cs else comma_fields (c # acc) cs)"

definition profile_value :: "string \<Rightarrow> string \<Rightarrow> nat option" where
  "profile_value p key = Option.bind
     (map_of (List.map_filter (split_once CHR ''='') (comma_fields [] p)) key)
     (\<lambda>v. map_option unat (parse_u32 v))"

definition profile_rate :: "string \<Rightarrow> string \<Rightarrow> nat option" where
  "profile_rate p phase =
     Option.bind (profile_value p ''f_clock'') (\<lambda>clock.
     Option.bind (profile_value p (phase @ ''_brp'')) (\<lambda>brp.
     Option.bind (profile_value p (phase @ ''_tseg1'')) (\<lambda>tseg1.
     Option.bind (profile_value p (phase @ ''_tseg2'')) (\<lambda>tseg2.
       let quanta = brp * (1 + tseg1 + tseg2) in
       if quanta \<noteq> 0 \<and> clock mod quanta = 0 then Some (clock div quanta) else None))))"

lemma profile_rates_eval:
  "profile_rate (projr (fd_bitrate_profile 250000 2000000)) ''nom'' = Some 250000 \<and>
   profile_rate (projr (fd_bitrate_profile 250000 2000000)) ''data'' = Some 2000000"
  "profile_rate (projr (fd_bitrate_profile 500000 2000000)) ''nom'' = Some 500000 \<and>
   profile_rate (projr (fd_bitrate_profile 500000 2000000)) ''data'' = Some 2000000"
  "profile_rate (projr (fd_bitrate_profile 500000 4000000)) ''nom'' = Some 500000 \<and>
   profile_rate (projr (fd_bitrate_profile 500000 4000000)) ''data'' = Some 4000000"
  "profile_rate (projr (fd_bitrate_profile 1000000 2000000)) ''nom'' = Some 1000000 \<and>
   profile_rate (projr (fd_bitrate_profile 1000000 2000000)) ''data'' = Some 2000000"
  by code_simp+

text \<open>
  Each CAN FD profile programs the rates it stands for. Whatever pair of bit rates
  \<open>fd_bitrate_profile\<close> accepts, the prescalers and segments in the text it gives divide the clock to
  exactly the nominal and the data rate that were asked for.
\<close>

theorem fd_profile_rates:
  assumes "fd_bitrate_profile rate data_rate = Inr p"
  shows "profile_rate p ''nom'' = Some (unat rate) \<and> profile_rate p ''data'' = Some (unat data_rate)"
proof -
  have p: "p = projr (fd_bitrate_profile rate data_rate)" using assms by simp
  have "(rate, data_rate) \<in> {(250000, 2000000), (500000, 2000000), (500000, 4000000), (1000000, 2000000)}"
    using assms by (auto simp: fd_bitrate_profile_def split: if_splits)
  then show ?thesis
    unfolding p by (elim insertE emptyE) (simp_all only: prod.inject, simp_all add: profile_rates_eval)
qed

theorem fd_profile_rates_witness:
  "\<exists>p. fd_bitrate_profile 500000 4000000 = Inr p \<and> profile_rate p ''data'' = Some 4000000"
proof -
  obtain p where p: "fd_bitrate_profile 500000 4000000 = Inr p" by (simp add: fd_bitrate_profile_def)
  then show ?thesis using fd_profile_rates[OF p] by simp
qed

text \<open>Channels are found by their short and their long name, in any case and with space around.\<close>

lemma channel_examples:
  "parse_channel header_consts '' USB3 '' = Inr 0x53"
  "parse_channel header_consts ''PEAK_PCIBUS16'' = Inr 0x410"
  "parse_channel header_consts ''usb17'' = Inl (PkUnsupportedChannel ''usb17'')"
  by (code_simp, code_simp, code_simp)

end
