(* ===== verification/Ipc.thy ===== *)
theory Ipc
  imports Lifecycle
begin

text \<open>
  The local sockets of the daemons: \<open>ipc.rs\<close>. The system's listening and connecting calls are a
  parameter; modelled are how an endpoint that is left over is taken over (\<open>bind_listener\<close>), and the
  names of the Windows pipes (\<open>pipe_name\<close>) with their FNV-1a hash.
\<close>

unbundle bit_operations_syntax

section \<open>Endpoints\<close>

datatype bind_error = AddrInUse | BindAlreadyExists | BindOther

record 'w ipc_sys =
  ip_name :: "string \<Rightarrow> bind_error + string"  \<comment> \<open>\<open>to_fs_name\<close> of the endpoint's name\<close>
  ip_listen :: "string \<Rightarrow> 'w \<Rightarrow> (bind_error + unit) \<times> 'w"  \<comment> \<open>\<open>create_tokio\<close> without overwriting\<close>
  ip_connect :: "string \<Rightarrow> 'w \<Rightarrow> bool \<times> 'w"
  ip_exists :: "string \<Rightarrow> 'w \<Rightarrow> bool"
  ip_remove :: "string \<Rightarrow> 'w \<Rightarrow> bool \<times> 'w"
  ip_write_empty :: "string \<Rightarrow> 'w \<Rightarrow> bool \<times> 'w"

definition listener_bind :: "'w ipc_sys \<Rightarrow> string \<Rightarrow> ('w, bind_error, unit) act" where
  "listener_bind ip endpoint = a_bind (a_lift (ip_name ip endpoint)) (ip_listen ip)"

definition ipc_connect :: "'w ipc_sys \<Rightarrow> string \<Rightarrow> 'w \<Rightarrow> bool \<times> 'w" where
  "ipc_connect ip endpoint w = (case ip_name ip endpoint of
      Inl _ \<Rightarrow> (False, w)
    | Inr name \<Rightarrow> ip_connect ip name w)"

definition cleanup_endpoint :: "'w ipc_sys \<Rightarrow> string \<Rightarrow> 'w \<Rightarrow> 'w" where
  "cleanup_endpoint ip endpoint w =
     (if ip_exists ip endpoint w then snd (ip_remove ip endpoint w) else w)"

definition is_bind_conflict :: "bind_error \<Rightarrow> bool" where
  "is_bind_conflict e \<longleftrightarrow> e = AddrInUse \<or> e = BindAlreadyExists"

definition bind_over :: "'w ipc_sys \<Rightarrow> string \<Rightarrow> ('w, bind_error, unit) act" where
  \<comment> \<open>The second arm: the endpoint is removed and bound again.\<close>
  "bind_over ip endpoint w = listener_bind ip endpoint (cleanup_endpoint ip endpoint w)"

definition bind_listener :: "'w ipc_sys \<Rightarrow> string \<Rightarrow> ('w, bind_error, unit) act" where
  "bind_listener ip endpoint w = (case listener_bind ip endpoint w of
      (Inr _, w1) \<Rightarrow> (Inr (), w1)
    | (Inl err, w1) \<Rightarrow>
        if is_bind_conflict err
        then (case ipc_connect ip endpoint w1 of
           (True, w2) \<Rightarrow> (Inl err, w2)
         | (False, w2) \<Rightarrow> bind_over ip endpoint w2)
        else (Inl err, w1))"

datatype platform = UnixHost | WindowsHost

definition create_endpoint_marker :: "platform \<Rightarrow> 'w ipc_sys \<Rightarrow> string \<Rightarrow> 'w \<Rightarrow> bool \<times> 'w" where
  "create_endpoint_marker pf ip endpoint w = (case pf of
      UnixHost \<Rightarrow> (True, w)
    | WindowsHost \<Rightarrow> ip_write_empty ip endpoint w)"

section \<open>Names of pipes\<close>

definition WINDOWS_PIPE_NAME_PREFIX :: string where
  "WINDOWS_PIPE_NAME_PREFIX = [CHR 0x5C, CHR 0x5C, CHR ''.'', CHR 0x5C] @ ''pipe'' @ [CHR 0x5C] @ ''agent-sim-''"

definition WINDOWS_PIPE_NAME_MAX_LEN :: nat where "WINDOWS_PIPE_NAME_MAX_LEN = 256"
definition WINDOWS_PIPE_HASH_SUFFIX_LEN :: nat where "WINDOWS_PIPE_HASH_SUFFIX_LEN = 1 + 16"

definition WINDOWS_PIPE_STEM_MAX_LEN :: nat where
  "WINDOWS_PIPE_STEM_MAX_LEN =
     WINDOWS_PIPE_NAME_MAX_LEN - length WINDOWS_PIPE_NAME_PREFIX - WINDOWS_PIPE_HASH_SUFFIX_LEN"

definition stable_hash64 :: "string \<Rightarrow> u64" where
  "stable_hash64 raw =
     fold (\<lambda>c hash. (hash XOR of_nat (byte c)) * 0x100000001b3) raw 0xcbf29ce484222325"

definition lower_hex_digit :: "nat \<Rightarrow> char" where
  "lower_hex_digit d = (if d < 10 then char_of (48 + d) else char_of (87 + d))"

fun hex_digits :: "nat \<Rightarrow> nat \<Rightarrow> string" where
  \<comment> \<open>The last \<open>k\<close> hexadecimal digits.\<close>
  "hex_digits 0 n = []"
| "hex_digits (Suc k) n = hex_digits k (n div 16) @ [lower_hex_digit (n mod 16)]"

definition show_hash :: "u64 \<Rightarrow> string" where
  \<comment> \<open>\<open>{suffix:016x}\<close>\<close>
  "show_hash h = hex_digits 16 (unat h)"

definition windows_file_stem :: "string \<Rightarrow> string option" where
  \<comment> \<open>\<open>Path::file_stem\<close> on Windows, for paths that start with a drive or with none: both slashes
    separate.\<close>
  "windows_file_stem p =
     (let q = (case p of _ # c # rest \<Rightarrow> if c = CHR '':'' then rest else p | _ \<Rightarrow> p)
      in path_file_stem (map (\<lambda>c. if c = CHR 0x5C then CHR ''/'' else c) q))"

definition pipe_char :: "char \<Rightarrow> bool" where
  "pipe_char c \<longleftrightarrow> is_ascii_alphanumeric c \<or> c = CHR ''-'' \<or> c = CHR ''_''"

definition sanitize_stem :: "string \<Rightarrow> string" where
  \<comment> \<open>One character per character: the continuation bytes of UTF-8 are left out.\<close>
  "sanitize_stem stem = map (\<lambda>c. if pipe_char c then c else CHR ''_'')
     (filter (\<lambda>c. byte c < 0x80 \<or> 0xC0 \<le> byte c) stem)"

definition pipe_name :: "string \<Rightarrow> string" where
  "pipe_name endpoint =
     (let suffix = stable_hash64 (utf8_lossy endpoint);
          stem = (case windows_file_stem endpoint of
             Some s \<Rightarrow> if utf8_valid s then s else ''endpoint''
           | None \<Rightarrow> ''endpoint'')
      in WINDOWS_PIPE_NAME_PREFIX @ take WINDOWS_PIPE_STEM_MAX_LEN (sanitize_stem stem) @ ''-'' @ show_hash suffix)"

definition endpoint_name :: "platform \<Rightarrow> string \<Rightarrow> string" where
  \<comment> \<open>The text that \<open>to_fs_name\<close> turns into a name.\<close>
  "endpoint_name pf endpoint = (case pf of UnixHost \<Rightarrow> endpoint | WindowsHost \<Rightarrow> pipe_name endpoint)"

text \<open>The hash agrees with the published values of FNV-1a.\<close>

lemma stable_hash64_known:
  "stable_hash64 '''' = 0xcbf29ce484222325"
  "stable_hash64 ''agent-sim'' = 0x529cc5bfe23c9fb0"
  "stable_hash64 ''C:/Users/alice/.agent-sim/demo.sock'' = 0x840f725602d6f670"
  by code_simp+

lemma pipe_name_known:
  "pipe_name ''C:/Users/alice/.agent-sim/demo.sock'' =
     WINDOWS_PIPE_NAME_PREFIX @ ''demo-840f725602d6f670''"
proof -
  have stem: "windows_file_stem ''C:/Users/alice/.agent-sim/demo.sock'' = Some ''demo''" by code_simp
  have lossy: "utf8_lossy ''C:/Users/alice/.agent-sim/demo.sock'' = ''C:/Users/alice/.agent-sim/demo.sock''"
    by (rule utf8_lossy_valid, rule utf8_valid_ascii) simp
  have demo: "utf8_valid ''demo''" by (rule utf8_valid_ascii) simp
  have take: "take WINDOWS_PIPE_STEM_MAX_LEN (sanitize_stem ''demo'') = ''demo''" by code_simp
  have hash: "show_hash 0x840f725602d6f670 = ''840f725602d6f670''" by code_simp
  show ?thesis
    by (simp only: pipe_name_def stem lossy demo take hash stable_hash64_known Let_def option.case if_True append.simps)
qed

lemma length_hex_digits [simp]: "length (hex_digits k n) = k"
  by (induction k arbitrary: n) simp_all

lemma lower_hex_digit_inj: "a < 16 \<Longrightarrow> b < 16 \<Longrightarrow> lower_hex_digit a = lower_hex_digit b \<Longrightarrow> a = b"
proof -
  assume d: "a < 16" "b < 16" and eq: "lower_hex_digit a = lower_hex_digit b"
  have "byte (lower_hex_digit d) = (if d < 10 then 48 + d else 87 + d)" if "d < 16" for d
    using that by (simp add: lower_hex_digit_def)
  from this[of a] this[of b] have "(if a < 10 then 48 + a else 87 + a) = (if b < 10 then 48 + b else 87 + b)"
    using d eq by simp
  then show "a = b" by (cases "a < 10"; cases "b < 10") simp_all
qed

lemma hex_digits_inj: "hex_digits k a = hex_digits k b \<Longrightarrow> a mod 16 ^ k = b mod 16 ^ k"
proof (induction k arbitrary: a b)
  case (Suc k)
  then have high: "hex_digits k (a div 16) = hex_digits k (b div 16)"
    and low: "lower_hex_digit (a mod 16) = lower_hex_digit (b mod 16)" by simp_all
  have "a mod 16 = b mod 16" by (rule lower_hex_digit_inj[OF _ _ low]) simp_all
  moreover note Suc.IH[OF high]
  moreover have "n mod 16 ^ Suc k = 16 * (n div 16 mod 16 ^ k) + n mod 16" for n :: nat
    by (simp add: mod_mult2_eq)
  ultimately show ?case by (simp only:)
qed simp

lemma show_hash_inj: "show_hash a = show_hash b \<Longrightarrow> a = b"
proof -
  assume "show_hash a = show_hash b"
  then have "unat a mod 16 ^ 16 = unat b mod 16 ^ 16" unfolding show_hash_def by (rule hex_digits_inj)
  moreover have "unat h mod 16 ^ 16 = unat h" for h :: u64
    using unsigned_less[of h, where ?'a = nat] by simp
  ultimately show ?thesis by (simp add: word_unat_eq_iff)
qed

lemma pipe_char_hex: "c \<in> set (hex_digits k n) \<Longrightarrow> pipe_char c"
proof (induction k arbitrary: n)
  case (Suc k)
  have "n mod 16 < 16" by simp
  then have "pipe_char (lower_hex_digit (n mod 16))"
    by (auto simp: pipe_char_def is_ascii_alphanumeric_def is_ascii_digit_def lower_hex_digit_def)
  then show ?case using Suc by auto
qed simp

text \<open>
  A pipe can be made of every endpoint. The name has at most the 256 bytes that Windows allows, what
  follows the fixed prefix are letters, digits, \<open>-\<close> and \<open>_\<close> only, so no further backslash, and two
  endpoints get the same name only when their hashes collide.
\<close>

theorem pipe_name_sound:
  "length (pipe_name p) \<le> WINDOWS_PIPE_NAME_MAX_LEN \<and>
   (\<exists>rest. pipe_name p = WINDOWS_PIPE_NAME_PREFIX @ rest \<and> list_all pipe_char rest) \<and>
   (pipe_name p = pipe_name q \<longrightarrow> stable_hash64 (utf8_lossy p) = stable_hash64 (utf8_lossy q))"
proof -
  define body where "body p = take WINDOWS_PIPE_STEM_MAX_LEN (sanitize_stem (case windows_file_stem p of
      Some s \<Rightarrow> if utf8_valid s then s else ''endpoint'' | None \<Rightarrow> ''endpoint''))" for p
  have name: "pipe_name p = WINDOWS_PIPE_NAME_PREFIX @ body p @ ''-'' @ show_hash (stable_hash64 (utf8_lossy p))" for p
    by (simp only: pipe_name_def Let_def body_def)
  have "length (body p) \<le> 220"
    by (simp add: body_def WINDOWS_PIPE_STEM_MAX_LEN_def WINDOWS_PIPE_NAME_MAX_LEN_def
        WINDOWS_PIPE_HASH_SUFFIX_LEN_def WINDOWS_PIPE_NAME_PREFIX_def)
  then have len: "length (pipe_name p) \<le> WINDOWS_PIPE_NAME_MAX_LEN"
    by (simp add: name show_hash_def WINDOWS_PIPE_NAME_PREFIX_def WINDOWS_PIPE_NAME_MAX_LEN_def)
  have "list_all pipe_char (body p @ ''-'' @ show_hash (stable_hash64 (utf8_lossy p)))"
    unfolding list_all_iff
    by (auto simp: body_def sanitize_stem_def show_hash_def pipe_char_hex pipe_char_def[of "CHR ''_''"]
        pipe_char_def[of "CHR ''-''"] dest!: in_set_takeD)
  then have chars: "\<exists>rest. pipe_name p = WINDOWS_PIPE_NAME_PREFIX @ rest \<and> list_all pipe_char rest"
    unfolding name by blast
  have "stable_hash64 (utf8_lossy p) = stable_hash64 (utf8_lossy q)" if eq: "pipe_name p = pipe_name q"
  proof -
    have tail: "drop (length (pipe_name p) - 16) (pipe_name p) = show_hash (stable_hash64 (utf8_lossy p))" for p
      by (simp add: name show_hash_def)
    show ?thesis by (rule show_hash_inj) (metis tail eq)
  qed
  then show ?thesis using len chars by blast
qed

section \<open>Taking an endpoint over\<close>

text \<open>
  An endpoint is free, or its file leads to a listener that may no longer live. Listening on a name
  whose file is there is refused, connecting works while the listener lives, and removing the file
  frees the name, whoever listens behind it.
\<close>

datatype endpoint_state = FreeEndpoint | StaleEndpoint | LiveEndpoint

definition ipc_laws :: "'w ipc_sys \<Rightarrow> string \<Rightarrow> ('w \<Rightarrow> endpoint_state) \<Rightarrow> bool" where
  "ipc_laws ip ep st \<longleftrightarrow> ip_name ip ep = Inr ep \<and>
     (\<forall>w. if st w = FreeEndpoint
        then fst (ip_listen ip ep w) = Inr () \<and> st (snd (ip_listen ip ep w)) = LiveEndpoint
        else (\<exists>e. fst (ip_listen ip ep w) = Inl e \<and> is_bind_conflict e) \<and> st (snd (ip_listen ip ep w)) = st w) \<and>
     (\<forall>w. (fst (ip_connect ip ep w) \<longleftrightarrow> st w = LiveEndpoint) \<and> st (snd (ip_connect ip ep w)) = st w) \<and>
     (\<forall>w. ip_exists ip ep w \<longleftrightarrow> st w \<noteq> FreeEndpoint) \<and>
     (\<forall>w. st (snd (ip_remove ip ep w)) = FreeEndpoint)"

lemma listener_bind_cases:
  assumes "ipc_laws ip ep st"
  obtains w1 where "st w = FreeEndpoint" "listener_bind ip ep w = (Inr (), w1)" "st w1 = LiveEndpoint"
  | e w1 where "st w \<noteq> FreeEndpoint" "listener_bind ip ep w = (Inl e, w1)" "is_bind_conflict e" "st w1 = st w"
proof -
  obtain r w1 where l: "ip_listen ip ep w = (r, w1)" by fastforce
  have b: "listener_bind ip ep w = (r, w1)" using assms l by (simp add: listener_bind_def ipc_laws_def)
  have "if st w = FreeEndpoint then r = Inr () \<and> st w1 = LiveEndpoint
      else (\<exists>e. r = Inl e \<and> is_bind_conflict e) \<and> st w1 = st w"
    using assms l unfolding ipc_laws_def by (metis fst_conv snd_conv)
  then show thesis using b that by (cases "st w = FreeEndpoint") auto
qed

lemma bind_over_live:
  assumes "ipc_laws ip ep st"
  shows "\<exists>u. bind_over ip ep w = (Inr (), u) \<and> st u = LiveEndpoint"
proof -
  have "st (cleanup_endpoint ip ep w) = FreeEndpoint"
    using assms by (auto simp: cleanup_endpoint_def ipc_laws_def)
  then show ?thesis
    unfolding bind_over_def using listener_bind_cases[OF assms, of "cleanup_endpoint ip ep w"] by metis
qed

text \<open>
  C17: a daemon takes an endpoint over exactly when nobody listens there. Started alone, \<open>bind_listener\<close>
  on an endpoint whose listener lives fails and leaves it as it is; on a free one, and on one that a
  dead daemon left behind, it succeeds.
\<close>

theorem bind_listener_takes_stale:
  assumes laws: "ipc_laws ip ep st"
  shows "(is_ok (fst (bind_listener ip ep w)) \<longleftrightarrow> st w \<noteq> LiveEndpoint) \<and>
    st (snd (bind_listener ip ep w)) = LiveEndpoint"
proof (rule listener_bind_cases[OF laws, of w])
  fix w1 assume "st w = FreeEndpoint" "listener_bind ip ep w = (Inr (), w1)" "st w1 = LiveEndpoint"
  then show ?thesis by (simp add: bind_listener_def)
next
  fix e w1 assume b: "st w \<noteq> FreeEndpoint" "listener_bind ip ep w = (Inl e, w1)" "is_bind_conflict e" "st w1 = st w"
  obtain ok w2 where c: "ip_connect ip ep w1 = (ok, w2)" by fastforce
  have con: "ok \<longleftrightarrow> st w1 = LiveEndpoint" "st w2 = st w1"
    using laws c unfolding ipc_laws_def by (metis fst_conv, metis snd_conv)
  have ic: "ipc_connect ip ep w1 = (ok, w2)" using laws c by (simp add: ipc_connect_def ipc_laws_def)
  show ?thesis
    using bind_over_live[OF laws, of w2] b con ic by (cases ok) (auto simp: bind_listener_def)
qed

text \<open>
  A world with one endpoint: the process its file leads to, and the processes that listen. \<open>shared_ipc p\<close>
  are the calls of process \<open>p\<close>.
\<close>

definition shared_ipc :: "nat \<Rightarrow> (nat option \<times> nat set) ipc_sys" where
  "shared_ipc p = \<lparr>
     ip_name = (\<lambda>s. Inr s),
     ip_listen = (\<lambda>_ (file, live). case file of
        None \<Rightarrow> (Inr (), (Some p, insert p live))
      | Some _ \<Rightarrow> (Inl AddrInUse, (file, live))),
     ip_connect = (\<lambda>_ (file, live). ((case file of None \<Rightarrow> False | Some q \<Rightarrow> q \<in> live), (file, live))),
     ip_exists = (\<lambda>_ (file, live). file \<noteq> None),
     ip_remove = (\<lambda>_ (file, live). (True, (None, live))),
     ip_write_empty = (\<lambda>_ w. (True, w))\<rparr>"

definition shared_state :: "nat option \<times> nat set \<Rightarrow> endpoint_state" where
  "shared_state w = (case fst w of
      None \<Rightarrow> FreeEndpoint
    | Some q \<Rightarrow> if q \<in> snd w then LiveEndpoint else StaleEndpoint)"

lemma shared_ipc_laws: "ipc_laws (shared_ipc p) ep shared_state"
  by (auto simp: ipc_laws_def shared_ipc_def shared_state_def is_bind_conflict_def split: option.splits)

theorem bind_listener_takes_stale_witness:
  "is_ok (fst (bind_listener (shared_ipc 1) ''/run/a.sock'' (Some 0, {}))) \<and>
   \<not> is_ok (fst (bind_listener (shared_ipc 1) ''/run/a.sock'' (Some 0, {0})))"
  using bind_listener_takes_stale[OF shared_ipc_laws, of 1 "''/run/a.sock''"]
  by (simp add: shared_state_def)

text \<open>
  Two daemons that start at the same time can both believe to own an endpoint. Both find the file of
  a dead listener, and neither can connect; the first removes it and binds, then the second removes
  the first one's file and binds as well: both succeed, and the first listens where nobody can
  connect.
\<close>

theorem endpoint_taken_twice:
  "\<exists>e w1 w2.
     listener_bind (shared_ipc 1) ep (Some 0, {}) = (Inl e, (Some 0, {})) \<and> is_bind_conflict e \<and>
     ipc_connect (shared_ipc 1) ep (Some 0, {}) = (False, (Some 0, {})) \<and>
     listener_bind (shared_ipc 2) ep (Some 0, {}) = (Inl e, (Some 0, {})) \<and>
     ipc_connect (shared_ipc 2) ep (Some 0, {}) = (False, (Some 0, {})) \<and>
     bind_over (shared_ipc 1) ep (Some 0, {}) = (Inr (), w1) \<and>
     bind_over (shared_ipc 2) ep w1 = (Inr (), w2) \<and> w2 = (Some 2, {1, 2})"
  by (auto simp: listener_bind_def ipc_connect_def bind_over_def cleanup_endpoint_def shared_ipc_def
      is_bind_conflict_def)

end
