(* ===== verification/Listeners.thy ===== *)
theory Listeners
  imports Ipc Daemon_Actions Env_Bootstrap
begin

text \<open>
  The outer shell of both daemons: \<open>run_listener\<close> and \<open>handle_connection\<close> of \<open>daemon/server.rs\<close> and
  \<open>envd/server.rs\<close>, with the task loops around the turns of \<open>Daemon_Actions\<close> and \<open>Env_Actions\<close>. A
  connection is the lines its peer sends; what arrives between two turns of a task, and what wakes
  it, are given as a list, since they are chosen by the scheduler.
\<close>

section \<open>Connections\<close>

datatype queue = MainQueue | WorkerQueue

datatype 'e served_error = ActionError 'e | DaemonUnavailable | InvalidJson string

record ('w, 'e) connection_sys =
  cx_read_line :: "'w \<Rightarrow> (unit + string) \<times> 'w"  \<comment> \<open>the empty text at the end of the stream\<close>
  cx_write :: "string \<Rightarrow> 'w \<Rightarrow> (unit + unit) \<times> 'w"
  cx_parse :: "string \<Rightarrow> string + request"
  cx_show :: "'e served_error response \<Rightarrow> string + string"
  cx_uuid :: "'w \<Rightarrow> uuid \<times> 'w"
  cx_submit :: "queue \<Rightarrow> request \<Rightarrow> 'w \<Rightarrow> bool \<times> 'w"  \<comment> \<open>whether the task still takes messages\<close>
  cx_await :: "queue \<Rightarrow> request \<Rightarrow> 'w \<Rightarrow> 'e served_error response option \<times> 'w"

definition daemon_queue :: "request \<Rightarrow> queue" where
  "daemon_queue rq = (case rq_action rq of RWorker _ \<Rightarrow> WorkerQueue | _ \<Rightarrow> MainQueue)"

definition env_queue :: "request \<Rightarrow> queue" where
  "env_queue rq = MainQueue"

definition served_response ::
    "('w, 'e) connection_sys \<Rightarrow> (request \<Rightarrow> queue) \<Rightarrow> string \<Rightarrow> 'w \<Rightarrow> 'e served_error response \<times> 'w" where
  \<comment> \<open>The response to one line.\<close>
  "served_response cx target line w = (case cx_parse cx (trim_end line) of
      Inr rq \<Rightarrow> (case cx_submit cx (target rq) rq w of
          (False, w1) \<Rightarrow> (response_err (rq_id rq) DaemonUnavailable, w1)
        | (True, w1) \<Rightarrow> (case cx_await cx (target rq) rq w1 of
            (Some rsp, w2) \<Rightarrow> (rsp, w2)
          | (None, w2) \<Rightarrow> (response_err (rq_id rq) DaemonUnavailable, w2)))
    | Inl err \<Rightarrow> (case cx_uuid cx w of (i, w1) \<Rightarrow> (response_err i (InvalidJson err), w1)))"

definition reply_text :: "('w, 'e) connection_sys \<Rightarrow> 'e served_error response \<Rightarrow> string" where
  "reply_text cx rsp = (case cx_show cx rsp of
      Inr out \<Rightarrow> out
    | Inl err \<Rightarrow> ''{\"success\":false,\"error\":\"response serialization failed: '' @ err @ ''\"}'') @ [CHR 0x0A]"

partial_function (option) handle_connection ::
    "('w, 'e) connection_sys \<Rightarrow> (request \<Rightarrow> queue) \<Rightarrow> 'w \<Rightarrow> ((unit + unit) \<times> 'w) option" where
  "handle_connection cx target w = (case cx_read_line cx w of
      (Inl e, w1) \<Rightarrow> Some (Inl e, w1)
    | (Inr line, w1) \<Rightarrow>
        if line = [] then Some (Inr (), w1)
        else (case served_response cx target line w1 of (rsp, w2) \<Rightarrow>
          (case cx_write cx (reply_text cx rsp) w2 of
             (Inl e, w3) \<Rightarrow> Some (Inl e, w3)
           | (Inr _, w3) \<Rightarrow> handle_connection cx target w3)))"

definition daemon_handle_connection :: "('w, 'e) connection_sys \<Rightarrow> 'w \<Rightarrow> ((unit + unit) \<times> 'w) option" where
  "daemon_handle_connection cx = handle_connection cx daemon_queue"

definition env_handle_connection :: "('w, 'e) connection_sys \<Rightarrow> 'w \<Rightarrow> ((unit + unit) \<times> 'w) option" where
  "env_handle_connection cx = handle_connection cx env_queue"

text \<open>
  A stream in both directions: reading takes the next line, writing appends, and nothing else touches
  either. The task answers a request under the identifier of the request, as \<open>handle_action\<close> and
  \<open>handle_env_action\<close> do.
\<close>

definition stream_laws ::
    "('w, 'e) connection_sys \<Rightarrow> ('w \<Rightarrow> string list) \<Rightarrow> ('w \<Rightarrow> string list) \<Rightarrow> bool" where
  "stream_laws cx inbox outbox \<longleftrightarrow>
     (\<forall>w. case inbox w of
        [] \<Rightarrow> \<exists>w1. cx_read_line cx w = (Inr [], w1) \<and> inbox w1 = [] \<and> outbox w1 = outbox w
      | l # ls \<Rightarrow> \<exists>w1. cx_read_line cx w = (Inr l, w1) \<and> inbox w1 = ls \<and> outbox w1 = outbox w) \<and>
     (\<forall>m w. \<exists>w1. cx_write cx m w = (Inr (), w1) \<and> inbox w1 = inbox w \<and> outbox w1 = outbox w @ [m]) \<and>
     (\<forall>w. inbox (snd (cx_uuid cx w)) = inbox w \<and> outbox (snd (cx_uuid cx w)) = outbox w) \<and>
     (\<forall>q r w. inbox (snd (cx_submit cx q r w)) = inbox w \<and> outbox (snd (cx_submit cx q r w)) = outbox w) \<and>
     (\<forall>q r w. inbox (snd (cx_await cx q r w)) = inbox w \<and> outbox (snd (cx_await cx q r w)) = outbox w) \<and>
     (\<forall>q r w rsp w1. cx_await cx q r w = (Some rsp, w1) \<longrightarrow> rp_id rsp = rq_id r)"

lemma stream_read:
  assumes "stream_laws cx inbox outbox"
  shows "inbox w = [] \<Longrightarrow> \<exists>w1. cx_read_line cx w = (Inr [], w1) \<and> inbox w1 = [] \<and> outbox w1 = outbox w"
    "inbox w = l # ls \<Longrightarrow> \<exists>w1. cx_read_line cx w = (Inr l, w1) \<and> inbox w1 = ls \<and> outbox w1 = outbox w"
proof -
  have "case inbox w of
        [] \<Rightarrow> \<exists>w1. cx_read_line cx w = (Inr [], w1) \<and> inbox w1 = [] \<and> outbox w1 = outbox w
      | l # ls \<Rightarrow> \<exists>w1. cx_read_line cx w = (Inr l, w1) \<and> inbox w1 = ls \<and> outbox w1 = outbox w"
    using assms unfolding stream_laws_def by blast
  then show "inbox w = [] \<Longrightarrow> \<exists>w1. cx_read_line cx w = (Inr [], w1) \<and> inbox w1 = [] \<and> outbox w1 = outbox w"
    "inbox w = l # ls \<Longrightarrow> \<exists>w1. cx_read_line cx w = (Inr l, w1) \<and> inbox w1 = ls \<and> outbox w1 = outbox w"
    by simp_all
qed

lemma stream_write:
  "stream_laws cx inbox outbox \<Longrightarrow>
     \<exists>w1. cx_write cx m w = (Inr (), w1) \<and> inbox w1 = inbox w \<and> outbox w1 = outbox w @ [m]"
  unfolding stream_laws_def by blast

lemma stream_submit:
  "stream_laws cx inbox outbox \<Longrightarrow> cx_submit cx q r w = (ok, w1) \<Longrightarrow> inbox w1 = inbox w \<and> outbox w1 = outbox w"
  unfolding stream_laws_def by (metis snd_conv)

lemma stream_await:
  "stream_laws cx inbox outbox \<Longrightarrow> cx_await cx q r w = (a, w1) \<Longrightarrow>
     inbox w1 = inbox w \<and> outbox w1 = outbox w \<and> (\<forall>rsp. a = Some rsp \<longrightarrow> rp_id rsp = rq_id r)"
  unfolding stream_laws_def by (metis snd_conv)

lemma stream_uuid:
  "stream_laws cx inbox outbox \<Longrightarrow> cx_uuid cx w = (i, w1) \<Longrightarrow> inbox w1 = inbox w \<and> outbox w1 = outbox w"
  unfolding stream_laws_def by (metis snd_conv)

definition answers_line :: "('w, 'e) connection_sys \<Rightarrow> string \<Rightarrow> string \<Rightarrow> bool" where
  \<comment> \<open>A reply to a line: the text of a response, under the identifier of the request if it is one.\<close>
  "answers_line cx line reply \<longleftrightarrow> (\<exists>rsp. reply = reply_text cx rsp \<and>
     (case cx_parse cx (trim_end line) of
        Inr rq \<Rightarrow> rp_id rsp = rq_id rq
      | Inl err \<Rightarrow> \<not> rp_success rsp \<and> rp_error rsp = Some (InvalidJson err)))"

lemma served_response_answers:
  assumes laws: "stream_laws cx inbox outbox" and run: "served_response cx target line w = (rsp, u)"
  shows "inbox u = inbox w \<and> outbox u = outbox w \<and> answers_line cx line (reply_text cx rsp)"
proof (cases "cx_parse cx (trim_end line)")
  case (Inl err)
  obtain i w1 where i: "cx_uuid cx w = (i, w1)" by fastforce
  then show ?thesis
    using run Inl stream_uuid[OF laws i] by (auto simp: served_response_def answers_line_def response_err_def)
next
  case (Inr rq)
  obtain ok w1 where s: "cx_submit cx (target rq) rq w = (ok, w1)" by fastforce
  obtain a w2 where a: "cx_await cx (target rq) rq w1 = (a, w2)" by fastforce
  note f = stream_submit[OF laws s] stream_await[OF laws a]
  show ?thesis
    using run Inr s a f by (cases ok; cases a) (auto simp: served_response_def answers_line_def response_err_def)
qed


text \<open>A task that answers every request with \<open>Ack\<close>, on lists of lines.\<close>

definition list_stream :: "(string list \<times> string list, nat) connection_sys" where
  "list_stream = \<lparr>
     cx_read_line = (\<lambda>(is, os). case is of [] \<Rightarrow> (Inr [], (is, os)) | l # ls \<Rightarrow> (Inr l, (ls, os))),
     cx_write = (\<lambda>m (is, os). (Inr (), (is, os @ [m]))),
     cx_parse = (\<lambda>l. if l = ''close'' then Inr \<lparr>rq_id = 7, rq_action = RInstance IClose\<rparr> else Inl l),
     cx_show = (\<lambda>rsp. Inr (if rp_success rsp then ''ok'' else ''error'')),
     cx_uuid = (\<lambda>w. (0, w)),
     cx_submit = (\<lambda>_ _ w. (True, w)),
     cx_await = (\<lambda>_ r w. (Some (response_ok (rq_id r) Ack), w))\<rparr>"

lemma list_stream_laws: "stream_laws list_stream fst snd"
  by (auto simp: stream_laws_def list_stream_def response_ok_def split: list.splits)


section \<open>The tasks\<close>

text \<open>
  For each pass of a loop: what arrived in the queues before it, and what ended the wait at its end,
  if it waits. A message that ends a wait is handled at once. A run is followed until the task ends.
\<close>

datatype wake = WakeWorker request | WakeNormal request | WakeSleep | WakeWorkerClosed | WakeNormalClosed

record pass =
  ps_workers :: "request list"
  ps_normals :: "request list"
  ps_wake :: wake
  ps_other_closed :: bool  \<comment> \<open>whether the other queue is closed when one ends\<close>

definition on_wake :: "'w daemon_sys \<Rightarrow> pass \<Rightarrow> 'w daemon \<Rightarrow> bool \<times> daemon_error response list \<times> 'w daemon" where
  \<comment> \<open>The \<open>select\<close>: whether the loop ends, the response sent, and the state.\<close>
  "on_wake sys p s = (case ps_wake p of
      WakeWorker rq \<Rightarrow> (case handle_action sys rq s of (rsp, s1) \<Rightarrow> (False, [rsp], s1))
    | WakeNormal rq \<Rightarrow> (case handle_action sys rq s of (rsp, s1) \<Rightarrow> (False, [rsp], s1))
    | WakeSleep \<Rightarrow> (False, [], s)
    | WakeWorkerClosed \<Rightarrow> (ps_other_closed p, [], s)
    | WakeNormalClosed \<Rightarrow> (ps_other_closed p, [], s))"

fun run_tick_task ::
    "'w daemon_sys \<Rightarrow> pass list \<Rightarrow> request list \<Rightarrow> request list \<Rightarrow> 'w daemon \<Rightarrow>
     (daemon_error response list \<times> 'w daemon) option" where
  "run_tick_task sys [] workers normals s = None"
| "run_tick_task sys (p # ps) workers normals s =
     (case tick_turn sys (workers @ ps_workers p) (normals @ ps_normals p) s of
        (Stop, rsps, _, _, s1) \<Rightarrow> Some (rsps, s1)
      | (Yield, rsps, ws, ns, s1) \<Rightarrow>
          map_option (\<lambda>(more, u). (rsps @ more, u)) (run_tick_task sys ps ws ns s1)
      | (Wait _, rsps, ws, ns, s1) \<Rightarrow> (case on_wake sys p s1 of
            (True, r, s2) \<Rightarrow> Some (rsps @ r, s2)
          | (False, r, s2) \<Rightarrow>
              map_option (\<lambda>(more, u). (rsps @ r @ more, u)) (run_tick_task sys ps ws ns s2)))"

datatype env_wake = EnvReceived request | EnvSlept | EnvChannelGone

fun run_actor_task ::
    "'w env_sys \<Rightarrow> (request list \<times> env_wake) list \<Rightarrow> request list \<Rightarrow> 'w env \<Rightarrow>
     (env_error response list \<times> 'w env) option" where
  "run_actor_task sys [] queue s = None"
| "run_actor_task sys ((arrived, wake) # ps) queue s = (case env_turn sys (queue @ arrived) s of
        (Stop, rsps, _, s1) \<Rightarrow> Some (rsps, s1)
      | (Yield, rsps, q, s1) \<Rightarrow> map_option (\<lambda>(more, u). (rsps @ more, u)) (run_actor_task sys ps q s1)
      | (Wait _, rsps, q, s1) \<Rightarrow> (case wake of
            EnvReceived rq \<Rightarrow> (case handle_env_action sys rq s1 of (rsp, s2) \<Rightarrow>
              map_option (\<lambda>(more, u). (rsps @ rsp # more, u)) (run_actor_task sys ps q s2))
          | EnvSlept \<Rightarrow> map_option (\<lambda>(more, u). (rsps @ more, u)) (run_actor_task sys ps q s1)
          | EnvChannelGone \<Rightarrow> Some (rsps, s1)))"

section \<open>The listeners\<close>

datatype select_event =
  ShutdownChanged bool  \<comment> \<open>with the new value\<close>
| ShutdownSenderGone
| Accepted
| AcceptFailed

fun accept_loop :: "select_event list \<Rightarrow> (nat \<times> bool) option" where
  \<comment> \<open>How many connections were taken and whether an \<open>accept\<close> failed, once the loop ends.\<close>
  "accept_loop [] = None"
| "accept_loop (ev # evs) = (case ev of
      ShutdownChanged v \<Rightarrow> if v then Some (0, False) else accept_loop evs
    | ShutdownSenderGone \<Rightarrow> Some (0, False)
    | Accepted \<Rightarrow> map_option (\<lambda>(n, failed). (Suc n, failed)) (accept_loop evs)
    | AcceptFailed \<Rightarrow> Some (0, True))"

datatype listener_error =
  ListenerDir
| ListenerBind bind_error
| ListenerMarker
| ListenerPidFile
| ListenerEnvTag
| ListenerAccept
| ListenerBootstrap boot_error

definition check_io :: "('w \<Rightarrow> bool \<times> 'w) \<Rightarrow> 'e \<Rightarrow> ('w, 'e, unit) act" where
  "check_io f e w = (case f w of (ok, w1) \<Rightarrow> (guard_err (\<not> ok) e, w1))"

definition daemon_claim ::
    "'w host \<Rightarrow> 'w ipc_sys \<Rightarrow> platform \<Rightarrow> string \<Rightarrow> string \<Rightarrow> string option \<Rightarrow> string \<Rightarrow>
     ('w, listener_error, unit) act" where
  \<comment> \<open>\<open>run_listener\<close> of the instance daemon up to the start of its task.\<close>
  "daemon_claim h ip pf parent session env socket =
     a_bind (check_io (h_mkdir h parent) ListenerDir) (\<lambda>_.
     a_bind (a_map_err ListenerBind (bind_listener ip socket)) (\<lambda>_.
     a_bind (check_io (create_endpoint_marker pf ip socket) ListenerMarker) (\<lambda>_.
     a_bind (check_io (h_write h (pid_path h session) (h_own_pid h)) ListenerPidFile) (\<lambda>_.
     a_map_err (\<lambda>_. ListenerEnvTag) (write_env_tag h session env)))))"

definition daemon_release :: "'w host \<Rightarrow> 'w ipc_sys \<Rightarrow> string \<Rightarrow> string \<Rightarrow> 'w \<Rightarrow> 'w" where
  \<comment> \<open>What \<open>run_listener\<close> removes once its task has ended.\<close>
  "daemon_release h ip session socket w =
     remove_env_tag h session (remove_if_there h (pid_path h session) (cleanup_endpoint ip socket w))"

definition daemon_run_listener ::
    "'w host \<Rightarrow> 'w ipc_sys \<Rightarrow> platform \<Rightarrow> 'w daemon_sys \<Rightarrow> string \<Rightarrow> string \<Rightarrow> string \<Rightarrow> 'w project \<Rightarrow>
     string option \<Rightarrow> pass list \<Rightarrow> select_event list \<Rightarrow> 'w \<Rightarrow> ((listener_error + unit) \<times> 'w) option" where
  "daemon_run_listener h ip pf sys parent session socket project env passes events w =
     (case daemon_claim h ip pf parent session env socket w of
        (Inl e, w1) \<Rightarrow> Some (Inl e, w1)
      | (Inr _, w1) \<Rightarrow> (case accept_loop events of
          None \<Rightarrow> None
        | Some (_, failed) \<Rightarrow>
            (case run_tick_task sys passes [] [] (daemon_new session socket project env w1) of
               None \<Rightarrow> None
             | Some (_, s) \<Rightarrow>
                 Some (guard_err failed ListenerAccept, daemon_release h ip session socket (dm_world s)))))"

definition cleanup_listener_runtime ::
    "'w host \<Rightarrow> 'w ipc_sys \<Rightarrow> 'w boot_sys \<Rightarrow> 'w env \<Rightarrow> 'w" where
  "cleanup_listener_runtime h ip sys s = (case shutdown_instances (bs_env sys) s of (left, s1) \<Rightarrow>
     remove_if_there h (env_pid_path h (ev_name s))
       (cleanup_endpoint ip (ev_socket_path s) (fold (bs_kill sys) left (ev_world s1))))"

definition on_env_world :: "('w, listener_error, unit) act \<Rightarrow> ('w env, listener_error, unit) act" where
  "on_env_world f s = (case f (ev_world s) of (r, w1) \<Rightarrow> (r, s\<lparr>ev_world := w1\<rparr>))"

definition env_claim ::
    "'w host \<Rightarrow> 'w ipc_sys \<Rightarrow> platform \<Rightarrow> string \<Rightarrow> ('w env, listener_error, unit) act" where
  "env_claim h ip pf socket =
     a_bind (on_env_world (a_map_err ListenerBind (bind_listener ip socket))) (\<lambda>_.
     a_bind (on_env_world (check_io (create_endpoint_marker pf ip socket) ListenerMarker)) (\<lambda>_ s.
     on_env_world (check_io (h_write h (env_pid_path h (ev_name s)) (h_own_pid h)) ListenerPidFile) s))"

definition env_run_listener ::
    "'w host \<Rightarrow> 'w ipc_sys \<Rightarrow> platform \<Rightarrow> 'w boot_sys \<Rightarrow> string \<Rightarrow> string \<Rightarrow> env_spec \<Rightarrow>
     (request list \<times> env_wake) list \<Rightarrow> select_event list \<Rightarrow> 'w \<Rightarrow> ((listener_error + unit) \<times> 'w) option" where
  "env_run_listener h ip pf sys parent socket sp passes events w =
     (case check_io (h_mkdir h parent) ListenerDir w of
        (Inl e, w1) \<Rightarrow> Some (Inl e, w1)
      | (Inr _, w1) \<Rightarrow> (case bootstrap sys socket sp w1 of
          (Inl e, w2) \<Rightarrow> Some (Inl (ListenerBootstrap e), w2)
        | (Inr s, w2) \<Rightarrow> (case env_claim h ip pf socket (s\<lparr>ev_world := w2\<rparr>) of
            (Inl e, s1) \<Rightarrow> Some (Inl e, cleanup_listener_runtime h ip sys s1)
          | (Inr _, s1) \<Rightarrow> (case accept_loop events of
              None \<Rightarrow> None
            | Some (_, failed) \<Rightarrow> (case run_actor_task (bs_env sys) passes [] s1 of
                None \<Rightarrow> None
              | Some (_, s2) \<Rightarrow>
                  Some (guard_err failed ListenerAccept, cleanup_listener_runtime h ip sys s2))))))"

section \<open>What a listener leaves behind\<close>

text \<open>The file calls of the host and of the sockets are the same; removing a file removes that file.\<close>

definition file_laws :: "'w host \<Rightarrow> 'w ipc_sys \<Rightarrow> bool" where
  "file_laws h ip \<longleftrightarrow> ip_exists ip = h_exists h \<and> ip_remove ip = h_remove h \<and>
     (\<forall>p q w. h_exists h q (snd (h_remove h p w)) \<longleftrightarrow> q \<noteq> p \<and> h_exists h q w)"

lemma remove_if_there_exists:
  "file_laws h ip \<Longrightarrow> h_exists h q (remove_if_there h p w) \<longleftrightarrow> q \<noteq> p \<and> h_exists h q w"
  by (auto simp: file_laws_def remove_if_there_def remove_quietly_def)

lemma cleanup_endpoint_exists:
  "file_laws h ip \<Longrightarrow> h_exists h q (cleanup_endpoint ip p w) \<longleftrightarrow> q \<noteq> p \<and> h_exists h q w"
  by (auto simp: file_laws_def cleanup_endpoint_def)

lemma check_io_Inl: "check_io f e w = (Inl e', u) \<Longrightarrow> e' = e"
  by (simp add: check_io_def guard_err_def split: prod.splits if_splits)

lemma a_map_err_is_Inl: "a_map_err g m w = (Inl e, u) \<Longrightarrow> \<exists>x. e = g x"
  by (auto simp: a_map_err_def map_err_Inl split: prod.splits)

text \<open>
  An instance daemon that stops cleans up. When its task has ended, by a request to close, by a failed
  tick or because no connection could be taken any more, its endpoint, its pid file and its
  environment tag are gone.
\<close>

theorem daemon_listener_cleans_up:
  assumes laws: "file_laws h ip"
    and run: "daemon_run_listener h ip pf sys parent session socket project env passes events w = Some (r, u)"
    and stopped: "r = Inr () \<or> r = Inl ListenerAccept"
  shows "\<not> h_exists h socket u \<and> \<not> h_exists h (pid_path h session) u \<and> \<not> h_exists h (meta_path h session) u"
proof -
  have claim: "e \<noteq> ListenerAccept" if "daemon_claim h ip pf parent session env socket w = (Inl e, w1)" for e w1
    using that unfolding daemon_claim_def a_bind_cases by (auto dest: check_io_Inl a_map_err_is_Inl)
  obtain w0 where "u = daemon_release h ip session socket w0"
    using run stopped claim
    by (auto simp: daemon_run_listener_def split: prod.splits sum.splits option.splits)
  then show ?thesis
    by (simp add: daemon_release_def remove_env_tag_def remove_if_there_exists[OF laws] cleanup_endpoint_exists[OF laws])
qed

section \<open>A second environment daemon\<close>

lemma keeps_socket [keeps]:
  "a_keeps (\<lambda>s. ev_socket_path s = c) (b_world f m)"
  "a_keeps (\<lambda>s. ev_socket_path s = c) (begin_request es n action)"
  by (auto simp: a_keeps_def b_world_def begin_request_def split: prod.splits option.splits)

lemma keeps_socket_mod:
  "(\<And>s. ev_socket_path (g s) = ev_socket_path s) \<Longrightarrow> a_keeps (\<lambda>s. ev_socket_path s = c) (a_mod g)"
  by (simp add: a_keeps_def)

lemma keeps_socket_buses: "a_keeps (\<lambda>s. ev_socket_path s = c) (build_buses sys ib attached bs)"
proof (induction bs arbitrary: attached)
  case (Cons b bs)
  have "a_keeps (\<lambda>s. ev_socket_path s = c) (build_bus sys ib attached b)" for attached
    unfolding build_bus_def load_bus_dbc_def case_prod_beta
    by (intro keeps keeps_socket_mod) (auto simp: a_keeps_def split: option.splits)
  then show ?case using Cons unfolding build_buses.simps by (intro keeps)
qed (simp add: keeps)

lemma bootstrap_socket: "bootstrap sys socket sp w = (Inr s, w1) \<Longrightarrow> ev_socket_path s = socket"
proof -
  have "a_keeps (\<lambda>s. ev_socket_path s = socket) (bootstrap_connected sys sp)"
    unfolding bootstrap_connected_def Let_def connect_worker_def ask_members_def begin_all_def
      attach_members_def attach_member_def await_ack_def await_def
    by (intro keeps keeps_socket_mod keeps_socket_buses) simp_all
  then have "ev_socket_path (snd (bootstrap_connected sys sp (env_new sp socket v))) = socket" for v
    by (rule a_keepsD) (simp add: env_new_def)
  then show "bootstrap sys socket sp w = (Inr s, w1) \<Longrightarrow> ev_socket_path s = socket"
    by (auto simp: bootstrap_def bootstrap_inner_def split: prod.splits sum.splits option.splits)
      (metis snd_conv)+
qed

text \<open>
  A second environment daemon cuts the first one off. When another daemon listens on the endpoint of
  an environment, a second one that got as far as binding fails, as it should, but on its way out it
  removes the endpoint: the daemon that lives can no longer be reached.
\<close>

theorem failed_env_start_removes_live_endpoint:
  assumes laws: "ipc_laws ip socket st" and dir: "check_io (h_mkdir h parent) ListenerDir w = (Inr (), w1)"
    and boot: "bootstrap sys socket sp w1 = (Inr s, w2)" and live: "st w2 = LiveEndpoint"
    and pid: "\<And>v. st (snd (h_remove h (env_pid_path h (ev_name s)) v)) = st v"
  shows "\<exists>e u. env_run_listener h ip pf sys parent socket sp passes events w = Some (Inl (ListenerBind e), u) \<and>
    is_bind_conflict e \<and> st u = FreeEndpoint"
proof -
  obtain r w3 where b: "bind_listener ip socket w2 = (r, w3)" by fastforce
  have "\<not> is_ok (fst (bind_listener ip socket w2))" using bind_listener_takes_stale[OF laws, of w2] live by blast
  then obtain e where r: "r = Inl e" using b by (cases r) auto
  have conflict: "is_bind_conflict e"
  proof (rule listener_bind_cases[OF laws, of w2])
    show "is_bind_conflict e" if "st w2 = FreeEndpoint" using that live by simp
    fix e' v assume l: "listener_bind ip socket w2 = (Inl e', v)" "is_bind_conflict e'"
    have over: "is_ok (fst (bind_over ip socket x))" for x using bind_over_live[OF laws, of x] by auto
    show "is_bind_conflict e"
      using l b r over[of "snd (ipc_connect ip socket v)"]
      by (cases "ipc_connect ip socket v") (auto simp: bind_listener_def split: bool.splits)
  qed
  let ?s = "s\<lparr>ev_world := w3\<rparr>"
  have claim: "env_claim h ip pf socket (s\<lparr>ev_world := w2\<rparr>) = (Inl (ListenerBind e), ?s)"
    using b r by (simp add: env_claim_def on_env_world_def a_bind_def a_map_err_def)
  have sock: "ev_socket_path s = socket" by (rule bootstrap_socket[OF boot])
  have free: "st (cleanup_endpoint ip socket v) = FreeEndpoint" for v
    using laws by (auto simp: cleanup_endpoint_def ipc_laws_def)
  have "st (cleanup_listener_runtime h ip sys ?s) = FreeEndpoint"
    using pid free sock
    by (auto simp: cleanup_listener_runtime_def remove_if_there_def remove_quietly_def split: prod.split)
  then show ?thesis
    using dir boot claim conflict by (auto simp: env_run_listener_def)
qed

end
