(* ===== verification/Task_Runs.thy ===== *)
theory Task_Runs
  imports Listeners Daemon_Progress Env_Properties
begin

text \<open>
  The task loops of \<open>Listeners\<close> against the step relations of \<open>Daemon_Progress\<close> and \<open>Env_Safety\<close>: every
  pass of a loop is a sequence of steps, so what holds in every reachable state holds whenever a task
  ends, however requests, ticks and waits followed each other.
\<close>

section \<open>The instance daemon\<close>

lemma batch_steps:
  "process_action_batch sys n queue s = (rsps, rest, u) \<Longrightarrow> (daemon_step sys)\<^sup>*\<^sup>* s u"
proof (induction sys n queue s arbitrary: rsps rest u rule: process_action_batch.induct)
  case (3 sys n rq queue s)
  obtain rsp s1 where h: "handle_action sys rq s = (rsp, s1)" by fastforce
  have one: "daemon_step sys s s1" using ds_action[of sys s rq] h by simp
  show ?case
  proof (cases "dm_shutdown s1")
    case True
    then show ?thesis using 3(2) h one by auto
  next
    case False
    obtain rs q t where r: "process_action_batch sys n queue s1 = (rs, q, t)" by (metis prod_cases3)
    then have "(daemon_step sys)\<^sup>*\<^sup>* s1 t" using 3(1)[OF h[symmetric] False r] by simp
    moreover have "t = u" using 3(2) h False r by simp
    ultimately show ?thesis using one by (metis converse_rtranclp_into_rtranclp)
  qed
qed auto

lemma tick_turn_steps:
  assumes "tick_turn sys ws ns s = (e, rsps, ws', ns', u)"
  shows "(daemon_step sys)\<^sup>*\<^sup>* s u"
proof -
  obtain r1 w1 s1 where 1: "process_action_batch sys MAX_WORKER_ACTIONS_PER_TURN ws s = (r1, w1, s1)" by (metis prod_cases3)
  obtain r2 n2 s2 where 2: "process_action_batch sys MAX_NORMAL_ACTIONS_PER_TURN ns s1 = (r2, n2, s2)" by (metis prod_cases3)
  have reach: "(daemon_step sys)\<^sup>*\<^sup>* s s2" using batch_steps[OF 1] batch_steps[OF 2] by simp
  have "u = s2 \<or> u = run_backlog sys (poll_backlog sys s2)"
    using assms 1 2 by (auto simp: tick_turn_def Let_def split: if_splits)
  then show ?thesis
    using reach by (auto intro: rtranclp.rtrancl_into_rtrancl ds_poll ds_run)
qed

lemma on_wake_steps: "on_wake sys p s = (stop, rsps, u) \<Longrightarrow> (daemon_step sys)\<^sup>*\<^sup>* s u"
  using ds_action[of sys s]
  by (auto simp: on_wake_def split: wake.splits prod.splits) (metis r_into_rtranclp snd_conv)+

lemma run_tick_task_steps:
  "run_tick_task sys ps ws ns s = Some (rsps, u) \<Longrightarrow> (daemon_step sys)\<^sup>*\<^sup>* s u"
proof (induction ps arbitrary: ws ns s rsps)
  case (Cons p ps)
  obtain e r ws' ns' s1 where t: "tick_turn sys (ws @ ps_workers p) (ns @ ps_normals p) s = (e, r, ws', ns', s1)"
    by (metis prod_cases5)
  note first = tick_turn_steps[OF t]
  show ?case
  proof (cases e)
    case Stop
    then show ?thesis using Cons.prems t first by simp
  next
    case Yield
    then obtain more where "run_tick_task sys ps ws' ns' s1 = Some (more, u)" using Cons.prems t by auto
    then show ?thesis using Cons.IH first by (metis rtranclp_trans)
  next
    case (Wait d)
    obtain stop r2 s2 where w: "on_wake sys p s1 = (stop, r2, s2)" by (metis prod_cases3)
    note second = on_wake_steps[OF w]
    show ?thesis
    proof (cases stop)
      case True
      then show ?thesis using Cons.prems t Wait w first second by simp
    next
      case False
      then obtain more where "run_tick_task sys ps ws' ns' s2 = Some (more, u)" using Cons.prems t Wait w by auto
      then show ?thesis using Cons.IH first second by (metis rtranclp_trans)
    qed
  qed
qed simp

text \<open>
  From the library to the last request. A daemon whose project was loaded and that was started on it
  satisfies the daemon's invariant when its task ends, whatever requests arrived in whichever order
  and however ticks and waits fell between them.
\<close>

theorem daemon_lifetime_sound:
  assumes load: "project_load open_library path flash w = (Inr p, w1)"
    and run: "run_tick_task sys passes [] [] (daemon_new session socket p env w2) = Some (rsps, u)"
  shows "daemon_ok p env u"
proof -
  note inv = project_load_inv[OF load]
  show ?thesis using run_tick_task_steps[OF run]
    by (induction rule: rtranclp_induct) (auto intro: daemon_ok_new daemon_step_ok[OF inv])
qed

section \<open>The environment daemon\<close>

lemma env_batch_steps:
  "process_env_action_batch sys n queue s = (rsps, rest, u) \<Longrightarrow> (env_step sys)\<^sup>*\<^sup>* s u"
proof (induction sys n queue s arbitrary: rsps rest u rule: process_env_action_batch.induct)
  case (3 sys n rq queue s)
  obtain rsp s1 where h: "handle_env_action sys rq s = (rsp, s1)" by fastforce
  have one: "env_step sys s s1" using es_action[of sys s rq] h by simp
  show ?case
  proof (cases "ev_shutdown s1")
    case True
    then show ?thesis using 3(2) h one by auto
  next
    case False
    obtain rs q t where r: "process_env_action_batch sys n queue s1 = (rs, q, t)" by (metis prod_cases3)
    then have "(env_step sys)\<^sup>*\<^sup>* s1 t" using 3(1)[OF h[symmetric] False r] by simp
    moreover have "t = u" using 3(2) h False r by simp
    ultimately show ?thesis using one by (metis converse_rtranclp_into_rtranclp)
  qed
qed auto

lemma env_turn_steps:
  assumes "env_turn sys queue s = (e, rsps, rest, u)"
  shows "(env_step sys)\<^sup>*\<^sup>* s u"
proof -
  obtain r1 q1 s1 where 1: "process_env_action_batch sys MAX_ENV_ACTIONS_PER_TURN queue s = (r1, q1, s1)"
    by (metis prod_cases3)
  have "u = s1 \<or> u = run_env_backlog sys (poll_env_backlog sys s1)"
    using assms 1 by (auto simp: env_turn_def Let_def split: if_splits)
  then show ?thesis
    using env_batch_steps[OF 1] by (auto intro: rtranclp.rtrancl_into_rtrancl es_poll es_run)
qed

lemma run_actor_task_steps:
  "run_actor_task sys ps queue s = Some (rsps, u) \<Longrightarrow> (env_step sys)\<^sup>*\<^sup>* s u"
proof (induction ps arbitrary: queue s rsps)
  case (Cons pw ps)
  obtain arrived wake where p: "pw = (arrived, wake)" by fastforce
  obtain e r q s1 where t: "env_turn sys (queue @ arrived) s = (e, r, q, s1)" by (metis prod_cases4)
  note first = env_turn_steps[OF t]
  show ?case
  proof (cases e)
    case Stop
    then show ?thesis using Cons.prems t first p by simp
  next
    case Yield
    then obtain more where "run_actor_task sys ps q s1 = Some (more, u)" using Cons.prems t p by auto
    then show ?thesis using Cons.IH first by (metis rtranclp_trans)
  next
    case (Wait d)
    show ?thesis
    proof (cases wake)
      case (EnvReceived rq)
      obtain rsp s2 where h: "handle_env_action sys rq s1 = (rsp, s2)" by fastforce
      then obtain more where "run_actor_task sys ps q s2 = Some (more, u)"
        using Cons.prems t p Wait EnvReceived by auto
      moreover have "env_step sys s1 s2" using es_action[of sys s1 rq] h by simp
      ultimately show ?thesis using Cons.IH first by (metis rtranclp_trans converse_rtranclp_into_rtranclp)
    next
      case EnvSlept
      then obtain more where "run_actor_task sys ps q s1 = Some (more, u)" using Cons.prems t p Wait by auto
      then show ?thesis using Cons.IH first by (metis rtranclp_trans)
    next
      case EnvChannelGone
      then show ?thesis using Cons.prems t p Wait first by simp
    qed
  qed
qed simp

text \<open>The same of an environment that was started from its spec.\<close>

theorem env_lifetime_sound:
  assumes boot: "fst (bootstrap sys path sp w) = Inr s0"
    and run: "run_actor_task (bs_env sys) passes [] s0 = Some (rsps, u)"
  shows "env_ok u"
  using run_actor_task_steps[OF run]
proof (induction rule: rtranclp_induct)
  case base
  obtain w1 started where "bootstrap_connected sys sp (env_new sp path w1) = (Inr (), s0)"
    using boot by (auto simp: bootstrap_def bootstrap_inner_def split: sum.splits prod.splits option.splits)
  then show ?case by (rule a_givesD[OF boot_connected_ok(1) boot_ok_new])
qed (rule env_step_ok)

end
