(* ===== verification/Entry.thy ===== *)
theory Entry
  imports Listeners Recipe
begin

text \<open>
  The entry of the process: \<open>main.rs\<close>, \<open>internal_cli.rs\<close>, \<open>run\<close> of \<open>daemon/mod.rs\<close> and \<open>envd/mod.rs\<close>,
  the spec files that a starter hands to the process it starts (\<open>load/mod.rs\<close>, \<open>envd/spec.rs\<close>), and
  the signals of \<open>process.rs\<close>. The JSON text of a spec is serde's, a pair of parameters.
\<close>

section \<open>Spec files\<close>

datatype spec_error = SpecUnreadable string | SpecNotJson string | SpecNotShown string | SpecUnwritable string

definition read_spec :: "'w host \<Rightarrow> (string \<Rightarrow> 'a option) \<Rightarrow> string \<Rightarrow> 'w \<Rightarrow> spec_error + 'a" where
  "read_spec h parse path w =
     res_bind (ok_or (SpecUnreadable path) (h_read h path w)) (\<lambda>content.
     ok_or (SpecNotJson path) (parse content))"

definition write_spec_file ::
    "'w host \<Rightarrow> ('a \<Rightarrow> string option) \<Rightarrow> string \<Rightarrow> 'a \<Rightarrow> ('w, spec_error, unit) act" where
  "write_spec_file h shown path spec =
     a_bind (a_lift (ok_or (SpecNotShown path) (shown spec))) (\<lambda>content.
     check_io (h_write h path content) (SpecUnwritable path))"

definition read_load_spec ::
    "'w host \<Rightarrow> (string \<Rightarrow> load_spec option) \<Rightarrow> string \<Rightarrow> 'w \<Rightarrow> spec_error + load_spec" where
  "read_load_spec h parse path w = read_spec h parse path w"

definition write_load_spec ::
    "'w host \<Rightarrow> (load_spec \<Rightarrow> string option) \<Rightarrow> string \<Rightarrow> load_spec \<Rightarrow> ('w, spec_error, unit) act" where
  "write_load_spec h shown path spec = write_spec_file h shown path spec"

definition read_env_spec ::
    "'w host \<Rightarrow> (string \<Rightarrow> env_spec option) \<Rightarrow> string \<Rightarrow> 'w \<Rightarrow> spec_error + env_spec" where
  "read_env_spec h parse path w = read_spec h parse path w"

definition write_env_spec ::
    "'w host \<Rightarrow> (env_spec \<Rightarrow> string option) \<Rightarrow> string \<Rightarrow> env_spec \<Rightarrow> ('w, spec_error, unit) act" where
  "write_env_spec h shown path spec = write_spec_file h shown path spec"

section \<open>Internal commands\<close>

datatype internal_command =
  InstanceDaemon string string  \<comment> \<open>instance, path of the load spec\<close>
| BootstrapInstance string string
| EnvDaemon string  \<comment> \<open>path of the environment's spec\<close>

definition parse_from_env_if_internal ::
    "(string list \<Rightarrow> internal_command) \<Rightarrow> string list \<Rightarrow> internal_command option" where
  \<comment> \<open>\<open>clap\<close> reads the arguments without the marker.\<close>
  "parse_from_env_if_internal parse raw_args =
     (if length raw_args \<le> 1 \<or> raw_args ! 1 \<noteq> ''__internal'' then None
      else Some (parse (raw_args ! 0 # drop 2 raw_args)))"

datatype run_error =
  RunSpec spec_error
| RunProject project_error
| RunListener listener_error
| RunBootstrap lifecycle_error

record 'w entry_sys =
  en_host :: "'w host"
  en_ipc :: "'w ipc_sys"
  en_platform :: platform
  en_daemon :: "'w daemon_sys"
  en_boot :: "'w boot_sys"
  en_open_library :: "string \<Rightarrow> 'w sim_library option"
  en_load_spec :: "string \<Rightarrow> load_spec option"
  en_show_load_spec :: "load_spec \<Rightarrow> string option"
  en_env_spec :: "string \<Rightarrow> env_spec option"
  en_passes :: "pass list"  \<comment> \<open>what the scheduler brings the daemon's task\<close>
  en_env_passes :: "(request list \<times> env_wake) list"
  en_events :: "select_event list"
  en_print_error :: "run_error \<Rightarrow> 'w \<Rightarrow> 'w"

definition daemon_run :: "'w entry_sys \<Rightarrow> string \<Rightarrow> load_spec \<Rightarrow> 'w \<Rightarrow> ((run_error + unit) \<times> 'w) option" where
  "daemon_run en session spec w =
     (case project_load (en_open_library en) (ls_libpath spec) (ls_flash spec) w of
        (Inl e, w1) \<Rightarrow> Some (Inl (RunProject e), w1)
      | (Inr project, w1) \<Rightarrow> map_option (\<lambda>(r, u). (map_err RunListener r, u))
          (daemon_run_listener (en_host en) (en_ipc en) (en_platform en) (en_daemon en) (h_root (en_host en))
            session (socket_path (en_host en) session) project (ls_env_tag spec) (en_passes en) (en_events en) w1))"

definition env_run :: "'w entry_sys \<Rightarrow> env_spec \<Rightarrow> 'w \<Rightarrow> ((run_error + unit) \<times> 'w) option" where
  "env_run en sp w = map_option (\<lambda>(r, u). (map_err RunListener r, u))
     (env_run_listener (en_host en) (en_ipc en) (en_platform en) (en_boot en) (env_root (en_host en))
       (env_socket_path (en_host en) (sp_name sp)) sp (en_env_passes en) (en_events en) w)"

definition bootstrap_run :: "'w entry_sys \<Rightarrow> string \<Rightarrow> load_spec \<Rightarrow> 'w \<Rightarrow> ((run_error + unit) \<times> 'w) option" where
  "bootstrap_run en session spec w = map_option (\<lambda>(r, u). (map_err RunBootstrap r, u))
     (bootstrap_daemon (en_host en)
       (\<lambda>path v. case write_load_spec (en_host en) (en_show_load_spec en) path spec v of (r, v1) \<Rightarrow> (is_ok r, v1))
       session w)"

definition exit_with ::
    "'w entry_sys \<Rightarrow> ((run_error + unit) \<times> 'w) option \<Rightarrow> (exit_code \<times> 'w) option" where
  \<comment> \<open>An error is printed and gives exit code 1.\<close>
  "exit_with en out = map_option (\<lambda>(r, w). case r of
      Inl err \<Rightarrow> (1, en_print_error en err w)
    | Inr _ \<Rightarrow> (0, w)) out"

definition with_spec ::
    "'w entry_sys \<Rightarrow> (string \<Rightarrow> 'w \<Rightarrow> spec_error + 'a) \<Rightarrow> string \<Rightarrow>
     ('a \<Rightarrow> 'w \<Rightarrow> ((run_error + unit) \<times> 'w) option) \<Rightarrow> 'w \<Rightarrow> (exit_code \<times> 'w) option" where
  \<comment> \<open>The spec is read and its file removed before anything else is done.\<close>
  "with_spec en reader path body w = (case reader path w of
      Inl e \<Rightarrow> exit_with en (Some (Inl (RunSpec e), w))
    | Inr spec \<Rightarrow> exit_with en (body spec (snd (h_remove (en_host en) path w))))"

definition run_internal :: "'w entry_sys \<Rightarrow> internal_command \<Rightarrow> 'w \<Rightarrow> (exit_code \<times> 'w) option" where
  "run_internal en cmd w = (case cmd of
      BootstrapInstance inst path \<Rightarrow>
        with_spec en (read_load_spec (en_host en) (en_load_spec en)) path (bootstrap_run en inst) w
    | EnvDaemon path \<Rightarrow> with_spec en (read_env_spec (en_host en) (en_env_spec en)) path (env_run en) w
    | InstanceDaemon inst path \<Rightarrow>
        with_spec en (read_load_spec (en_host en) (en_load_spec en)) path (daemon_run en inst) w)"

definition main_entry ::
    "'w entry_sys \<Rightarrow> ('w, 'e) cli_sys \<Rightarrow> (string list \<Rightarrow> internal_command) \<Rightarrow> (string list \<Rightarrow> cli_args) \<Rightarrow>
     string list \<Rightarrow> 'w \<Rightarrow> (exit_code \<times> 'w) option" where
  "main_entry en k parse_internal parse_args raw_args w =
     (case parse_from_env_if_internal parse_internal raw_args of
        Some command \<Rightarrow> run_internal en command w
      | None \<Rightarrow> map_option (\<lambda>(r, u). (case r of Inr code \<Rightarrow> code | Inl _ \<Rightarrow> 1, u))
          (run_with_args k (parse_args raw_args) w))"

text \<open>
  What a starter writes is what the process it starts loads: the spec read from the file is the spec
  written to it, with a JSON library that reads back what it shows, and once it is read the file is
  removed before the daemon does anything else.
\<close>

theorem spec_handed_over:
  assumes codec: "\<And>text. en_show_load_spec en spec = Some text \<Longrightarrow> en_load_spec en text = Some spec"
    and stored: "\<And>p c v v1. h_write (en_host en) p c v = (True, v1) \<Longrightarrow> h_read (en_host en) p v1 = Some c"
    and wrote: "write_load_spec (en_host en) (en_show_load_spec en) path spec w = (Inr (), w1)"
  shows "run_internal en (InstanceDaemon inst path) w1 =
      exit_with en (daemon_run en inst spec (snd (h_remove (en_host en) path w1)))"
proof -
  obtain body where shown: "en_show_load_spec en spec = Some body" "h_write (en_host en) path body w = (True, w1)"
    using wrote
    by (cases "en_show_load_spec en spec")
      (auto simp: write_load_spec_def write_spec_file_def check_io_def guard_err_def split: prod.splits if_splits)
  have "read_load_spec (en_host en) (en_load_spec en) path w1 = Inr spec"
    using codec[OF shown(1)] stored[OF shown(2)] by (simp add: read_load_spec_def read_spec_def)
  then show ?thesis by (simp add: run_internal_def with_spec_def)
qed

section \<open>Signals\<close>

text \<open>
  \<open>kill_pid\<close> and \<open>pid_exists\<close>. On Unix both call \<open>kill\<close> with the identifier as a signed 32-bit number;
  on Windows they open a handle, which is closed on every way out.
\<close>

record 'w unix_calls =
  uc_kill :: "int \<Rightarrow> int \<Rightarrow> 'w \<Rightarrow> int \<times> 'w"  \<comment> \<open>process, signal\<close>
  uc_errno :: "'w \<Rightarrow> int option"

definition SIGKILL :: int where "SIGKILL = 9"
definition ESRCH :: int where "ESRCH = 3"
definition EPERM :: int where "EPERM = 1"

definition unix_kill_pid :: "'w unix_calls \<Rightarrow> u32 \<Rightarrow> ('w, int option, unit) act" where
  "unix_kill_pid uc pid w = (case uc_kill uc (sint pid) SIGKILL w of (r, w1) \<Rightarrow>
     (if r = 0 then Inr () else Inl (uc_errno uc w1), w1))"

definition unix_pid_exists :: "'w unix_calls \<Rightarrow> u32 \<Rightarrow> ('w, int option, bool) act" where
  "unix_pid_exists uc pid w = (case uc_kill uc (sint pid) 0 w of (r, w1) \<Rightarrow>
     (if r = 0 then Inr True
      else case uc_errno uc w1 of
        Some code \<Rightarrow> if code = ESRCH then Inr False else if code = EPERM then Inr True else Inl (Some code)
      | None \<Rightarrow> Inl None, w1))"

datatype access_right = ProcessTerminate | ProcessQuery

record 'w windows_calls =
  wc_open :: "access_right \<Rightarrow> u32 \<Rightarrow> 'w \<Rightarrow> nat option \<times> 'w"  \<comment> \<open>a handle, \<open>None\<close> for null\<close>
  wc_terminate :: "nat \<Rightarrow> 'w \<Rightarrow> bool \<times> 'w"
  wc_close :: "nat \<Rightarrow> 'w \<Rightarrow> 'w"
  wc_last_error :: "'w \<Rightarrow> int option"

definition ERROR_ACCESS_DENIED :: int where "ERROR_ACCESS_DENIED = 5"

definition windows_kill_pid :: "'w windows_calls \<Rightarrow> u32 \<Rightarrow> ('w, int option, unit) act" where
  "windows_kill_pid wc pid w = (case wc_open wc ProcessTerminate pid w of
      (None, w1) \<Rightarrow> (Inl (wc_last_error wc w1), w1)
    | (Some handle, w1) \<Rightarrow> (case wc_terminate wc handle w1 of (terminated, w2) \<Rightarrow>
        let terminate_error = (if terminated then None else Some (wc_last_error wc w2));
            w3 = wc_close wc handle w2
        in (case terminate_error of Some err \<Rightarrow> (Inl err, w3) | None \<Rightarrow> (Inr (), w3))))"

definition windows_pid_exists :: "'w windows_calls \<Rightarrow> u32 \<Rightarrow> ('w, int option, bool) act" where
  "windows_pid_exists wc pid w = (case wc_open wc ProcessQuery pid w of
      (None, w1) \<Rightarrow>
        ((case wc_last_error wc w1 of
            Some code \<Rightarrow> if code = ERROR_ACCESS_DENIED then Inr True else Inr False
          | None \<Rightarrow> Inl None), w1)
    | (Some handle, w1) \<Rightarrow> (Inr True, wc_close wc handle w1))"

text \<open>Whom \<open>kill(2)\<close> signals.\<close>

datatype kill_target = OneProcess nat | OwnGroup | Everyone | ProcessGroup nat

definition kill_target_of :: "int \<Rightarrow> kill_target" where
  "kill_target_of p =
     (if 0 < p then OneProcess (nat p) else if p = 0 then OwnGroup
      else if p = - 1 then Everyone else ProcessGroup (nat (- p)))"

lemma unat_lt_2_32: "unat (v :: u32) < 2 ^ 32"
  using unsigned_less[of v] by simp

lemma sint_u32: "sint (pid :: u32) = (if unat pid < 2 ^ 31 then int (unat pid) else int (unat pid) - 2 ^ 32)"
proof -
  have b: "unat pid < 2 ^ 32" by (rule unat_lt_2_32)
  have s: "sint pid = signed_take_bit 31 (int (unat pid))"
    by (simp add: sint_uint)
  show ?thesis
  proof (cases "unat pid < 2 ^ 31")
    case True
    then have "int (unat pid) < int (2 ^ 31)" by (simp only: of_nat_less_iff)
    then have "int (unat pid) < 2 ^ 31" by (simp only: of_nat_power of_nat_numeral)
    then have "signed_take_bit 31 (int (unat pid)) = int (unat pid)"
      by (intro signed_take_bit_int_eq_self) (simp_all add: order_trans[OF _ uint_ge_0])
    then show ?thesis using s True by simp
  next
    case False
    have wrap: "signed_take_bit 31 m = m - 2 ^ 32" if "2147483648 \<le> m" "m < 4294967296" for m :: int
    proof -
      have "(m + 2147483648) mod 4294967296 = (m - 2147483648) mod 4294967296"
        using minus_mod_self2[of "m + 2147483648" 4294967296] by simp
      also have "\<dots> = m - 2147483648" using that by (intro mod_pos_pos_trivial) simp_all
      finally have "(m + 2147483648) mod 4294967296 = m - 2147483648" .
      then show ?thesis by (simp add: signed_take_bit_eq_take_bit_shift take_bit_eq_mod)
    qed
    have "int (2 ^ 31) \<le> int (unat pid)" "int (unat pid) < int (2 ^ 32)"
      using False b by (simp_all only: of_nat_less_iff of_nat_le_iff not_less)
    then have "sint pid = int (unat pid) - 2 ^ 32" using s wrap[of "int (unat pid)"] by simp
    then show ?thesis using False by simp
  qed
qed

text \<open>
  Whom \<open>kill_pid\<close> kills. The identifier names one process exactly when it is between 1 and 2^31 - 1;
  0 names the caller's own process group, 2^32 - 1 every process, and any other a process group. A pid
  file may hold any of them: \<open>read_pid\<close> accepts every 32-bit number.
\<close>

theorem kill_pid_targets:
  fixes pid :: u32
  shows "(kill_target_of (sint pid) = OneProcess (unat pid) \<longleftrightarrow> 0 < unat pid \<and> unat pid < 2 ^ 31) \<and>
   kill_target_of (sint (0 :: u32)) = OwnGroup \<and> kill_target_of (sint (2 ^ 32 - 1 :: u32)) = Everyone \<and>
   (h_read h file w = Some (show_nat (unat pid)) \<longrightarrow> read_pid h file w = Some pid)"
proof -
  have "unat pid < 2 ^ 32" by (rule unat_lt_2_32)
  moreover have "kill_target_of (if n < 2 ^ 31 then int n else int n - 2 ^ 32) = OneProcess n \<longleftrightarrow> 0 < n \<and> n < 2 ^ 31"
    if "n < 2 ^ 32" for n :: nat
    using that by (auto simp: kill_target_of_def)
  ultimately have "kill_target_of (sint pid) = OneProcess (unat pid) \<longleftrightarrow> 0 < unat pid \<and> unat pid < 2 ^ 31"
    unfolding sint_u32 by blast
  moreover have "parse_u32 (show_nat (unat pid)) = Some pid"
    using parse_unsigned_show_nat[OF unat_lt_2_32] by (simp add: parse_u32_def)
  ultimately show ?thesis by (simp add: kill_target_of_def read_pid_def)
qed

end
