(* ===== verification/Output.thy ===== *)
theory Output
  imports Recipe
begin

text \<open>
  What the command line prints: \<open>cli/output.rs\<close>. Tables are laid out by a library and JSON is written
  by serde, both parameters; the lines, the cells of the tables and where they go are the code's.
\<close>

section \<open>Numbers as text\<close>

fun show_hex :: "nat \<Rightarrow> string" where
  \<comment> \<open>\<open>{:X}\<close>\<close>
  "show_hex n = (if n < 16 then [hex_digit n] else show_hex (n div 16) @ [hex_digit (n mod 16)])"

declare show_hex.simps [simp del]

definition show_bool :: "bool \<Rightarrow> string" where
  "show_bool b = (if b then ''true'' else ''false'')"

definition show_micros :: "nat \<Rightarrow> string" where
  \<comment> \<open>A number of millionths with six decimals.\<close>
  "show_micros n = (let frac = show_nat (n mod 1000000) in
     show_nat (n div 1000000) @ CHR ''.'' # replicate (6 - length frac) CHR ''0'' @ frac)"

definition show_fixed6 :: "f64 \<Rightarrow> string" where
  \<comment> \<open>\<open>{:.6}\<close>: rounded to millionths, half to even.\<close>
  "show_fixed6 x = (case x of
      NaN \<Rightarrow> ''NaN'' | PInf \<Rightarrow> ''inf'' | NInf \<Rightarrow> ''-inf'' | NZero \<Rightarrow> ''-0.000000''
    | Fin q \<Rightarrow> (if q < 0 then ''-'' else []) @ show_micros (nat (round_even (\<bar>q\<bar> * 1000000))))"

definition show_state :: "time_state \<Rightarrow> string" where
  "show_state st = (case st of Paused \<Rightarrow> ''Paused'' | Running \<Rightarrow> ''Running'')"

definition show_step_kind :: "step_kind \<Rightarrow> string" where
  "show_step_kind k = (case k of KSet \<Rightarrow> ''Set'' | KStep \<Rightarrow> ''Step'' | KPrint \<Rightarrow> ''Print'' | KSpeed \<Rightarrow> ''Speed''
     | KReset \<Rightarrow> ''Reset'' | KSleep \<Rightarrow> ''Sleep'' | KAssert \<Rightarrow> ''Assert'' | KForIteration \<Rightarrow> ''ForIteration'')"

definition or_dash :: "string option \<Rightarrow> string" where
  "or_dash v = (case v of Some s \<Rightarrow> s | None \<Rightarrow> ''-'')"

section \<open>Lines and tables\<close>

datatype printed = OutLine string | ErrLine string

record 'e output_sys =
  ou_table :: "bool \<Rightarrow> string list \<Rightarrow> string list list \<Rightarrow> string"
    \<comment> \<open>whether the columns adapt to the terminal, header, rows\<close>
  ou_json :: "'e response \<Rightarrow> string option"
  ou_error :: "'e \<Rightarrow> string"

definition value_cells :: "signal_value_data \<Rightarrow> string list" where
  "value_cells v = [show_nat (unat (sv_id v)), sv_name v, signal_type_fmt (sv_type v),
     debug_signal_value (sv_value v), or_dash (sv_units v)]"

definition values_table :: "'e output_sys \<Rightarrow> signal_value_data list \<Rightarrow> string" where
  "values_table o1 vs = ou_table o1 False [''ID'', ''Name'', ''Type'', ''Value'', ''Units''] (map value_cells vs)"

definition signals_table :: "'e output_sys \<Rightarrow> signal_meta list \<Rightarrow> string" where
  "signals_table o1 sigs = ou_table o1 True [''ID'', ''Name'', ''Type'', ''Units'']
     (map (\<lambda>s. [show_nat (unat (sig_id s)), sig_name s, signal_type_fmt (sig_type s), or_dash (sig_units s)]) sigs)"

definition worker_values_table :: "'e output_sys \<Rightarrow> (u32 \<times> signal_value) list \<Rightarrow> string" where
  "worker_values_table o1 vs = ou_table o1 False [''ID'', ''Value'']
     (map (\<lambda>(i, v). [show_nat (unat i), debug_signal_value v]) vs)"

definition buses_table :: "'e output_sys \<Rightarrow> can_bus_data list \<Rightarrow> string" where
  "buses_table o1 buses = ou_table o1 False [''ID'', ''Bus'', ''Bitrate'', ''Data Bitrate'', ''FD'', ''Attached'']
     (map (\<lambda>b. [show_nat (unat (cb_id b)), cb_name b, show_nat (unat (cb_bitrate b)),
        if cb_bitrate_data b = 0 then ''-'' else show_nat (unat (cb_bitrate_data b)),
        show_bool (cb_fd_capable b), or_dash (cb_attached_iface b)]) buses)"

definition frames_table :: "'e output_sys \<Rightarrow> can_frame_data list \<Rightarrow> string" where
  "frames_table o1 frames = ou_table o1 False [''Arb ID'', ''Len'', ''Flags'', ''Data'']
     (map (\<lambda>f. [''0x'' @ show_hex (unat (cf_arb_id f)), show_nat (unat (cf_len f)),
        ''0x'' @ show_hex_byte (cf_flags f), cf_data_hex f]) frames)"

definition schedules_table :: "'e output_sys \<Rightarrow> can_schedule_data list \<Rightarrow> string" where
  "schedules_table o1 schedules = ou_table o1 False
     [''Job'', ''Bus'', ''Arb ID'', ''Data'', ''Flags'', ''Every (ticks)'', ''Next due'', ''Enabled'']
     (map (\<lambda>s. [cs_job_id s, cs_bus s, ''0x'' @ show_hex (unat (cs_arb_id s)), cs_data_hex s,
        ''0x'' @ show_hex_byte (cs_flags s), show_nat (unat (cs_every_ticks s)),
        show_nat (unat (cs_next_due_tick s)), show_bool (cs_enabled s)]) schedules)"

definition channels_table :: "'e output_sys \<Rightarrow> sim_shared_desc list \<Rightarrow> string" where
  "channels_table o1 channels = ou_table o1 False [''ID'', ''Channel'', ''Slots'']
     (map (\<lambda>c. [show_nat (unat (ch_id c)), ch_name c, show_nat (unat (slot_count c))]) channels)"

definition slots_table :: "'e output_sys \<Rightarrow> (u32 \<times> signal_type \<times> signal_value) list \<Rightarrow> string" where
  "slots_table o1 slots = ou_table o1 False [''Slot'', ''Type'', ''Value'']
     (map (\<lambda>(i, ty, v). [show_nat (unat i), signal_type_fmt ty, debug_signal_value v]) slots)"

definition env_signals_table :: "'e output_sys \<Rightarrow> env_signal_data list \<Rightarrow> string" where
  "env_signals_table o1 sigs = ou_table o1 False [''Instance'', ''Local ID'', ''Name'', ''Type'', ''Units'']
     (map (\<lambda>s. [es_instance s, show_nat (unat (es_local_id s)), es_name s, signal_type_fmt (es_type s),
        or_dash (es_units s)]) sigs)"

definition env_values_table :: "'e output_sys \<Rightarrow> env_signal_value_data list \<Rightarrow> string" where
  "env_values_table o1 vs = ou_table o1 False [''Instance'', ''Local ID'', ''Name'', ''Type'', ''Value'', ''Units'']
     (map (\<lambda>s. [es_instance s, show_nat (unat (es_local_id s)), es_name s, signal_type_fmt (es_type s),
        debug_signal_value (es_value s), or_dash (es_units s)]) vs)"

definition instances_table :: "'e output_sys \<Rightarrow> instance_info_data list \<Rightarrow> string" where
  "instances_table o1 items = ou_table o1 False [''Instance'', ''Running'', ''Env'', ''Socket'']
     (map (\<lambda>i. [ii_name i, show_bool (ii_running i), or_dash (ii_env i), ii_socket_path i]) items)"

definition time_status_line :: "time_status \<Rightarrow> string" where
  "time_status_line t =
     ''State: '' @ show_state (ts_state t) @ ''  Ticks: '' @ show_nat (unat (ts_elapsed_ticks t)) @
     ''  Sim-time: '' @ show_fixed6 (fdiv (f_of_int (uint (ts_elapsed_time_us t))) (Fin 1000000)) @
     ''s  Speed: '' @ show_float (rnd64 False) (ts_speed t) @ ''x''"

definition trace_status_lines :: "bool \<Rightarrow> string option \<Rightarrow> u64 \<Rightarrow> nat \<Rightarrow> u64 option \<Rightarrow> string list" where
  "trace_status_lines active path rows n period =
     [''Active: '' @ show_bool active, ''Path: '' @ or_dash path, ''Rows: '' @ show_nat (unat rows),
      ''Signals: '' @ show_nat n,
      ''Period(us): '' @ or_dash (map_option (\<lambda>v. show_nat (unat v)) period)]"

definition recipe_lines :: "string \<Rightarrow> bool \<Rightarrow> nat \<Rightarrow> step_result_data list \<Rightarrow> string list" where
  "recipe_lines recipe dry_run n steps =
     [''Recipe: '' @ recipe, ''Dry run: '' @ show_bool dry_run, ''Steps: '' @ show_nat n] @
     map (\<lambda>s. ''- ['' @ show_step_kind (st_kind s) @ ''] '' @ or_dash (st_instance s) @ '' '' @ st_detail s) steps"

definition env_status_lines :: "string \<Rightarrow> bool \<Rightarrow> nat \<Rightarrow> u32 \<Rightarrow> string list" where
  "env_status_lines env running n tick =
     [''Env: '' @ env, ''Running: '' @ show_bool running, ''Instances: '' @ show_nat n,
      ''Tick(us): '' @ show_nat (unat tick)]"

definition instance_status_lines :: "string \<Rightarrow> string \<Rightarrow> bool \<Rightarrow> string option \<Rightarrow> string list" where
  "instance_status_lines inst path running env =
     [''Instance: '' @ inst, ''Socket: '' @ path, ''Running: '' @ show_bool running, ''Env: '' @ or_dash env]"

definition data_lines :: "'e output_sys \<Rightarrow> response_data \<Rightarrow> string list" where
  \<comment> \<open>The lines of one kind of data.\<close>
  "data_lines o1 d = (case d of
      Ack \<Rightarrow> [''ok'']
    | Loaded lib n \<Rightarrow> [''Loaded: '' @ lib, ''Signals: '' @ show_nat n]
    | ProjectInfo lib tick n \<Rightarrow>
        [''Loaded: true'', ''Project: '' @ lib, ''Tick(us): '' @ show_nat (unat tick), ''Signals: '' @ show_nat n]
    | Signals sigs \<Rightarrow> [signals_table o1 sigs]
    | SignalValues vs \<Rightarrow> [values_table o1 vs]
    | WorkerSignalValues vs \<Rightarrow> [worker_values_table o1 vs]
    | SignalSample tick time_us vs \<Rightarrow>
        [''Tick: '' @ show_nat (unat tick), ''Time(us): '' @ show_nat (unat time_us), values_table o1 vs]
    | SetResult n \<Rightarrow> [''Writes applied: '' @ show_nat n]
    | TimeStatus t \<Rightarrow> [time_status_line t]
    | TimeAdvanced r \<Rightarrow>
        [''Requested: '' @ show_nat (unat (requested_us r)) @ ''us  Advanced: '' @
         show_nat (unat (advanced_ticks r)) @ '' ticks ('' @ show_nat (unat (advanced_us r)) @ ''us)'']
    | Speed v \<Rightarrow> [show_float (rnd64 False) v]
    | CanBuses buses \<Rightarrow> [buses_table o1 buses]
    | CanSent bus i len \<Rightarrow>
        [''Sent frame on '' @ bus @ '': id=0x'' @ show_hex (unat i) @ '' len='' @ show_nat (unat len)]
    | CanInspect bus frames \<Rightarrow> [''Bus: '' @ bus, frames_table o1 frames]
    | CanSchedules schedules \<Rightarrow> [schedules_table o1 schedules]
    | DbcLoaded bus n \<Rightarrow> [''Loaded DBC for '' @ bus @ '': '' @ show_nat n @ '' signals'']
    | SharedChannels channels \<Rightarrow> [channels_table o1 channels]
    | SharedValues channel slots \<Rightarrow> [''Channel: '' @ channel, slots_table o1 slots]
    | TraceStatus active path rows n period \<Rightarrow> trace_status_lines active path rows n period
    | RecipeResult recipe dry_run n steps \<Rightarrow> recipe_lines recipe dry_run n steps
    | EnvStatus env running n tick \<Rightarrow> env_status_lines env running n tick
    | EnvSignals sigs \<Rightarrow> [env_signals_table o1 sigs]
    | EnvSignalValues vs \<Rightarrow> [env_values_table o1 vs]
    | InstanceStatus inst path running env \<Rightarrow> instance_status_lines inst path running env
    | InstanceList items \<Rightarrow> [instances_table o1 items])"

definition print_response :: "'e output_sys \<Rightarrow> 'e response \<Rightarrow> bool \<Rightarrow> printed list" where
  "print_response o1 rsp json_mode =
     (if json_mode then
        [OutLine (case ou_json o1 rsp of
            Some s \<Rightarrow> s
          | None \<Rightarrow> ''{\"success\":false,\"error\":\"failed to serialize response\"}'')]
      else if \<not> rp_success rsp then
        [ErrLine (case rp_error rsp of Some e \<Rightarrow> ou_error o1 e | None \<Rightarrow> ''unknown error'')]
      else (case rp_data rsp of
          Some d \<Rightarrow> map OutLine (data_lines o1 d)
        | None \<Rightarrow> [OutLine ''ok'']))"

section \<open>What is printed\<close>

text \<open>
  For scripts, JSON is always exactly one line on standard output. For people, a failed response is
  exactly one line on standard error and nothing else, and a successful one is at least one line, on
  standard output only.
\<close>

theorem print_response_streams:
  "(json_mode \<longrightarrow> (\<exists>l. print_response o1 rsp json_mode = [OutLine l])) \<and>
   (\<not> json_mode \<and> \<not> rp_success rsp \<longrightarrow> (\<exists>l. print_response o1 rsp json_mode = [ErrLine l])) \<and>
   (\<not> json_mode \<and> rp_success rsp \<longrightarrow>
      (\<exists>ls. ls \<noteq> [] \<and> print_response o1 rsp json_mode = map OutLine ls))"
proof -
  have "data_lines o1 d \<noteq> []" for d by (cases d) (simp_all add: data_lines_def trace_status_lines_def recipe_lines_def
      env_status_lines_def instance_status_lines_def)
  then show ?thesis
    by (auto simp: print_response_def split: option.split)
qed

text \<open>Identifiers printed in hexadecimal are read back by the command line.\<close>

lemma parse_show_hex: "n < bnd \<Longrightarrow> digits_acc 16 bnd 0 (show_hex n) = Some n"
proof (induction n rule: show_hex.induct)
  case (1 n)
  show ?case
  proof (cases "n < 16")
    case True
    with 1 show ?thesis by (subst show_hex.simps) simp
  next
    case False
    with 1 have "digits_acc 16 bnd 0 (show_hex (n div 16)) = Some (n div 16)" by simp
    with False 1(2) show ?thesis by (subst show_hex.simps) (simp add: digits_acc_append)
  qed
qed

lemma parse_u32_show_hex: "parse_u32_hex (show_hex (unat v)) = Some v"
proof -
  have "unat v < 2 ^ 32" using unsigned_less[of v] by simp
  from parse_show_hex[OF this] have d: "digits_acc 16 (2 ^ 32) 0 (show_hex (unat v)) = Some (unat v)" .
  then have "show_hex (unat v) \<noteq> []" by (subst show_hex.simps) simp
  then obtain c cs where s: "show_hex (unat v) = c # cs" by (cases "show_hex (unat v)") auto
  then have "c \<noteq> CHR ''+''" "c \<noteq> CHR ''-''" using d by (auto simp: digit_val_def)
  then show ?thesis using d s by (simp add: parse_u32_hex_def parse_unsigned_def)
qed

section \<open>The simulated time\<close>

lemma round_even_near: "\<bar>x - of_int n\<bar> < 1 / 2 \<Longrightarrow> round_even x = n"
proof -
  assume "\<bar>x - of_int n\<bar> < 1 / 2"
  moreover have "\<bar>of_int (round_even x) - x\<bar> \<le> 1 / 2" by (rule round_even_error)
  ultimately have "\<bar>of_int (round_even x) - of_int n :: rat\<bar> < 1" by linarith
  then have "\<bar>of_int (round_even x - n) :: rat\<bar> < 1" by simp
  then show "round_even x = n" by linarith
qed

lemma rnd64_rel_error:
  assumes q: "pow2 (- 1000) \<le> q" "q < pow2 1000"
  shows "\<exists>m. rnd64 s q = Fin m \<and> 0 < m \<and> \<bar>m - q\<bar> \<le> q / 2 ^ 53"
proof -
  have pos: "0 < q" using q(1) pow2_pos[of "- 1000"] by linarith
  note spec = flog2_spec[OF pos]
  have lo: "- 1000 \<le> flog2 q"
  proof (rule ccontr)
    assume "\<not> - 1000 \<le> flog2 q"
    then have "pow2 (flog2 q + 1) \<le> pow2 (- 1000)" by (intro pow2_mono) simp
    then show False using spec q(1) by linarith
  qed
  have hi: "flog2 q < 1000" by (rule flog2_less[OF pos q(2)])
  define e where "e = flog2 q - 52"
  have e: "max (flog2 q - (53 - 1)) (- 1074) = e" using lo by (simp add: e_def)
  define r where "r = round_even (q / pow2 e)"
  define m where "m = of_int r * pow2 e"
  have "\<bar>of_int r - q / pow2 e\<bar> \<le> 1 / 2" unfolding r_def by (rule round_even_error)
  moreover have "m - q = (of_int r - q / pow2 e) * pow2 e" by (simp add: m_def field_simps)
  ultimately have "\<bar>m - q\<bar> \<le> 1 / 2 * pow2 e"
    by (simp add: abs_mult mult_right_mono)
  also have "1 / 2 * pow2 e = pow2 (flog2 q) / 2 ^ 53"
    using pow2_diff[of "flog2 q" 52] pow2_of_nat[of 52] by (simp add: e_def)
  also have "\<dots> \<le> q / 2 ^ 53" using spec by (simp add: divide_right_mono)
  finally have err: "\<bar>m - q\<bar> \<le> q / 2 ^ 53" .
  have "q / 2 ^ 53 < q" using pos by (simp add: field_simps)
  then have mpos: "0 < m" and mq: "m \<le> 2 * q" using err by linarith+
  have "2 * q < pow2 1001" using q(2) pow2_add[of 1 1000] pow2_of_nat[of 1] by simp
  moreover have "pow2 1001 \<le> pow2 1024" by (rule pow2_mono) simp
  ultimately have "m < pow2 1024" using mq by linarith
  then have "rnd64 s q = Fin m"
    using pos mpos e unfolding rnd64_def rnd_fmt_def by (auto simp: r_def m_def Let_def)
  then show ?thesis using mpos err by blast
qed

lemma millionths_recovered:
  assumes "0 < n" "n < 2 ^ 52"
  shows "\<exists>m. rnd64 s (of_nat n / 1000000) = Fin m \<and> 0 < m \<and> round_even (m * 1000000) = int n"
proof -
  let ?q = "of_nat n / 1000000 :: rat"
  have n1: "1 \<le> (of_nat n :: rat)" using assms(1) by simp
  have n2: "(of_nat n :: rat) < 2 ^ 52" using assms(2) by (metis of_nat_less_iff of_nat_numeral of_nat_power)
  have "pow2 (- 1000) \<le> pow2 (- 20)" by (rule pow2_mono) simp
  also have "pow2 (- 20) \<le> ?q" using n1 by (simp add: pow2_def)
  finally have lo: "pow2 (- 1000) \<le> ?q" .
  have "?q < pow2 52" using n2 by (simp add: pow2_def)
  also have "pow2 52 \<le> pow2 1000" by (rule pow2_mono) simp
  finally have hi: "?q < pow2 1000" .
  obtain m where m: "rnd64 s ?q = Fin m" "0 < m" "\<bar>m - ?q\<bar> \<le> ?q / 2 ^ 53"
    using rnd64_rel_error[OF lo hi] by blast
  have "m * 1000000 - of_nat n = (m - ?q) * 1000000" by simp
  then have "\<bar>m * 1000000 - of_nat n\<bar> = \<bar>m - ?q\<bar> * 1000000" by (simp only: abs_mult abs_numeral)
  also have "\<dots> \<le> ?q / 2 ^ 53 * 1000000" using m(3) by (simp add: mult_right_mono)
  also have "\<dots> < 1 / 2" using n2 by simp
  finally have "round_even (m * 1000000) = int n" by (intro round_even_near) simp
  then show ?thesis using m by blast
qed


end
