(* ===== verification/Spec2Isabelle.thy ===== *)
theory Spec2Isabelle
  imports Flash Sim_Project Time_Engine Shared_Region Can Dbc Protocol Trace Selectors Env_Properties
    Startup_Lock Lifecycle Connection Config Load_Resolve Commands Cli Recipe Recipe_Properties Cli_Properties
    Can_Backends Ipc Listeners Task_Runs Entry Output
begin

text \<open>
  A verification library for agent-sim, a runtime that loads firmware simulations from shared
  libraries, steps them and lets a command line and other simulations talk to them. Paths below are
  relative to \<open>src/runtime/src\<close>.

  \<^bold>\<open>The program.\<close> A simulation is a shared library behind a C interface. An instance daemon
  (\<open>daemon/\<close>) owns one of them: it keeps the clock, reads and writes signals, sends and receives CAN
  frames, publishes and reads shared channels and writes a trace. An environment daemon (\<open>envd/\<close>) owns
  several instances and steps them together, with scheduled CAN frames and a trace of its own. The
  command line (\<open>cli/\<close>) starts and finds daemons (\<open>daemon/lifecycle.rs\<close>, \<open>envd/lifecycle.rs\<close>), sends
  them one request per line (\<open>connection.rs\<close>, \<open>protocol.rs\<close>) and runs recipes.

  \<^bold>\<open>Conventions.\<close> Machine integers are words of their width, with saturating and checked operations
  from \<open>Prelude\<close>; a string is the list of its UTF-8 bytes (\<open>Rust_Strings\<close>); \<open>f64\<close> and \<open>f32\<close> are exact
  rationals with rounding, infinities, NaN and a negative zero (\<open>Float64\<close>); \<open>BTreeMap\<close> and \<open>HashMap\<close> are
  association lists behind the locale \<open>keyed_map\<close> of \<open>Containers\<close>. A fallible function gives a sum whose
  left side is the error; a panic is a value of \<open>failure\<close>. Code with state is an \<open>act\<close>, a function
  from a state to a result and the next state, so that what a failed operation leaves behind is part of
  the model. The operating system, the simulation library, sockets and clocks work on a world of any
  type and are fields of records (\<open>daemon_sys\<close>, \<open>env_sys\<close>, \<open>boot_sys\<close>, \<open>host\<close>, \<open>wire_sys\<close>, \<open>cli_sys\<close>,
  \<open>can_kernel\<close>, \<open>peak_library\<close>, \<open>ipc_sys\<close>, \<open>connection_sys\<close>, \<open>entry_sys\<close>, \<open>output_sys\<close>); what a theorem needs of them is a named predicate among its hypotheses.

  \<^bold>\<open>Data and library calls.\<close>
  \<^item> \<open>Sim_Types\<close>, \<open>Sim_Validation\<close>, \<open>Sim_Project\<close> (\<open>sim/types.rs\<close>, \<open>sim/error.rs\<close>, \<open>sim/validation.rs\<close>,
    \<open>sim/project.rs\<close>, \<open>name.rs\<close>): values, names, metadata, loading a project and every call into it.
    Loaded projects are valid, look-ups find what was declared, draining a bus is bounded.
  \<^item> \<open>Time_Engine\<close> (\<open>sim/time.rs\<close>): the clock; its invariant and the exactness of its accounting.
  \<^item> \<open>Shared_Region\<close> (\<open>shared/mod.rs\<close>): the sequence lock, once as the operations of the code and once as
    interleaved steps of a writer and a reader, word by word under sequential consistency. A snapshot
    returned is one that was published; the bound of \<open>2\<^sup>6\<^sup>3\<close> publications is where generations repeat.
  \<^item> \<open>Can\<close> (\<open>can/mod.rs\<close>, \<open>can/backend/\<close>), \<open>Dbc\<close> (\<open>can/dbc.rs\<close>): frame checks, kernel frames, bits of
    signals in both byte orders, physical values.
  \<^item> \<open>Can_Backends\<close> (\<open>can/backend/\<close>): opening a SocketCAN descriptor, which leaks none on any error path,
    and the PEAK driver over the vendor's library: frames come back as sent, and each bit rate profile
    programs the rates it stands for.
  \<^item> \<open>Flash\<close> (\<open>load/mod.rs\<close>): Intel HEX, S-records, merging of regions against a byte map.
  \<^item> \<open>Trace\<close> (\<open>trace.rs\<close>), \<open>Selectors\<close> (\<open>signal_selectors.rs\<close>), \<open>Protocol\<close> (\<open>protocol.rs\<close>): the CSV file with
    an independent reader, selectors, requests and responses, durations.

  \<^bold>\<open>The instance daemon.\<close> \<open>Daemon\<close> holds its state and ticks, \<open>Daemon_Actions\<close> every action of
  \<open>action_router.rs\<close> and one turn of its loop; \<open>Daemon_Safety\<close> proves the invariant kept by each of
  them, \<open>Daemon_Progress\<close> that ticks are counted, requests answered and the backlog drained.

  \<^bold>\<open>The environment daemon.\<close> \<open>Env\<close> holds its state, the requests to workers and the tick, \<open>Env_Actions\<close>
  every action, \<open>Env_Bootstrap\<close> the start with its rollback. \<open>Env_Safety\<close> proves the invariant,
  \<open>Env_Fleet\<close> joins an environment with the model of its members' daemons, \<open>Env_Progress\<close> proves the
  tick, the schedules and the grouped reads; \<open>Env_Properties\<close> states the results. A worker's task is
  taken to have ended before the next request is sent to it.

  \<^bold>\<open>The command line.\<close>
  \<^item> \<open>Startup_Lock\<close> (\<open>process.rs\<close>): several starters that compete for one lock, as an interleaving of
    their file operations. At most one holds it while no lock is taken for stale; when one is, two can.
  \<^item> \<open>Lifecycle\<close> (\<open>daemon/lifecycle.rs\<close>, \<open>envd/lifecycle.rs\<close>, \<open>process.rs\<close>): the lock as code, starting a
    daemon, waiting for it for at most five seconds, listings. The loop that waits for the lock is a
    partial function; it is shown to return on a clock that sleeping moves on.
  \<^item> \<open>Connection\<close> (\<open>connection.rs\<close>): one exchange, retries, their number and their delays.
  \<^item> \<open>Config\<close>, \<open>Load_Resolve\<close> (\<open>config/\<close>, \<open>load/resolve.rs\<close>): the configuration and the load specs made
    from it.
  \<^item> \<open>Commands\<close>, \<open>Cli\<close> (\<open>cli/args.rs\<close>, \<open>cli/commands.rs\<close>, \<open>cli/mod.rs\<close>, \<open>cli/env.rs\<close>): arguments, the
    request of a command, running a command with its exit code. A command may wait for ever, so its
    result is optional; \<open>close_env_returns\<close> shows that closing an environment does return.
  \<^item> \<open>Recipe\<close> (\<open>cli/recipe.rs\<close>): compiling and carrying out. \<open>Recipe_Properties\<close> shows that a compiled
    recipe acts as the recipe read step by step, that a dry run lists what a run does, that loops over
    whole numbers are exact (steps up to \<open>2\<^sup>2\<^sup>0\<close> and fewer than \<open>2\<^sup>2\<^sup>3\<close> iterations, where the rounding of the
    quotient stays below the tolerance of the code) and that assertions hold when a recipe succeeds.
    \<open>Cli_Properties\<close> adds the checks before a recipe, the spec of an environment and closing.

  \<^bold>\<open>Processes and sockets.\<close>
  \<^item> \<open>Ipc\<close> (\<open>ipc.rs\<close>): binding an endpoint and taking one over, the names of Windows pipes. Alone, a daemon
    takes over dead endpoints only; two that start together can both succeed.
  \<^item> \<open>Listeners\<close> (\<open>daemon/server.rs\<close>, \<open>daemon/server/tick_ops.rs\<close>, \<open>envd/server.rs\<close>): connections line by
    line, the task loops around the turns of \<open>Daemon_Actions\<close> and \<open>Env_Actions\<close>, and what a daemon claims
    and releases. What the scheduler brings a loop in each pass is a list, and a run is followed until
    the task ends; every line of a connection is answered.
  \<^item> \<open>Task_Runs\<close>: a whole run of either task is a sequence of the steps of \<open>Daemon_Progress\<close> and
    \<open>Env_Safety\<close>, so the invariants hold from the loaded library, or the environment's spec, to the end
    of the task.
  \<^item> \<open>Entry\<close> (\<open>main.rs\<close>, \<open>internal_cli.rs\<close>, \<open>daemon/mod.rs\<close>, \<open>envd/mod.rs\<close>, \<open>process.rs\<close>): the commands by
    which the program starts itself, spec files, exit codes and signals.
  \<^item> \<open>Output\<close> (\<open>cli/output.rs\<close>): the lines and cells printed of every response.

  \<^bold>\<open>Bounds and fuel.\<close> Loops that end are structural or have a measure; the loops that wait for a lock
  or for an environment to end, that serve a connection or that empty a PEAK channel are partial
  functions. The only fuel is that of the search for the
  shortest digits of a float (\<open>Trace\<close>): after the first digit 17 more are tried, and 17 in all suffice
  for an \<open>f64\<close>.

  \<^bold>\<open>Not modelled.\<close> JSON and TOML text (serde and toml), the DBC grammar (can-dbc), glob patterns
  (globset), the layout of tables (comfy_table), the arguments as clap reads them and the set-up of the
  log: these belong to other packages and are parameters where the code relies on them. Memory mapping
  and relaxed memory orders are left out, and so is the scheduling of tasks: a channel between tasks is
  what it delivers. Error messages are the values they are printed from.
\<close>

end
